(* ===== verification/Dm_Prelude.thy ===== *)
theory Dm_Prelude
  imports Complex_Main "HOL-Library.Sublist"
begin

text \<open>
  What every component of the dmanager frontend shares: the JavaScript string operations the
  source calls (\<open>trim\<close>, \<open>toLowerCase\<close>, \<open>includes\<close>, \<open>startsWith\<close>, \<open>slice\<close>, \<open>join\<close>,
  \<open>lastIndexOf\<close>, number to text), the values a \<open>catch\<close> clause can receive and the text the
  handlers show for them, the outcome of a Connect RPC, and a small type of rendered nodes
  (text, buttons, fields, selects, links) with the function that reads off which messages an
  enabled control can dispatch.

  Text is a list of 8-bit code units (Latin-1); the three typographic characters the source
  prints beyond that range (the em dash, the en dash and the ellipsis) stand for themselves
  as the constants \<open>em_dash\<close>, \<open>en_dash\<close> and \<open>ellipsis\<close>.
\<close>

named_theorems view_defs \<open>definitions of views and of the parts they are made of\<close>
named_theorems op_defs \<open>definitions of handlers and state operations\<close>

section \<open>Strings\<close>

definition em_dash :: string where
  "em_dash = [CHR 0xE2, CHR 0x80, CHR 0x94]"

definition en_dash :: string where
  "en_dash = [CHR 0xE2, CHR 0x80, CHR 0x93]"

definition ellipsis :: string where
  "ellipsis = [CHR 0xE2, CHR 0x80, CHR 0xA6]"

definition is_space :: "char \<Rightarrow> bool" where
  "is_space c \<longleftrightarrow> (let n = (of_char c :: nat) in (9 \<le> n \<and> n \<le> 13) \<or> n = 32 \<or> n = 160)"

definition trim :: "string \<Rightarrow> string" where
  "trim s = rev (dropWhile is_space (rev (dropWhile is_space s)))"

definition lower_char :: "char \<Rightarrow> char" where
  "lower_char c =
     (let n = (of_char c :: nat)
      in if (65 \<le> n \<and> n \<le> 90) \<or> (192 \<le> n \<and> n \<le> 222 \<and> n \<noteq> 215) then char_of (n + 32) else c)"

definition toLowerCase :: "string \<Rightarrow> string" where
  "toLowerCase s = map lower_char s"

text \<open>
  Upper-casing maps the letters whose capital is again an 8-bit code unit and expands the
  sharp s; the two remaining Latin-1 letters (the micro sign and y with diaeresis) have
  capitals outside the range and are left as they are.
\<close>

definition upper_char :: "char \<Rightarrow> string" where
  "upper_char c =
     (let n = (of_char c :: nat)
      in if (97 \<le> n \<and> n \<le> 122) \<or> (224 \<le> n \<and> n \<le> 254 \<and> n \<noteq> 247) then [char_of (n - 32)]
         else if n = 223 then ''SS'' else [c])"

definition toUpperCase :: "string \<Rightarrow> string" where
  "toUpperCase s = concat (map upper_char s)"

fun str_includes :: "string \<Rightarrow> string \<Rightarrow> bool" where
  "str_includes [] p \<longleftrightarrow> p = []"
| "str_includes (c # cs) p \<longleftrightarrow> prefix p (c # cs) \<or> str_includes cs p"

definition startsWith :: "string \<Rightarrow> string \<Rightarrow> bool" where
  "startsWith s p \<longleftrightarrow> prefix p s"

fun join :: "string \<Rightarrow> string list \<Rightarrow> string" where
  "join sep [] = []"
| "join sep [x] = x"
| "join sep (x # y # ys) = x @ sep @ join sep (y # ys)"

text \<open>\<open>lastIndexOf\<close> of a single character; \<open>None\<close> is JavaScript's -1.\<close>

fun lastIndexOf :: "string \<Rightarrow> char \<Rightarrow> nat option" where
  "lastIndexOf [] c = None"
| "lastIndexOf (x # xs) c =
     (case lastIndexOf xs c of
        Some i \<Rightarrow> Some (Suc i)
      | None \<Rightarrow> if x = c then Some 0 else None)"

fun string_of_nat :: "nat \<Rightarrow> string" where
  "string_of_nat n =
     (if n < 10 then [char_of (48 + n)] else string_of_nat (n div 10) @ [char_of (48 + n mod 10)])"

declare string_of_nat.simps [simp del]

definition string_of_int :: "int \<Rightarrow> string" where
  "string_of_int i = (if i < 0 then ''-'' @ string_of_nat (nat (- i)) else string_of_nat (nat i))"

text \<open>\<open>a || b\<close> on strings: the empty string is falsy.\<close>

definition str_or :: "string \<Rightarrow> string \<Rightarrow> string" where
  "str_or a b = (if a = [] then b else a)"

definition quoted :: "string \<Rightarrow> string" where
  "quoted s = [CHR 0x22] @ s @ [CHR 0x22]"

section \<open>Exceptions and RPC outcomes\<close>

text \<open>
  What a \<open>catch\<close> clause receives: a \<open>ConnectError\<close> (code, raw message, message), some other
  \<open>Error\<close>, or a thrown value that is no \<open>Error\<close>, given by its \<open>String(...)\<close> form. A Connect
  code is a number; 16 is \<open>Code.Unauthenticated\<close>.
\<close>

datatype js_error =
    ConnectError (err_code: nat) (raw_message: string) (err_message: string)
  | PlainError (err_message: string)
  | Thrown string

type_synonym 'a rpc = "js_error + 'a"

definition code_Unauthenticated :: nat where
  "code_Unauthenticated = 16"

fun is_Error :: "js_error \<Rightarrow> bool" where
  "is_Error (ConnectError c r m) = True"
| "is_Error (PlainError m) = True"
| "is_Error (Thrown s) = False"

text \<open>\<open>err instanceof Error ? err.message : String(err)\<close>.\<close>

fun err_text :: "js_error \<Rightarrow> string" where
  "err_text (ConnectError c r m) = m"
| "err_text (PlainError m) = m"
| "err_text (Thrown s) = s"

text \<open>\<open>err instanceof Error ? err.message : fallback\<close>.\<close>

fun err_text_or :: "string \<Rightarrow> js_error \<Rightarrow> string" where
  "err_text_or d (ConnectError c r m) = m"
| "err_text_or d (PlainError m) = m"
| "err_text_or d (Thrown s) = d"

fun is_unauthenticated :: "js_error \<Rightarrow> bool" where
  "is_unauthenticated (ConnectError c r m) \<longleftrightarrow> c = code_Unauthenticated"
| "is_unauthenticated _ \<longleftrightarrow> False"

section \<open>Rendered nodes\<close>

text \<open>
  A view renders a list of nodes. Layout, styling and icons are left out; what remains is
  the text, the controls with their \<open>disabled\<close> attribute and tooltip, and the message the
  control's handler stands for.
\<close>

datatype 'm node =
    Text string
  | Button 'm bool "string option" "'m node list"
  | Field string string bool
  | Select string string "string list" bool
  | Link string "'m option" "'m node list"
  | Box string "'m node list"

fun clicks :: "'m node \<Rightarrow> 'm list" where
  "clicks (Text s) = []"
| "clicks (Button m dis t ns) = (if dis then [] else m # concat (map clicks ns))"
| "clicks (Field i v dis) = []"
| "clicks (Select i v os dis) = []"
| "clicks (Link p m ns) = (case m of Some a \<Rightarrow> [a] | None \<Rightarrow> []) @ concat (map clicks ns)"
| "clicks (Box c ns) = concat (map clicks ns)"

text \<open>The messages a user can dispatch by clicking some enabled control of a view.\<close>

definition offered :: "'m node list \<Rightarrow> 'm list" where
  "offered ns = concat (map clicks ns)"

fun texts :: "'m node \<Rightarrow> string list" where
  "texts (Text s) = [s]"
| "texts (Button m dis t ns) = concat (map texts ns)"
| "texts (Field i v dis) = [v]"
| "texts (Select i v os dis) = [v]"
| "texts (Link p m ns) = concat (map texts ns)"
| "texts (Box c ns) = concat (map texts ns)"

definition shown :: "'m node list \<Rightarrow> string list" where
  "shown ns = concat (map texts ns)"

text \<open>The fields and selects a user can edit, by their id or label.\<close>

fun editable :: "'m node \<Rightarrow> string list" where
  "editable (Text s) = []"
| "editable (Button m dis t ns) = concat (map editable ns)"
| "editable (Field i v dis) = (if dis then [] else [i])"
| "editable (Select i v os dis) = (if dis then [] else [i])"
| "editable (Link p m ns) = concat (map editable ns)"
| "editable (Box c ns) = concat (map editable ns)"

definition inputs :: "'m node list \<Rightarrow> string list" where
  "inputs ns = concat (map editable ns)"

text \<open>\<open>cond && node\<close> in JSX.\<close>

definition show_if :: "bool \<Rightarrow> 'm node list \<Rightarrow> 'm node list" where
  "show_if b ns = (if b then ns else [])"

section \<open>Lemmas on strings\<close>

lemma trim_Nil [simp]: "trim [] = []"
  by (simp add: trim_def)

lemma dropWhile_rev_idem:
  "dropWhile P (rev (dropWhile P (rev (dropWhile P xs)))) = rev (dropWhile P (rev (dropWhile P xs)))"
proof -
  let ?y = "dropWhile P xs"
  have "rev (dropWhile P (rev ?y)) = [] \<or> hd (rev (dropWhile P (rev ?y))) = hd ?y"
  proof (cases "dropWhile P (rev ?y) = []")
    case False
    have "rev ?y = takeWhile P (rev ?y) @ dropWhile P (rev ?y)" by simp
    then have "last (rev ?y) = last (dropWhile P (rev ?y))"
      using False by (metis last_appendR)
    moreover from False have "?y \<noteq> []"
      by (metis dropWhile.simps(1) rev.simps(1))
    ultimately show ?thesis by (metis False hd_rev last_rev)
  qed simp
  moreover have "?y \<noteq> []" if "rev (dropWhile P (rev ?y)) \<noteq> []"
    using that by (metis dropWhile.simps(1) rev.simps(1))
  ultimately show ?thesis
    by (metis dropWhile_eq_self_iff hd_dropWhile)
qed

lemma trim_idem [simp]: "trim (trim s) = trim s"
  by (simp add: trim_def dropWhile_rev_idem)

lemma trim_eq_Nil_iff: "trim s = [] \<longleftrightarrow> (\<forall>c \<in> set s. is_space c)"
proof
  assume "trim s = []"
  then have *: "\<forall>c \<in> set (dropWhile is_space s). is_space c"
    by (simp add: trim_def dropWhile_eq_Nil_conv)
  show "\<forall>c \<in> set s. is_space c"
  proof (cases "dropWhile is_space s")
    case Nil then show ?thesis by (simp add: dropWhile_eq_Nil_conv)
  next
    case (Cons c cs)
    then have "\<not> is_space c" by (metis hd_dropWhile list.distinct(1) list.sel(1))
    with * Cons show ?thesis by simp
  qed
qed (auto simp: trim_def dropWhile_eq_Nil_conv dest: set_dropWhileD)

lemma length_trim: "length (trim s) \<le> length s"
proof -
  have "length (dropWhile is_space (rev (dropWhile is_space s))) \<le> length (dropWhile is_space s)"
    by (metis length_dropWhile_le length_rev)
  then show ?thesis
    by (simp add: trim_def) (meson le_trans length_dropWhile_le)
qed

lemma str_includes_iff_sublist: "str_includes s p \<longleftrightarrow> sublist p s"
  by (induction s) (auto simp: sublist_Cons_right)

lemma str_includes_Nil [simp]: "str_includes s []"
  by (cases s) auto

lemma lastIndexOf_None_iff: "lastIndexOf s c = None \<longleftrightarrow> c \<notin> set s"
  by (induction s) (auto split: option.splits)

lemma lastIndexOf_Some:
  "lastIndexOf s c = Some i \<Longrightarrow> i < length s \<and> s ! i = c \<and> c \<notin> set (drop (Suc i) s)"
proof (induction s arbitrary: i)
  case (Cons x xs)
  then show ?case
    by (cases "lastIndexOf xs c")
      (auto simp: lastIndexOf_None_iff split: if_splits)
qed simp

lemma lastIndexOf_unique:
  "c \<notin> set ys \<Longrightarrow> lastIndexOf (xs @ c # ys) c = Some (length xs)"
proof (induction xs)
  case Nil then show ?case by (simp add: lastIndexOf_None_iff [THEN iffD2])
qed simp

text \<open>The decimal digits as characters, for evaluating numbers printed as text.\<close>

lemma digit_chars [simp]:
  "char_of (48::nat) = CHR ''0''" "char_of (49::nat) = CHR ''1''" "char_of (50::nat) = CHR ''2''"
  "char_of (51::nat) = CHR ''3''" "char_of (52::nat) = CHR ''4''" "char_of (53::nat) = CHR ''5''"
  "char_of (54::nat) = CHR ''6''" "char_of (55::nat) = CHR ''7''" "char_of (56::nat) = CHR ''8''"
  "char_of (57::nat) = CHR ''9''"
  by code_simp+

lemma string_of_nat_neq_Nil [simp]: "string_of_nat n \<noteq> []"
  by (subst string_of_nat.simps) simp

lemma str_or_neq_Nil: "b \<noteq> [] \<Longrightarrow> str_or a b \<noteq> []"
  by (simp add: str_or_def)

text \<open>Reading the decimal digits back.\<close>

definition digit_val :: "char \<Rightarrow> nat" where
  "digit_val c = of_char c - 48"

definition nat_of_string :: "string \<Rightarrow> nat" where
  "nat_of_string s = foldl (\<lambda>a c. 10 * a + digit_val c) 0 s"

lemma digit_val_char_of: "n < 10 \<Longrightarrow> digit_val (char_of (48 + n)) = n"
  by (simp add: digit_val_def of_char_of)

lemma nat_of_string_of_nat [simp]: "nat_of_string (string_of_nat n) = n"
proof (induction n rule: string_of_nat.induct)
  case (1 n)
  show ?case
  proof (cases "n < 10")
    case True
    then show ?thesis
      by (subst string_of_nat.simps) (simp add: nat_of_string_def digit_val_char_of)
  next
    case False
    with 1 have "nat_of_string (string_of_nat (n div 10)) = n div 10" by simp
    with False show ?thesis
      by (subst string_of_nat.simps)
        (simp add: nat_of_string_def digit_val_char_of)
  qed
qed

lemma string_of_nat_inject: "string_of_nat m = string_of_nat n \<longleftrightarrow> m = n"
  by (metis nat_of_string_of_nat)

section \<open>Lemmas on views\<close>

lemma offered_simps [simp]:
  "offered [] = []"
  "offered (n # ns) = clicks n @ offered ns"
  "offered (ms @ ns) = offered ms @ offered ns"
  by (simp_all add: offered_def)

lemma shown_simps [simp]:
  "shown [] = []"
  "shown (n # ns) = texts n @ shown ns"
  "shown (ms @ ns) = shown ms @ shown ns"
  by (simp_all add: shown_def)

lemma inputs_simps [simp]:
  "inputs [] = []"
  "inputs (n # ns) = editable n @ inputs ns"
  "inputs (ms @ ns) = inputs ms @ inputs ns"
  by (simp_all add: inputs_def)

lemma clicks_offered [simp]:
  "clicks (Box c ns) = offered ns"
  "clicks (Button m dis t ns) = (if dis then [] else m # offered ns)"
  "clicks (Link p l ns) = (case l of Some a \<Rightarrow> [a] | None \<Rightarrow> []) @ offered ns"
  by (simp_all add: offered_def)

lemma texts_shown [simp]:
  "texts (Box c ns) = shown ns"
  "texts (Button m dis t ns) = shown ns"
  "texts (Link p l ns) = shown ns"
  by (simp_all add: shown_def)

lemma editable_inputs [simp]:
  "editable (Box c ns) = inputs ns"
  "editable (Button m dis t ns) = inputs ns"
  "editable (Link p l ns) = inputs ns"
  by (simp_all add: inputs_def)

declare clicks.simps(2,5,6) [simp del] texts.simps(2,5,6) [simp del] editable.simps(2,5,6) [simp del]

lemma offered_show_if [simp]: "offered (show_if b ns) = (if b then offered ns else [])"
  by (simp add: show_if_def)

lemma shown_show_if [simp]: "shown (show_if b ns) = (if b then shown ns else [])"
  by (simp add: show_if_def)

lemma inputs_show_if [simp]: "inputs (show_if b ns) = (if b then inputs ns else [])"
  by (simp add: show_if_def)

lemma offered_if [simp]: "offered (if b then ns else ms) = (if b then offered ns else offered ms)"
  by simp

lemma offered_concat_map: "offered (concat (map f xs)) = concat (map (\<lambda>x. offered (f x)) xs)"
  by (induction xs) auto

lemma offered_map: "offered (map f xs) = concat (map (\<lambda>x. clicks (f x)) xs)"
  by (induction xs) auto

section \<open>Lemmas on lists and maps\<close>

lemma length_filter_compl: "length (filter P xs) + length (filter (\<lambda>x. \<not> P x) xs) = length xs"
  by (induction xs) auto

lemma sum_list_filter_le:
  fixes f :: "'a \<Rightarrow> int"
  assumes "\<And>x. x \<in> set xs \<Longrightarrow> 0 \<le> f x" and "\<And>x. x \<in> set xs \<Longrightarrow> P x \<Longrightarrow> Q x"
  shows "sum_list (map f (filter P xs)) \<le> sum_list (map f (filter Q xs))"
  using assms by (induction xs) (auto intro: add_mono add_increasing)

end
