(* ===== verification/Toasts.thy ===== *)
theory Toasts
  imports Dm_Prelude "HOL-Library.Multiset"
begin

text \<open>
  The toast notifications: the provider's list and its operations
  (\<open>context/ToastContext.tsx\<close>) and the auto-dismiss timer of a single toast
  (\<open>components/ToastContainer.tsx\<close>). A toast's id comes from \<open>Math.random\<close>, so the id an
  \<open>addToast\<close> draws is an argument. The other components report their messages as
  \<open>toast_call\<close> values; \<open>emit\<close> feeds them to the provider.
\<close>

section \<open>The provider\<close>

datatype toastType = Info | Success | Warning | Error

record toastItem =
  t_id :: string
  t_type :: toastType
  t_message :: string
  t_duration :: int

type_synonym toasts = "toastItem list"

definition removeToast :: "string \<Rightarrow> toasts \<Rightarrow> toasts" where
  "removeToast i ts = filter (\<lambda>t. t_id t \<noteq> i) ts"

text \<open>\<open>duration = 5000\<close> is the default of the parameter.\<close>

definition addToast :: "string \<Rightarrow> toastType \<Rightarrow> string \<Rightarrow> int option \<Rightarrow> toasts \<Rightarrow> toasts" where
  "addToast i ty msg dur ts =
     ts @ [\<lparr>t_id = i, t_type = ty, t_message = msg,
            t_duration = (case dur of None \<Rightarrow> 5000 | Some d \<Rightarrow> d)\<rparr>]"

text \<open>A call of \<open>success\<close>, \<open>error\<close>, \<open>info\<close> or \<open>warning\<close>, as a value.\<close>

datatype toast_call = Toast (tc_type: toastType) (tc_message: string) (tc_duration: "int option")

definition toast_success :: "string \<Rightarrow> toast_call" where
  "toast_success m = Toast Success m None"

definition toast_error :: "string \<Rightarrow> toast_call" where
  "toast_error m = Toast Error m None"

definition toast_info :: "string \<Rightarrow> int option \<Rightarrow> toast_call" where
  "toast_info m d = Toast Info m d"

definition toast_warning :: "string \<Rightarrow> int option \<Rightarrow> toast_call" where
  "toast_warning m d = Toast Warning m d"

text \<open>Running a list of toast calls, each with the id it draws.\<close>

fun emit :: "(string \<times> toast_call) list \<Rightarrow> toasts \<Rightarrow> toasts" where
  "emit [] ts = ts"
| "emit ((i, c) # cs) ts = emit cs (addToast i (tc_type c) (tc_message c) (tc_duration c) ts)"

section \<open>One toast and its timer\<close>

text \<open>
  A mounted \<open>Toast\<close> holds at most one pending timeout in \<open>timeoutRef\<close>. Starting the timer
  overwrites the reference, so a timeout that is already pending stays armed without being
  reachable any more: \<open>live\<close> counts the timeouts the browser still has, \<open>timeoutRef\<close>
  is the one the component can clear. Timer handles are numbered from 1, as a browser's are,
  so every handle is truthy.
\<close>

record toast_timer =
  tt_duration :: int
  timeoutRef :: "nat option"
  live :: "nat list"
  next_handle :: nat

definition toast_mounted :: "int \<Rightarrow> toast_timer" where
  "toast_mounted d = \<lparr>tt_duration = d, timeoutRef = None, live = [], next_handle = 1\<rparr>"

definition startTimer :: "toast_timer \<Rightarrow> toast_timer" where
  "startTimer t =
     (if tt_duration t > 0
      then t\<lparr>timeoutRef := Some (next_handle t), live := next_handle t # live t,
             next_handle := Suc (next_handle t)\<rparr>
      else t)"

definition clearTimer :: "toast_timer \<Rightarrow> toast_timer" where
  "clearTimer t =
     (case timeoutRef t of
        Some h \<Rightarrow> t\<lparr>timeoutRef := None, live := filter (\<lambda>x. x \<noteq> h) (live t)\<rparr>
      | None \<Rightarrow> t)"

text \<open>
  What happens to a mounted toast: it is mounted (the effect starts the timer), the pointer
  enters (\<open>clearTimer\<close>), the pointer leaves (\<open>startTimer\<close>).
\<close>

datatype toast_event = PointerEnter | PointerLeave

fun toast_step :: "toast_event \<Rightarrow> toast_timer \<Rightarrow> toast_timer" where
  "toast_step PointerEnter t = clearTimer t"
| "toast_step PointerLeave t = startTimer t"

definition toast_run :: "int \<Rightarrow> toast_event list \<Rightarrow> toast_timer" where
  "toast_run d es = fold toast_step es (startTimer (toast_mounted d))"

text \<open>Unmounting runs the effect's cleanup.\<close>

definition toast_unmount :: "toast_timer \<Rightarrow> toast_timer" where
  "toast_unmount t = clearTimer t"

text \<open>The pointer can only leave after it entered, and only enter when it is outside.\<close>

fun pointer_ok :: "bool \<Rightarrow> toast_event list \<Rightarrow> bool" where
  "pointer_ok inside [] \<longleftrightarrow> True"
| "pointer_ok inside (PointerEnter # es) \<longleftrightarrow> \<not> inside \<and> pointer_ok True es"
| "pointer_ok inside (PointerLeave # es) \<longleftrightarrow> inside \<and> pointer_ok False es"

section \<open>Rendering\<close>

datatype toast_icon = IconInfo | IconCheck | IconAlertCircle | IconAlertTriangle

definition toastIcon :: "toastType \<Rightarrow> toast_icon" where
  "toastIcon ty =
     (let i = IconInfo;
          i = (if ty = Success then IconCheck else i);
          i = (if ty = Error then IconAlertCircle else i)
      in if ty = Warning then IconAlertTriangle else i)"

datatype toast_msg = Dismiss string

definition toastView :: "toastItem \<Rightarrow> toast_msg node" where
  "toastView t =
     Box ''toast-item'' [Text (t_message t), Button (Dismiss (t_id t)) False None []]"

definition toastContainer :: "toasts \<Rightarrow> toast_msg node list" where
  "toastContainer ts = (if ts = [] then [] else [Box ''toast-container'' (map toastView ts)])"

lemmas [view_defs] = toastView_def toastContainer_def
lemmas [op_defs] = toast_success_def toast_error_def toast_info_def toast_warning_def

section \<open>The list of toasts\<close>

lemma emit_append: "emit (cs @ ds) ts = emit ds (emit cs ts)"
  by (induction cs arbitrary: ts) auto

text \<open>The entry a call becomes under the id it draws; the calls are appended in order.\<close>

definition toast_of :: "string \<times> toast_call \<Rightarrow> toastItem" where
  "toast_of = (\<lambda>(i, c). \<lparr>t_id = i, t_type = tc_type c, t_message = tc_message c,
     t_duration = (case tc_duration c of None \<Rightarrow> 5000 | Some d \<Rightarrow> d)\<rparr>)"

lemma emit_toasts: "emit cs ts = ts @ map toast_of cs"
  by (induction cs arbitrary: ts) (auto simp: addToast_def toast_of_def)

lemma emit_ids: "map t_id (emit cs ts) = map t_id ts @ map fst cs"
  by (induction cs arbitrary: ts) (auto simp: addToast_def)

lemma emit_messages: "map t_message (emit cs ts) = map t_message ts @ map (tc_message \<circ> snd) cs"
  by (induction cs arbitrary: ts) (auto simp: addToast_def)

lemma removeToast_ids: "map t_id (removeToast i ts) = filter (\<lambda>x. x \<noteq> i) (map t_id ts)"
  by (induction ts) (auto simp: removeToast_def)

lemma removeToast_notin: "i \<notin> t_id ` set ts \<Longrightarrow> removeToast i ts = ts"
  by (auto simp: removeToast_def filter_id_conv)

lemma removeToast_append: "removeToast i (ts @ us) = removeToast i ts @ removeToast i us"
  by (simp add: removeToast_def)

text \<open>
  Dismissing the toast that was just added restores the list, when its random id is fresh.
\<close>

lemma remove_added: "i \<notin> t_id ` set ts \<Longrightarrow> removeToast i (addToast i ty m d ts) = ts"
  by (simp add: addToast_def removeToast_append removeToast_notin) (simp add: removeToast_def)

text \<open>Dismissing a set of toasts keeps the others, in order; each entry has its button.\<close>

lemma fold_removeToast: "fold removeToast js ts = filter (\<lambda>t. t_id t \<notin> set js) ts"
  by (induction js arbitrary: ts) (auto simp: removeToast_def intro: filter_cong)

lemma dismiss_offered: "Dismiss i \<in> set (offered (toastContainer ts)) \<longleftrightarrow> i \<in> t_id ` set ts"
  by (auto simp: view_defs offered_map)

section \<open>The timer\<close>

definition timer_inv :: "toast_timer \<Rightarrow> bool" where
  "timer_inv t \<longleftrightarrow>
     live t = (case timeoutRef t of None \<Rightarrow> [] | Some h \<Rightarrow> [h]) \<and>
     (\<forall>h \<in> set (live t). h < next_handle t)"

lemma timer_inv_clear: "timer_inv t \<Longrightarrow> timer_inv (clearTimer t) \<and> live (clearTimer t) = []
    \<and> timeoutRef (clearTimer t) = None"
  by (auto simp: timer_inv_def clearTimer_def split: option.splits)

lemma timer_inv_start:
  "timer_inv t \<Longrightarrow> live t = [] \<Longrightarrow> timer_inv (startTimer t)"
  by (auto simp: timer_inv_def startTimer_def split: option.splits)

lemma tt_duration_step [simp]: "tt_duration (toast_step e t) = tt_duration t"
  by (cases e) (auto simp: startTimer_def clearTimer_def split: option.splits)

lemma live_start: "0 < tt_duration t \<Longrightarrow> live t = [] \<Longrightarrow> live (startTimer t) = [next_handle t]"
  by (simp add: startTimer_def)

lemma toast_fold_inv:
  "timer_inv t \<Longrightarrow> pointer_ok inside es \<Longrightarrow> (inside \<longrightarrow> live t = []) \<Longrightarrow> timer_inv (fold toast_step es t)"
proof (induction es arbitrary: t inside)
  case (Cons e es)
  show ?case
  proof (cases e)
    case PointerEnter
    with Cons.prems have "timer_inv (clearTimer t)" "live (clearTimer t) = []" "pointer_ok True es"
      by (auto dest: timer_inv_clear)
    then show ?thesis using Cons.IH PointerEnter by simp
  next
    case PointerLeave
    with Cons.prems have "timer_inv (startTimer t)" "pointer_ok False es"
      by (auto intro: timer_inv_start)
    then show ?thesis using Cons.IH [of "startTimer t" False] PointerLeave by simp
  qed
qed simp

lemma timer_inv_mounted: "timer_inv (toast_mounted d)"
  by (simp add: timer_inv_def toast_mounted_def)

section \<open>Properties\<close>

text \<open>
  C1: A toast never owns more than one pending auto-dismiss timeout, whatever the pointer does
  over it, and the timeout it owns is the one its \<open>timeoutRef\<close> can clear: unmounting the toast
  therefore leaves no timeout behind that would dismiss another toast later.
\<close>

theorem toast_timer_unique:
  assumes "pointer_ok False es"
  shows "length (live (toast_run d es)) \<le> 1 \<and> live (toast_unmount (toast_run d es)) = []"
proof -
  have "timer_inv (startTimer (toast_mounted d))"
    by (rule timer_inv_start [OF timer_inv_mounted]) (simp add: toast_mounted_def)
  then have "timer_inv (toast_run d es)"
    using assms toast_fold_inv [of "startTimer (toast_mounted d)" False es]
    by (simp add: toast_run_def)
  then show ?thesis
    by (auto simp: timer_inv_def toast_unmount_def dest: timer_inv_clear [unfolded timer_inv_def]
        split: option.splits simp: clearTimer_def)
qed

theorem toast_timer_unique_witness:
  "length (live (toast_run 5000 [PointerEnter, PointerLeave])) \<le> 1
   \<and> live (toast_unmount (toast_run 5000 [PointerEnter, PointerLeave])) = []"
  by (rule toast_timer_unique) simp

end
