(* ===== verification/Wire_Messages.thy ===== *)
theory Wire_Messages
  imports Dm_Prelude
begin

text \<open>
  The protobuf messages the frontend exchanges with the server, as the generated clients
  under \<open>frontend/src/gen/proto/dmanager/v1\<close> declare them: one record per message type the
  modelled code reads or fills in, with the field names prefixed by the message so that two messages may
  share a field name. A \<open>bigint\<close> or \<open>number\<close> field is an \<open>int\<close> (or a \<open>nat\<close> where the
  wire type is unsigned), an optional message an \<open>option\<close>.
\<close>

record timestamp =
  ts_seconds :: int
  ts_nanos :: int

section \<open>admin\<close>

record image =
  img_id :: string
  img_repoTags :: "string list"
  img_createdUnix :: int
  img_sizeBytes :: int
  img_containersCount :: int

record volume =
  vol_name :: string
  vol_driver :: string
  vol_mountpoint :: string
  vol_createdAt :: "timestamp option"
  vol_labels :: "(string \<times> string) list"

record network =
  net_id :: string
  net_name :: string
  net_driver :: string
  net_scope :: string
  net_internal :: bool
  net_createdAt :: "timestamp option"
  net_containersCount :: int
  net_predefined :: bool

record deleteNetworkRequest =
  dnr_id :: string

record pruneNetworksResponse =
  pn_networksDeleted :: nat
  pn_names :: "string list"

record deleteImageRequest =
  dir_id :: string
  dir_force :: bool

record pruneImagesRequest =
  pir_danglingOnly :: bool

record prunedImage =
  pi_deleted :: string
  pi_untagged :: string

record pruneImagesResponse =
  pim_imagesDeleted :: "prunedImage list"
  pim_spaceReclaimed :: nat

record getBuildCacheStatsResponse =
  bcs_totalBytes :: nat
  bcs_reclaimableBytes :: nat
  bcs_recordCount :: nat
  bcs_activeCount :: nat

record pruneBuildCacheRequest =
  pbq_all :: bool

record pruneBuildCacheResponse =
  pbc_cachesDeleted :: nat
  pbc_spaceReclaimed :: nat

record buildCacheRecord =
  bcr_id :: string
  bcr_type :: string
  bcr_description :: string
  bcr_sizeBytes :: nat
  bcr_inUse :: bool
  bcr_shared :: bool
  bcr_usageCount :: nat
  bcr_createdAt :: "timestamp option"
  bcr_lastUsedAt :: "timestamp option"

record pruneBuildCacheRecordRequest =
  prq_id :: string

record pruneBuildCacheRecordResponse =
  pbr_cachesDeleted :: nat
  pbr_spaceReclaimed :: nat

record checkEngineResponse =
  ce_connected :: bool
  ce_apiVersion :: string
  ce_error :: string

record getTailscaleStatusResponse =
  gts_enabled :: bool
  gts_state :: string
  gts_backendState :: string
  gts_hostname :: string
  gts_dnsName :: string
  gts_ips :: "string list"
  gts_port :: int
  gts_httpsEnabled :: bool
  gts_certDomains :: "string list"
  gts_keyExpiry :: "timestamp option"
  gts_error :: string

record volumeUsageRow =
  vu_name :: string
  vu_sizeBytes :: int
  vu_refCount :: int

record getVolumeUsageResponse =
  gvu_volumes :: "volumeUsageRow list"
  gvu_totalSizeBytes :: int
  gvu_reclaimableBytes :: int
  gvu_unusedCount :: nat

record pruneVolumesResponse =
  pv_volumesDeleted :: nat
  pv_names :: "string list"
  pv_spaceReclaimed :: nat

record auditLogEntry =
  ale_id :: nat
  ale_createdAt :: "timestamp option"
  ale_actor :: string
  ale_actorRole :: string
  ale_source :: int
  ale_action :: string
  ale_resourceType :: string
  ale_resourceId :: string
  ale_outcome :: int
  ale_detail :: string

record listAuditLogsRequest =
  lar_query :: string
  lar_source :: int
  lar_outcome :: int
  lar_limit :: nat
  lar_offset :: nat

record listAuditLogsResponse =
  las_entries :: "auditLogEntry list"
  las_total :: nat

section \<open>auth\<close>

record getServerStatusResponse =
  ss_needsSetup :: bool
  ss_passkeyLoginEnabled :: bool
  ss_rpId :: string
  ss_origins :: "string list"
  ss_version :: string
  ss_commit :: string
  ss_buildDate :: string

record setupAdminRequest =
  sar_username :: string
  sar_password :: string

record loginRequest =
  lq_username :: string
  lq_password :: string
  lq_rememberMe :: bool

record loginResponse =
  lr_username :: string
  lr_role :: string

record getMeResponse =
  me_userId :: int
  me_username :: string
  me_role :: string

record authEvent =
  ev_id :: int
  ev_userId :: "int option"
  ev_username :: string
  ev_eventType :: string
  ev_detail :: string
  ev_createdAt :: "timestamp option"

record listAuthEventsRequest =
  laq_limit :: int
  laq_offset :: int
  laq_eventType :: string

record session =
  se_sessionId :: string
  se_userAgent :: string
  se_deviceLabel :: string
  se_createdAt :: "timestamp option"
  se_lastSeenAt :: "timestamp option"
  se_expiresAt :: "timestamp option"
  se_absoluteExpiresAt :: "timestamp option"
  se_isCurrent :: bool

record revokeSessionRequest =
  rsq_sessionId :: string

record beginPasskeyRegistrationRequest =
  bpr_name :: string

record finishPasskeyRegistrationRequest =
  fpr_name :: string
  fpr_responseJson :: string

record finishPasskeyLoginRequest =
  fpl_responseJson :: string
  fpl_rememberMe :: bool

record passkey =
  pk_id :: string
  pk_name :: string
  pk_aaguid :: string
  pk_friendlyDeviceName :: string
  pk_backupEligible :: bool
  pk_backupState :: bool
  pk_signCount :: int
  pk_cloneWarning :: bool
  pk_createdAt :: "timestamp option"
  pk_lastUsedAt :: "timestamp option"

record renamePasskeyRequest =
  rpq_id :: string
  rpq_name :: string

record deletePasskeyRequest =
  dpq_id :: string

section \<open>container\<close>

record wireContainer =
  wc_id :: string
  wc_name :: string
  wc_image :: string
  wc_imageId :: string
  wc_state :: string
  wc_autoUpdate :: bool
  wc_updateAvailable :: bool
  wc_latestImageDigest :: string
  wc_lastCheckedAt :: string
  wc_lastUpdatedAt :: string

record startContainerRequest =
  stc_id :: string

record startContainerResponse =
  str_id :: string
  str_previousState :: string
  str_currentState :: string

record stopContainerRequest =
  spc_id :: string

record stopContainerResponse =
  spr_id :: string
  spr_previousState :: string
  spr_currentState :: string

record setContainerAutoUpdateRequest =
  sau_id :: string
  sau_autoUpdate :: bool

record checkContainerUpdatesRequest =
  ccu_id :: string

record checkContainerUpdatesResponse =
  cu_id :: string
  cu_updateAvailable :: bool
  cu_latestImageDigest :: string

record getContainerLogsRequest =
  gl_id :: string
  gl_tailLines :: int
  gl_follow :: bool

record getContainerLogsResponse =
  gl_logLine :: string
  gl_timestamp :: string
  gl_streamType :: string

record streamContainersResponse =
  sc_action :: string
  sc_container :: "wireContainer option"
  sc_containerId :: string

record upgradeContainerRequest =
  ugc_id :: string

section \<open>log\<close>

record clientLogEntry =
  cle_level :: string
  cle_message :: string
  cle_timestamp :: string
  cle_component :: string
  cle_metadata :: string

record syncLogsRequest =
  slq_entries :: "clientLogEntry list"

record syncLogsResponse =
  sl_processedCount :: int

record logEntry =
  le_level :: string
  le_message :: string
  le_timestamp :: string
  le_component :: string
  le_metadata :: string

record getSystemLogsRequest =
  gsl_limit :: int
  gsl_levelFilter :: string
  gsl_searchQuery :: string

section \<open>settings\<close>

record getSettingsResponse =
  gs_gotifyUrl :: string
  gs_gotifyToken :: string
  gs_auditRetentionDays :: int

record updateSettingsRequest =
  us_gotifyUrl :: string
  us_gotifyToken :: string
  us_auditRetentionDays :: int

record testGotifyNotificationRequest =
  tgr_gotifyUrl :: string
  tgr_gotifyToken :: string

record testGotifyNotificationResponse =
  tg_success :: bool
  tg_errorMessage :: string

record registryStatus =
  rs_host :: string
  rs_username :: string
  rs_isConfigured :: bool
  rs_isHealthy :: bool
  rs_errorMessage :: string

end
