(* ===== verification/Admin_Format.thy ===== *)
theory Admin_Format
  imports Wire_Messages
begin

text \<open>
  The formatting helpers of \<open>components/adminFormat.ts\<close>: byte counts, dates, short ids,
  repository tags and the summary figures of the Images tab.

  \<open>formatBytes\<close> computes in IEEE doubles. A double is a rational here, and every operation
  whose exact result may not be representable is followed by \<open>rnd53\<close>, rounding to nearest
  with ties to even on a 53-bit significand; the loop only ever rounds values of magnitude
  at least 1 (and 0), the range on which \<open>rnd53\<close> is the double rounding. \<open>toFixed\<close> and
  \<open>Math.round\<close> are exact on the double's value.
\<close>

section \<open>Doubles\<close>

fun ilog2 :: "nat \<Rightarrow> nat" where
  "ilog2 n = (if n < 2 then 0 else Suc (ilog2 (n div 2)))"

declare ilog2.simps [simp del]

definition round_even :: "rat \<Rightarrow> int" where
  "round_even y =
     (let f = \<lfloor>y\<rfloor>; d = y - of_int f
      in if d < 1/2 then f else if d > 1/2 then f + 1 else if even f then f else f + 1)"

definition rnd_pos :: "rat \<Rightarrow> rat" where
  "rnd_pos x = (let k = ilog2 (nat \<lfloor>x\<rfloor>) in of_int (round_even (x * 2 ^ 52 / 2 ^ k)) * 2 ^ k / 2 ^ 52)"

definition rnd53 :: "rat \<Rightarrow> rat" where
  "rnd53 x = (if x = 0 then 0 else if x < 0 then - rnd_pos (- x) else rnd_pos x)"

text \<open>\<open>Number(b)\<close> for a \<open>bigint\<close>.\<close>

definition js_Number :: "int \<Rightarrow> rat" where
  "js_Number b = rnd53 (of_int b)"

text \<open>\<open>v.toFixed(1)\<close>: the nearest tenth, the larger one on a tie, of the magnitude.\<close>

definition toFixed1 :: "rat \<Rightarrow> string" where
  "toFixed1 v =
     (let n = nat \<lfloor>10 * \<bar>v\<bar> + 1/2\<rfloor>
      in (if v < 0 then ''-'' else []) @ string_of_nat (n div 10) @ ''.'' @ string_of_nat (n mod 10))"

text \<open>\<open>String(Number(v.toFixed(1)))\<close>: a trailing \<open>.0\<close> is not printed.\<close>

definition number_of_toFixed1 :: "rat \<Rightarrow> string" where
  "number_of_toFixed1 v =
     (let n = nat \<lfloor>10 * \<bar>v\<bar> + 1/2\<rfloor>
      in (if v < 0 \<and> n \<noteq> 0 then ''-'' else []) @ string_of_nat (n div 10) @
         (if n mod 10 = 0 then [] else ''.'' @ string_of_nat (n mod 10)))"

definition js_round :: "rat \<Rightarrow> int" where
  "js_round v = \<lfloor>v + 1/2\<rfloor>"

section \<open>Byte counts\<close>

definition units :: "string list" where
  "units = [''B'', ''KB'', ''MB'', ''GB'', ''TB'']"

text \<open>The \<open>while\<close> loop: divide by 1000 while there is a larger unit left.\<close>

function scale :: "rat \<Rightarrow> nat \<Rightarrow> rat \<times> nat" where
  "scale value unit =
     (if value \<ge> 1000 \<and> unit < length units - 1 then scale (rnd53 (value / 1000)) (unit + 1)
      else (value, unit))"
  by pat_completeness auto
termination
  by (relation "measure (\<lambda>(value, unit). length units - 1 - unit)") auto

declare scale.simps [simp del]

definition formatBytes :: "int \<Rightarrow> bool \<Rightarrow> string" where
  "formatBytes bytes oneDecimal =
     (let (value, unit) = scale (js_Number bytes) 0
      in if oneDecimal \<and> value \<noteq> 0 then toFixed1 value @ '' '' @ units ! unit
         else (if unit = 0 \<or> value \<ge> 10 then string_of_int (js_round value)
               else number_of_toFixed1 value) @ '' '' @ units ! unit)"

section \<open>Dates\<close>

text \<open>
  \<open>toLocaleDateString\<close> depends on the browser's locale: it is the argument \<open>loc\<close>, from
  milliseconds since the epoch to the printed date. Every int64 number of seconds is finite.
\<close>

definition formatTimestamp :: "(int \<Rightarrow> string) \<Rightarrow> timestamp option \<Rightarrow> string" where
  "formatTimestamp loc ts =
     (case ts of
        None \<Rightarrow> em_dash
      | Some t \<Rightarrow> (let ms = ts_seconds t * 1000 in if ms \<le> 0 then em_dash else loc ms))"

definition plural :: "nat \<Rightarrow> string \<Rightarrow> string" where
  "plural count unit =
     string_of_nat count @ '' '' @ unit @ (if count = 1 then [] else ''s'') @ '' ago''"

text \<open>\<open>now\<close> is \<open>Date.now()\<close>, in milliseconds.\<close>

definition formatRelativeUnix :: "int \<Rightarrow> int \<Rightarrow> string" where
  "formatRelativeUnix now seconds =
     (let ms = seconds * 1000; diff = now - ms;
          minutes = nat (diff div 60000); hours = minutes div 60; days = hours div 24;
          months = days div 30
      in if ms \<le> 0 then em_dash
         else if diff < 0 then em_dash
         else if minutes < 1 then ''just now''
         else if minutes < 60 then plural minutes ''minute''
         else if hours < 24 then plural hours ''hour''
         else if days < 30 then plural days ''day''
         else if months < 12 then plural months ''month''
         else plural (months div 12) ''year'')"

section \<open>Identifiers\<close>

definition formatShortId :: "string \<Rightarrow> string" where
  "formatShortId i =
     (let bare = (if startsWith i ''sha256:'' then drop (length ''sha256:'') i else i)
      in take 12 bare)"

definition splitRepoTag :: "string option \<Rightarrow> string \<times> string" where
  "splitRepoTag repoTag =
     (case repoTag of
        None \<Rightarrow> (''<none>'', ''<none>'')
      | Some rt \<Rightarrow>
          if rt = [] then (''<none>'', ''<none>'')
          else (case lastIndexOf rt (CHR '':'') of
                  Some lastColon \<Rightarrow>
                    if lastColon > 0 \<and> \<not> str_includes (drop (lastColon + 1) rt) ''/''
                    then (take lastColon rt, drop (lastColon + 1) rt)
                    else (rt, ''<none>'')
                | None \<Rightarrow> (rt, ''<none>'')))"

definition isDefaultNetwork :: "string \<Rightarrow> bool" where
  "isDefaultNetwork name \<longleftrightarrow> name = ''bridge'' \<or> name = ''host'' \<or> name = ''none''"

section \<open>Summary figures of the Images tab\<close>

record imageStats =
  st_totalBytes :: int
  st_freeableBytes :: int
  st_imageCount :: nat
  st_unusedCount :: nat
  st_danglingCount :: nat
  st_danglingFreeableBytes :: int

definition imageStats_step :: "image \<Rightarrow> imageStats \<Rightarrow> imageStats" where
  "imageStats_step im a =
     (let a = a\<lparr>st_totalBytes := st_totalBytes a + img_sizeBytes im\<rparr>;
          a = (if img_containersCount im = 0
               then a\<lparr>st_freeableBytes := st_freeableBytes a + img_sizeBytes im,
                      st_unusedCount := st_unusedCount a + 1\<rparr>
               else a)
      in if length (img_repoTags im) = 0 \<and> img_containersCount im = 0
         then a\<lparr>st_danglingCount := st_danglingCount a + 1,
                st_danglingFreeableBytes := st_danglingFreeableBytes a + img_sizeBytes im\<rparr>
         else a)"

definition deriveImageStats :: "image list \<Rightarrow> imageStats" where
  "deriveImageStats images =
     fold imageStats_step images
       \<lparr>st_totalBytes = 0, st_freeableBytes = 0, st_imageCount = length images,
        st_unusedCount = 0, st_danglingCount = 0, st_danglingFreeableBytes = 0\<rparr>"

section \<open>Rounding\<close>

lemma ilog2_bounds: "0 < n \<Longrightarrow> 2 ^ ilog2 n \<le> n \<and> n < 2 ^ Suc (ilog2 n)"
proof (induction n rule: ilog2.induct)
  case (1 n)
  show ?case
  proof (cases "n < 2")
    case True with 1 show ?thesis by (simp add: ilog2.simps [of n])
  next
    case False
    define q :: nat where "q = 2 ^ ilog2 (n div 2)"
    from False 1 have "q \<le> n div 2" "n div 2 < 2 * q" by (simp_all add: q_def)
    then have "2 * q \<le> n \<and> n < 4 * q" by arith
    then have "2 * 2 ^ ilog2 (n div 2) \<le> n \<and> n < 4 * 2 ^ ilog2 (n div 2)" by (simp add: q_def)
    with False show ?thesis by (simp add: ilog2.simps [of n])
  qed
qed

lemma round_even_error: "\<bar>of_int (round_even y) - y\<bar> \<le> 1/2"
proof -
  define r :: rat where "r = of_int \<lfloor>y\<rfloor>"
  have b: "r \<le> y" "y < r + 1" by (simp_all add: r_def) linarith
  have "of_int (round_even y) = (if y - r < 1/2 then r else if y - r > 1/2 then r + 1
          else if even \<lfloor>y\<rfloor> then r else r + 1)"
    by (simp add: round_even_def Let_def r_def)
  then show ?thesis using b by (auto simp: abs_le_iff split: if_splits)
qed

lemma round_even_ge: "of_int n \<le> y \<Longrightarrow> n \<le> round_even y"
proof -
  assume "of_int n \<le> y"
  then have "n \<le> \<lfloor>y\<rfloor>" by (simp add: le_floor_iff)
  then show ?thesis by (auto simp: round_even_def Let_def)
qed

lemma round_even_le: "y \<le> of_int n \<Longrightarrow> round_even y \<le> n"
proof -
  assume y: "y \<le> of_int n"
  then have f: "\<lfloor>y\<rfloor> \<le> n" by linarith
  show ?thesis
  proof (cases "\<lfloor>y\<rfloor> = n")
    case True
    with y have "y = of_int n" by linarith
    then show ?thesis by (simp add: round_even_def)
  next
    case False with f show ?thesis by (auto simp: round_even_def Let_def)
  qed
qed

lemma pow2_floor_le: "1 \<le> (x::rat) \<Longrightarrow> 2 ^ ilog2 (nat \<lfloor>x\<rfloor>) \<le> x"
proof -
  assume x: "1 \<le> x"
  then have "0 < nat \<lfloor>x\<rfloor>" by simp
  then have "2 ^ ilog2 (nat \<lfloor>x\<rfloor>) \<le> nat \<lfloor>x\<rfloor>" using ilog2_bounds by blast
  then have "(of_nat (2 ^ ilog2 (nat \<lfloor>x\<rfloor>)) :: rat) \<le> of_nat (nat \<lfloor>x\<rfloor>)" by (simp only: of_nat_le_iff)
  also have "\<dots> \<le> x" using x by (simp add: of_nat_nat)
  finally show ?thesis by simp
qed

lemma rnd_pos_error: "1 \<le> x \<Longrightarrow> \<bar>rnd_pos x - x\<bar> \<le> x / 2 ^ 53"
proof -
  assume x: "1 \<le> x"
  define k where "k = ilog2 (nat \<lfloor>x\<rfloor>)"
  define y where "y = x * 2 ^ 52 / 2 ^ k"
  have xy: "x = y * 2 ^ k / 2 ^ 52" by (simp add: y_def)
  have "rnd_pos x - x = of_int (round_even y) * (2 ^ k / 2 ^ 52) - y * (2 ^ k / 2 ^ 52)"
    by (simp add: rnd_pos_def Let_def k_def [symmetric] y_def [symmetric]) (simp add: y_def)
  also have "\<dots> = (of_int (round_even y) - y) * (2 ^ k / 2 ^ 52)"
    by (simp only: left_diff_distrib)
  finally have "\<bar>rnd_pos x - x\<bar> = \<bar>of_int (round_even y) - y\<bar> * \<bar>2 ^ k / 2 ^ 52\<bar>"
    by (simp only: abs_mult)
  then have "\<bar>rnd_pos x - x\<bar> = \<bar>of_int (round_even y) - y\<bar> * (2 ^ k / 2 ^ 52)"
    by simp
  also have "\<dots> \<le> 1/2 * (2 ^ k / 2 ^ 52)"
    by (rule mult_right_mono [OF round_even_error]) simp
  also have "\<dots> = 2 ^ k / 2 ^ 53" by simp
  also have "\<dots> \<le> x / 2 ^ 53"
    using pow2_floor_le [OF x] by (simp add: k_def divide_right_mono)
  finally show ?thesis .
qed

lemma rnd53_pos: "1 \<le> x \<Longrightarrow> rnd53 x = rnd_pos x"
  by (simp add: rnd53_def)

lemma rnd53_ge_1: "1 \<le> x \<Longrightarrow> 1 \<le> rnd53 x"
proof -
  assume x: "1 \<le> x"
  define k where "k = ilog2 (nat \<lfloor>x\<rfloor>)"
  have "2 ^ k \<le> x" using pow2_floor_le [OF x] by (simp add: k_def)
  then have "2 ^ 52 \<le> x * 2 ^ 52 / 2 ^ k" by (simp add: field_simps)
  then have "of_int (2 ^ 52) \<le> x * 2 ^ 52 / 2 ^ k" by simp
  then have "(2 ^ 52 :: int) \<le> round_even (x * 2 ^ 52 / 2 ^ k)" by (rule round_even_ge)
  then have "(of_int (2 ^ 52) :: rat) \<le> of_int (round_even (x * 2 ^ 52 / 2 ^ k))"
    by (simp only: of_int_le_iff)
  then have "(2 ^ 52 :: rat) \<le> of_int (round_even (x * 2 ^ 52 / 2 ^ k))" by simp
  then have "(2 ^ 52 :: rat) * 2 ^ k \<le> of_int (round_even (x * 2 ^ 52 / 2 ^ k)) * 2 ^ k"
    by (rule mult_right_mono) simp
  then have "2 ^ k \<le> rnd_pos x"
    by (simp add: rnd_pos_def Let_def k_def [symmetric] field_simps)
  moreover have "(1::rat) \<le> 2 ^ k" by simp
  ultimately have "1 \<le> rnd_pos x" by (rule order_trans [rotated])
  then show ?thesis using x by (simp add: rnd53_pos)
qed

text \<open>A double that holds an integer below \<open>2 ^ 53\<close> holds it exactly.\<close>

lemma round_even_of_int: "round_even (of_int n) = n"
  by (simp add: round_even_def)

lemma js_Number_exact:
  assumes "0 \<le> b" "b < 2 ^ 53"
  shows "js_Number b = of_int b"
proof (cases "b = 0")
  case True then show ?thesis by (simp add: js_Number_def rnd53_def)
next
  case False
  define k where "k = ilog2 (nat b)"
  from False assms have b: "0 < nat b" by simp
  then have "2 ^ k \<le> nat b" using ilog2_bounds k_def by blast
  also have "nat b < 2 ^ 53" using assms by (simp add: nat_less_iff)
  finally have "(2::nat) ^ k < 2 ^ 53" .
  then have k: "k \<le> 52"
    using power_strict_increasing_iff [of "2::nat" k 53] by simp
  then have e: "(2::rat) ^ 52 = 2 ^ (52 - k) * 2 ^ k" by (simp add: power_add [symmetric])
  have "(of_int b * 2 ^ 52 / 2 ^ k :: rat) = of_int b * (2 ^ (52 - k) * 2 ^ k) / 2 ^ k"
    by (simp only: e)
  then have "(of_int b * 2 ^ 52 / 2 ^ k :: rat) = of_int (b * 2 ^ (52 - k))" by simp
  then have "round_even (of_int b * 2 ^ 52 / 2 ^ k) = b * 2 ^ (52 - k)"
    by (simp only: round_even_of_int)
  then have "rnd_pos (of_int b) = of_int (b * 2 ^ (52 - k)) * 2 ^ k / 2 ^ 52"
    by (simp add: rnd_pos_def Let_def k_def [symmetric])
  also have "\<dots> = of_int b * (2 ^ (52 - k) * 2 ^ k) / 2 ^ 52" by simp
  also have "\<dots> = of_int b" by (simp only: e [symmetric]) simp
  finally show ?thesis using False assms by (simp add: js_Number_def rnd53_def)
qed

section \<open>The scaling loop\<close>

lemma scale_cases:
  obtains (rec) "1000 \<le> v" "u < 4" "scale v u = scale (rnd53 (v / 1000)) (u + 1)"
  | (stop) "v < 1000 \<or> 4 \<le> u" "scale v u = (v, u)"
proof (cases "1000 \<le> v \<and> u < 4")
  case True
  then show ?thesis by (intro rec) (simp_all add: scale.simps [of v] units_def)
next
  case False
  then show ?thesis by (intro stop) (auto simp: scale.simps [of v] units_def)
qed

lemma scale_small: "v < 1000 \<Longrightarrow> scale v u = (v, u)"
  by (simp add: scale.simps)

text \<open>
  The unit stays within the table, the value below 1000 unless the table is exhausted, and a
  value of at least 1 stays so.
\<close>

lemma scale_result:
  "u \<le> 4 \<Longrightarrow> scale v u = (w, m) \<Longrightarrow> u \<le> m \<and> m \<le> 4 \<and> (w < 1000 \<or> m = 4) \<and> (1 \<le> v \<longrightarrow> 1 \<le> w)"
proof (induction "4 - u" arbitrary: u v)
  case 0
  then show ?case by (cases v u rule: scale_cases) auto
next
  case (Suc n)
  show ?case
  proof (cases v u rule: scale_cases)
    case rec
    then have "1 \<le> rnd53 (v / 1000)" by (intro rnd53_ge_1) simp
    moreover have "n = 4 - (u + 1)" using Suc.hyps(2) by simp
    ultimately have "u + 1 \<le> m \<and> m \<le> 4 \<and> (w < 1000 \<or> m = 4) \<and> 1 \<le> w"
      using rec Suc.hyps(1) [of "u + 1" "rnd53 (v / 1000)"] Suc.prems by simp
    then show ?thesis by simp
  next
    case stop with Suc.prems Suc.hyps(2) show ?thesis by auto
  qed
qed

definition eps :: rat where
  "eps = 1 / 2 ^ 53"

lemma eps_pos [simp]: "0 < eps" "0 \<le> eps"
  by (simp_all add: eps_def)

text \<open>One division followed by one rounding.\<close>

lemma rnd53_step:
  assumes "1000 \<le> v"
  shows "\<bar>1000 * rnd53 (v / 1000) - v\<bar> \<le> eps * v"
proof -
  have "\<bar>rnd53 (v / 1000) - v / 1000\<bar> \<le> v / 1000 / 2 ^ 53"
    using assms rnd_pos_error [of "v / 1000"] by (simp add: rnd53_pos)
  then have "1000 * \<bar>rnd53 (v / 1000) - v / 1000\<bar> \<le> eps * v" by (simp add: eps_def)
  moreover have "1000 * \<bar>rnd53 (v / 1000) - v / 1000\<bar> = \<bar>1000 * rnd53 (v / 1000) - v\<bar>"
    by (simp add: abs_if)
  ultimately show ?thesis by simp
qed

text \<open>Errors compound: an error of factor \<open>e\<close> on top of one of factor \<open>d\<close>.\<close>

lemma compound_error:
  fixes v v1 w d e :: rat
  assumes "\<bar>c * v1 - v\<bar> \<le> e * v" and "\<bar>w - v1\<bar> \<le> d * v1" and "0 \<le> d" and "0 < c"
  shows "\<bar>c * w - v\<bar> \<le> ((1 + e) * (1 + d) - 1) * v"
proof -
  have "\<bar>c * w - v\<bar> \<le> \<bar>c * (w - v1)\<bar> + \<bar>c * v1 - v\<bar>"
    using abs_triangle_ineq [of "c * (w - v1)" "c * v1 - v"] by (simp add: right_diff_distrib)
  also have "\<dots> \<le> c * (d * v1) + e * v"
    using assms by (simp add: abs_mult) (intro add_mono mult_left_mono; simp)
  also have "c * (d * v1) = d * (c * v1)" by simp
  also have "d * (c * v1) + e * v \<le> d * ((1 + e) * v) + e * v"
  proof -
    have "c * v1 \<le> (1 + e) * v" using assms(1) by (simp add: abs_le_iff algebra_simps)
    then show ?thesis using assms(3) by (intro add_right_mono mult_left_mono)
  qed
  finally show ?thesis by (simp add: algebra_simps)
qed

lemma scale_error:
  "1 \<le> v \<Longrightarrow> u \<le> 4 \<Longrightarrow> scale v u = (w, m) \<Longrightarrow>
     \<bar>1000 ^ (m - u) * w - v\<bar> \<le> ((1 + eps) ^ (m - u) - 1) * v"
proof (induction "4 - u" arbitrary: u v)
  case 0
  then show ?case by (cases v u rule: scale_cases) auto
next
  case (Suc k)
  show ?case
  proof (cases v u rule: scale_cases)
    case stop with Suc.prems show ?thesis by simp
  next
    case rec
    define v1 where "v1 = rnd53 (v / 1000)"
    define n where "n = m - (u + 1)"
    have v1: "1 \<le> v1" unfolding v1_def by (intro rnd53_ge_1) (use rec in simp)
    have sc: "scale v1 (u + 1) = (w, m)" using rec Suc.prems by (simp add: v1_def)
    have "u + 1 \<le> m" using scale_result [OF _ sc] rec(2) by simp
    then have mu: "m - u = Suc n" by (simp add: n_def)
    have IH: "\<bar>1000 ^ n * w - v1\<bar> \<le> ((1 + eps) ^ n - 1) * v1"
      using Suc.hyps(1) [of "u + 1" v1] Suc.hyps(2) v1 rec(2) sc unfolding n_def by linarith
    have st: "\<bar>1000 * v1 - v\<bar> \<le> eps * v" unfolding v1_def by (rule rnd53_step) (use rec in simp)
    have "\<bar>1000 * (1000 ^ n * w) - v\<bar> \<le> ((1 + eps) * (1 + ((1 + eps) ^ n - 1)) - 1) * v"
      by (rule compound_error [OF st IH]) (auto intro: one_le_power)
    then show ?thesis by (simp add: mu mult.assoc)
  qed
qed

lemma js_Number_error: "1 \<le> b \<Longrightarrow> \<bar>js_Number b - of_int b\<bar> \<le> eps * of_int b"
  using rnd_pos_error [of "of_int b"] by (simp add: js_Number_def rnd53_pos eps_def)

lemma js_Number_ge_1: "1 \<le> b \<Longrightarrow> 1 \<le> js_Number b"
  by (simp add: js_Number_def rnd53_ge_1)

lemma eps_pow: "n \<le> 5 \<Longrightarrow> (1 + eps) ^ n - 1 \<le> 6 * eps"
proof -
  assume "n \<le> 5"
  then have "(1 + eps) ^ n \<le> (1 + eps) ^ 5" by (intro power_increasing) auto
  moreover have "(1 + eps) ^ 5 \<le> 1 + 6 * eps"
    unfolding eps_def by (simp add: power_numeral_reduce)
  ultimately show ?thesis by linarith
qed

lemma formatBytes_eq:
  "scale (js_Number b) 0 = (v, u) \<Longrightarrow>
   formatBytes b od =
     (if od \<and> v \<noteq> 0 then toFixed1 v @ '' '' @ units ! u
      else (if u = 0 \<or> v \<ge> 10 then string_of_int (js_round v) else number_of_toFixed1 v) @ '' '' @ units ! u)"
  by (simp add: formatBytes_def)

text \<open>
  The rounding of the printed number is not carried into the unit: a size just below a
  megabyte is printed as a thousand kilobytes.
\<close>

lemma formatBytes_not_carried: "formatBytes 999600 False = ''1000 KB''"
proof -
  define v where "v = rnd53 (999600 / 1000)"
  have "\<bar>1000 * v - 999600\<bar> \<le> eps * 999600" unfolding v_def by (rule rnd53_step) simp
  also have "\<dots> \<le> 1" by (simp add: eps_def)
  finally have "999.5 \<le> v" "v < 1000" by linarith+
  moreover from this have "js_round v = 1000" by (simp add: js_round_def floor_eq_iff)
  moreover have "scale (js_Number 999600) 0 = scale v 1"
    by (simp add: js_Number_exact scale.simps [of 999600] units_def v_def)
  ultimately have "formatBytes 999600 False = string_of_int 1000 @ '' KB''"
    by (simp add: formatBytes_def scale_small units_def)
  then show ?thesis by (simp add: string_of_int_def string_of_nat.simps)
qed

text \<open>Sizes below a kilobyte are printed exactly.\<close>

lemma formatBytes_small:
  assumes "0 \<le> b" and "b < 1000"
  shows "formatBytes b False = string_of_nat (nat b) @ '' B''"
proof -
  have "scale (js_Number b) 0 = (of_int b, 0)"
    using assms by (simp add: js_Number_exact scale_small)
  moreover have "js_round (of_int b) = b" by (simp add: js_round_def floor_eq_iff)
  ultimately show ?thesis
    using assms by (simp add: formatBytes_eq string_of_int_def units_def)
qed

section \<open>Image statistics\<close>

lemma imageStats_fold:
  "fold imageStats_step xs a =
     a\<lparr>st_totalBytes := st_totalBytes a + sum_list (map img_sizeBytes xs),
       st_freeableBytes := st_freeableBytes a
         + sum_list (map img_sizeBytes (filter (\<lambda>i. img_containersCount i = 0) xs)),
       st_unusedCount := st_unusedCount a + length (filter (\<lambda>i. img_containersCount i = 0) xs),
       st_danglingCount := st_danglingCount a
         + length (filter (\<lambda>i. img_repoTags i = [] \<and> img_containersCount i = 0) xs),
       st_danglingFreeableBytes := st_danglingFreeableBytes a
         + sum_list (map img_sizeBytes (filter (\<lambda>i. img_repoTags i = [] \<and> img_containersCount i = 0) xs))\<rparr>"
  by (induction xs arbitrary: a) (auto simp: imageStats_step_def Let_def)

section \<open>Properties\<close>

text \<open>
  C2: For every byte count from 1 to the int64 maximum, the loop of \<open>formatBytes\<close> ends at a
  unit from B to TB, with a value below 1000 unless the unit is TB, never below 1, and within
  a relative error of \<open>6 / 2 ^ 53\<close> of the true size: the accumulated rounding of the \<open>bigint\<close>
  conversion and of at most four divisions in double precision never changes the magnitude
  that is printed.
\<close>

theorem formatBytes_accurate:
  assumes "1 \<le> bytes" and "scale (js_Number bytes) 0 = (v, u)"
  shows "u < length units \<and> (v < 1000 \<or> u = length units - 1) \<and> 1 \<le> v
    \<and> \<bar>1000 ^ u * v - of_int bytes\<bar> \<le> 6 / 2 ^ 53 * of_int bytes"
proof -
  have b: "1 \<le> js_Number bytes" using assms(1) by (rule js_Number_ge_1)
  have r: "u \<le> 4" "v < 1000 \<or> u = 4" "1 \<le> v" using scale_result [OF _ assms(2)] b by simp_all
  have e0: "\<bar>1 * js_Number bytes - of_int bytes\<bar> \<le> eps * of_int bytes"
    using js_Number_error [OF assms(1)] by simp
  have e1: "\<bar>1000 ^ u * v - js_Number bytes\<bar> \<le> ((1 + eps) ^ u - 1) * js_Number bytes"
    using scale_error [OF b _ assms(2)] by simp
  have "\<bar>1 * (1000 ^ u * v) - of_int bytes\<bar>
      \<le> ((1 + eps) * (1 + ((1 + eps) ^ u - 1)) - 1) * of_int bytes"
    by (rule compound_error [OF e0 e1]) (auto intro: one_le_power)
  also have "\<dots> = ((1 + eps) ^ Suc u - 1) * of_int bytes" by simp
  also have "\<dots> \<le> (6 * eps) * of_int bytes"
    using assms(1) r by (intro mult_right_mono eps_pow) auto
  finally have e: "\<bar>1000 ^ u * v - of_int bytes\<bar> \<le> 6 / 2 ^ 53 * of_int bytes"
    by (simp add: eps_def)
  have "length units = 5" by (simp add: units_def)
  with r e show ?thesis by auto
qed

theorem formatBytes_accurate_witness:
  "(0::nat) < length units \<and> ((142::rat) < 1000 \<or> (0::nat) = length units - 1) \<and> (1::rat) \<le> 142
    \<and> \<bar>1000 ^ 0 * (142::rat) - of_int 142\<bar> \<le> 6 / 2 ^ 53 * of_int 142"
  by (rule formatBytes_accurate [where bytes = 142 and v = 142 and u = 0])
    (simp_all add: js_Number_exact scale_small)

text \<open>
  The figures of the Images tab are what the page says they are: the total is the sum over
  all images, "freeable" and "unused" range over exactly the images with a calculated usage
  count of zero, "dangling" over exactly the untagged ones among those. An image whose usage
  the daemon did not calculate (-1) counts in none of them.
\<close>

lemma deriveImageStats_spec:
  "deriveImageStats images =
     (let unused = filter (\<lambda>i. img_containersCount i = 0) images;
          dangling = filter (\<lambda>i. img_repoTags i = []) unused
      in \<lparr>st_totalBytes = sum_list (map img_sizeBytes images),
          st_freeableBytes = sum_list (map img_sizeBytes unused),
          st_imageCount = length images,
          st_unusedCount = length unused,
          st_danglingCount = length dangling,
          st_danglingFreeableBytes = sum_list (map img_sizeBytes dangling)\<rparr>)"
  by (simp add: deriveImageStats_def imageStats_fold Let_def conj_commute)

text \<open>
  A tag is split off at the last colon exactly when what follows it is no path: a
  reference printed as \<open>repository:tag\<close> is split into its two parts, and a registry host
  with a port but no tag keeps its port.
\<close>

lemma splitRepoTag_roundtrip:
  assumes "repo \<noteq> []" and "CHR '':'' \<notin> set rest"
  shows "splitRepoTag (Some (repo @ '':'' @ rest)) =
    (if CHR ''/'' \<in> set rest then (repo @ '':'' @ rest, ''<none>'') else (repo, rest))"
proof -
  have "lastIndexOf (repo @ '':'' @ rest) (CHR '':'') = Some (length repo)"
    using lastIndexOf_unique [OF assms(2), of repo] by simp
  moreover have "str_includes rest ''/'' \<longleftrightarrow> CHR ''/'' \<in> set rest"
    by (induction rest) auto
  ultimately show ?thesis using assms(1) by (simp add: splitRepoTag_def)
qed

text \<open>
  A relative time is never printed with a count of zero and never with a count that the
  next larger unit would take over: minutes stay below 60, hours below 24, days below 30,
  months below 12.
\<close>

lemma formatRelativeUnix_units:
  assumes "0 < seconds" and "seconds * 1000 \<le> now"
  shows "formatRelativeUnix now seconds = ''just now'' \<or>
    (\<exists>n unit limit. (unit, limit) \<in> {(''minute'', 60), (''hour'', 24), (''day'', 30), (''month'', 12)}
        \<and> 0 < n \<and> n < limit \<and> formatRelativeUnix now seconds = plural n unit) \<or>
    (\<exists>n. 0 < n \<and> formatRelativeUnix now seconds = plural n ''year'')"
proof -
  define minutes where "minutes = nat ((now - seconds * 1000) div 60000)"
  define hours where "hours = minutes div 60"
  define days where "days = hours div 24"
  define months where "months = days div 30"
  have eq: "formatRelativeUnix now seconds =
      (if minutes < 1 then ''just now''
       else if minutes < 60 then plural minutes ''minute''
       else if hours < 24 then plural hours ''hour''
       else if days < 30 then plural days ''day''
       else if months < 12 then plural months ''month''
       else plural (months div 12) ''year'')"
    using assms by (simp add: formatRelativeUnix_def Let_def minutes_def hours_def days_def months_def)
  have pos: "60 \<le> minutes \<Longrightarrow> 0 < hours" "24 \<le> hours \<Longrightarrow> 0 < days" "30 \<le> days \<Longrightarrow> 0 < months"
      "12 \<le> months \<Longrightarrow> 0 < months div 12"
    by (simp_all add: hours_def days_def months_def)
  consider "minutes < 1" | "0 < minutes" "minutes < 60" | "60 \<le> minutes" "hours < 24"
    | "60 \<le> minutes" "24 \<le> hours" "days < 30"
    | "60 \<le> minutes" "24 \<le> hours" "30 \<le> days" "months < 12"
    | "60 \<le> minutes" "24 \<le> hours" "30 \<le> days" "12 \<le> months"
    by linarith
  then show ?thesis
  proof cases
    case 1 then show ?thesis by (simp add: eq)
  next
    case 2 then show ?thesis by (auto simp: eq)
  next
    case 3 then show ?thesis using pos by (auto simp: eq)
  next
    case 4 then show ?thesis using pos by (auto simp: eq)
  next
    case 5 then show ?thesis using pos by (auto simp: eq)
  next
    case 6 then show ?thesis using pos by (auto simp: eq)
  qed
qed

end
