(* ===== verification/Containers.thy ===== *)
theory Containers
  imports Wire_Messages Toasts "HOL-Library.AList"
begin

text \<open>
  The container hook (\<open>hooks/useContainers.ts\<close>): its state, the initial fetch, the five
  container actions, the reducer of the server's change stream with its deferred deletions,
  and the loop that keeps the stream subscribed. An action or a fetch is split at its
  \<open>await\<close>: a \<open>..._begin\<close> runs up to the call, a \<open>..._end\<close> takes the call's outcome. What a
  handler shows comes back as a list of toast calls.

  The abstract view of the stream is a map from container id to container; the lemmas show that
  the list the hook keeps implements it, with a pending deletion hidden until its timer fires.
\<close>

section \<open>Data\<close>

record container =
  c_id :: string
  c_name :: string
  c_image :: string
  c_imageId :: string
  c_state :: string
  c_autoUpdate :: bool
  c_updateAvailable :: bool
  c_latestImageDigest :: string
  c_lastCheckedAt :: string
  c_lastUpdatedAt :: string

record protoContainer =
  p_id :: "string option"
  p_name :: "string option"
  p_image :: "string option"
  p_imageId :: "string option"
  p_state :: "string option"
  p_autoUpdate :: "bool option"
  p_updateAvailable :: "bool option"
  p_latestImageDigest :: "string option"
  p_lastCheckedAt :: "string option"
  p_lastUpdatedAt :: "string option"

text \<open>\<open>c.field || ""\<close> and \<open>!!c.field\<close> on an optional field.\<close>

definition or_empty :: "string option \<Rightarrow> string" where
  "or_empty v = (case v of None \<Rightarrow> '''' | Some s \<Rightarrow> str_or s '''')"

definition truthy :: "bool option \<Rightarrow> bool" where
  "truthy v = (case v of None \<Rightarrow> False | Some b \<Rightarrow> b)"

definition mapProtoContainer :: "protoContainer \<Rightarrow> container" where
  "mapProtoContainer c =
     \<lparr>c_id = or_empty (p_id c), c_name = or_empty (p_name c), c_image = or_empty (p_image c),
      c_imageId = or_empty (p_imageId c), c_state = or_empty (p_state c),
      c_autoUpdate = truthy (p_autoUpdate c), c_updateAvailable = truthy (p_updateAvailable c),
      c_latestImageDigest = or_empty (p_latestImageDigest c),
      c_lastCheckedAt = or_empty (p_lastCheckedAt c), c_lastUpdatedAt = or_empty (p_lastUpdatedAt c)\<rparr>"

text \<open>A generated message has every field, so it is passed where \<open>ProtoContainer\<close> is expected.\<close>

definition proto_of_wire :: "wireContainer \<Rightarrow> protoContainer" where
  "proto_of_wire w =
     \<lparr>p_id = Some (wc_id w), p_name = Some (wc_name w), p_image = Some (wc_image w),
      p_imageId = Some (wc_imageId w), p_state = Some (wc_state w),
      p_autoUpdate = Some (wc_autoUpdate w), p_updateAvailable = Some (wc_updateAvailable w),
      p_latestImageDigest = Some (wc_latestImageDigest w),
      p_lastCheckedAt = Some (wc_lastCheckedAt w), p_lastUpdatedAt = Some (wc_lastUpdatedAt w)\<rparr>"

text \<open>
  The hook's state. \<open>pendingDeletes\<close>, an association list for the object of that name, maps a container name to the handle of its deletion
  timeout; \<open>timers\<close> are the timeouts the browser still has armed, each with the name and
  the id its callback captured. Handles are numbered from 1, so a stored handle is truthy.
\<close>

record cont_hook =
  containers :: "container list"
  containersRef :: "container list"
  ch_isLoading :: bool
  ch_error :: "string option"
  actionLoading :: "string \<Rightarrow> string option"
  pendingDeletes :: "(string \<times> nat) list"
  timers :: "(nat \<times> string \<times> string) list"
  nextTimer :: nat
  isMounted :: bool

definition cont_init :: cont_hook where
  "cont_init =
     \<lparr>containers = [], containersRef = [], ch_isLoading = True, ch_error = None,
      actionLoading = (\<lambda>_. None), pendingDeletes = [], timers = [], nextTimer = 1,
      isMounted = True\<rparr>"

section \<open>Fetching and rendering\<close>

text \<open>After a render the effect on \<open>[containers]\<close> copies the list into the ref.\<close>

definition syncRef :: "cont_hook \<Rightarrow> cont_hook" where
  "syncRef s = s\<lparr>containersRef := containers s\<rparr>"

definition getContainerName :: "cont_hook \<Rightarrow> string \<Rightarrow> string" where
  "getContainerName s i =
     (case List.find (\<lambda>c. c_id c = i) (containersRef s) of Some c \<Rightarrow> c_name c | None \<Rightarrow> i)"

definition fetchContainers_end :: "wireContainer list rpc \<Rightarrow> cont_hook \<Rightarrow> cont_hook" where
  "fetchContainers_end r s =
     (let s1 = (case r of
                  Inr ws \<Rightarrow>
                    if isMounted s
                    then s\<lparr>containers := map (mapProtoContainer \<circ> proto_of_wire) ws, ch_error := None\<rparr>
                    else s
                | Inl e \<Rightarrow>
                    if isMounted s
                    then s\<lparr>ch_error := Some ''Unable to connect to the Docker monitor backend.''\<rparr>
                    else s)
      in if isMounted s1 then s1\<lparr>ch_isLoading := False\<rparr> else s1)"

section \<open>Container actions\<close>

datatype cont_action = StartC | StopC | UpgradeC | AutoUpdateC bool | CheckC

definition set_busy :: "string \<Rightarrow> string \<Rightarrow> cont_hook \<Rightarrow> cont_hook" where
  "set_busy i what s = s\<lparr>actionLoading := (actionLoading s)(i := Some what)\<rparr>"

definition clear_busy :: "string \<Rightarrow> cont_hook \<Rightarrow> cont_hook" where
  "clear_busy i s = s\<lparr>actionLoading := (actionLoading s)(i := None)\<rparr>"

definition startContainer_begin :: "string \<Rightarrow> cont_hook \<Rightarrow> cont_hook \<times> toast_call list" where
  "startContainer_begin i s =
     (set_busy i ''starting'' s,
      [toast_info (''Starting container '' @ quoted (getContainerName s i) @ ''...'') None])"

definition startContainer_end :: "string \<Rightarrow> string \<Rightarrow> unit rpc \<Rightarrow> cont_hook \<Rightarrow> cont_hook \<times> toast_call list" where
  "startContainer_end i name r s =
     (clear_busy i s,
      [case r of
         Inr _ \<Rightarrow> toast_success (''Container '' @ quoted name @ '' started successfully.'')
       | Inl e \<Rightarrow> toast_error (''Failed to start container '' @ quoted name @ '': ''
                   @ err_text_or ''Failed to start container'' e)])"

definition stopContainer_begin :: "string \<Rightarrow> cont_hook \<Rightarrow> cont_hook \<times> toast_call list" where
  "stopContainer_begin i s =
     (set_busy i ''stopping'' s,
      [toast_info (''Stopping container '' @ quoted (getContainerName s i) @ ''...'') None])"

definition stopContainer_end :: "string \<Rightarrow> string \<Rightarrow> unit rpc \<Rightarrow> cont_hook \<Rightarrow> cont_hook \<times> toast_call list" where
  "stopContainer_end i name r s =
     (clear_busy i s,
      [case r of
         Inr _ \<Rightarrow> toast_success (''Container '' @ quoted name @ '' stopped successfully.'')
       | Inl e \<Rightarrow> toast_error (''Failed to stop container '' @ quoted name @ '': ''
                   @ err_text_or ''Failed to stop container'' e)])"

definition upgradeContainer_begin :: "string \<Rightarrow> cont_hook \<Rightarrow> cont_hook \<times> toast_call list" where
  "upgradeContainer_begin i s =
     (set_busy i ''upgrading'' s,
      [toast_info (''Upgrading container '' @ quoted (getContainerName s i)
         @ '' (pulling image & re-creating)...'') (Some 15000)])"

definition upgradeContainer_end :: "string \<Rightarrow> string \<Rightarrow> unit rpc \<Rightarrow> cont_hook \<Rightarrow> cont_hook \<times> toast_call list" where
  "upgradeContainer_end i name r s =
     (clear_busy i s,
      [case r of
         Inr _ \<Rightarrow> toast_success (''Container '' @ quoted name @ '' upgraded successfully.'')
       | Inl e \<Rightarrow> toast_error (''Failed to upgrade container '' @ quoted name @ '': ''
                   @ err_text_or ''Failed to upgrade container'' e)])"

definition setContainerAutoUpdate_begin :: "string \<Rightarrow> cont_hook \<Rightarrow> cont_hook \<times> toast_call list" where
  "setContainerAutoUpdate_begin i s = (set_busy i ''toggling'' s, [])"

definition setContainerAutoUpdate_end ::
  "string \<Rightarrow> bool \<Rightarrow> string \<Rightarrow> unit rpc \<Rightarrow> cont_hook \<Rightarrow> cont_hook \<times> toast_call list" where
  "setContainerAutoUpdate_end i autoUpdate name r s =
     (clear_busy i s,
      [case r of
         Inr _ \<Rightarrow> toast_success (''Automatic updates '' @ (if autoUpdate then ''enabled'' else ''disabled'')
                   @ '' for container '' @ quoted name @ ''.'')
       | Inl e \<Rightarrow> toast_error (''Failed to update auto-update for container '' @ quoted name @ '': ''
                   @ err_text_or ''Failed to update auto-update setting'' e)])"

definition checkContainerUpdates_begin :: "string \<Rightarrow> cont_hook \<Rightarrow> cont_hook \<times> toast_call list" where
  "checkContainerUpdates_begin i s =
     (set_busy i ''checking'' s,
      [toast_info (''Checking updates for container '' @ quoted (getContainerName s i) @ ''...'') None])"

definition checkContainerUpdates_end ::
  "string \<Rightarrow> string \<Rightarrow> checkContainerUpdatesResponse rpc \<Rightarrow> cont_hook \<Rightarrow> cont_hook \<times> toast_call list" where
  "checkContainerUpdates_end i name r s =
     (clear_busy i s,
      [case r of
         Inr resp \<Rightarrow>
           if cu_updateAvailable resp
           then toast_success (''Check complete for '' @ quoted name @ '': A new update is available!'')
           else toast_info (''Check complete for '' @ quoted name @ '': Image is already up to date.'') None
       | Inl e \<Rightarrow> toast_error (''Failed to check updates for container '' @ quoted name @ '': ''
                   @ err_text_or ''Failed to check updates'' e)])"

section \<open>The change stream\<close>

text \<open>
  \<open>window.clearTimeout\<close> of the timeout stored under a name, and \<open>setTimeout\<close> of a deletion,
  whose handle is stored under the name.
\<close>

definition clearPending :: "string \<Rightarrow> cont_hook \<Rightarrow> cont_hook" where
  "clearPending n s =
     (case map_of (pendingDeletes s) n of
        Some h \<Rightarrow> s\<lparr>timers := filter (\<lambda>t. fst t \<noteq> h) (timers s)\<rparr>
      | None \<Rightarrow> s)"

definition armDelete :: "string \<Rightarrow> string \<Rightarrow> cont_hook \<Rightarrow> cont_hook" where
  "armDelete n i s =
     s\<lparr>pendingDeletes := AList.update n (nextTimer s) (pendingDeletes s),
       timers := (nextTimer s, n, i) # timers s, nextTimer := Suc (nextTimer s)\<rparr>"

definition forgetPending :: "string \<Rightarrow> cont_hook \<Rightarrow> cont_hook" where
  "forgetPending n s = s\<lparr>pendingDeletes := AList.delete n (pendingDeletes s)\<rparr>"

text \<open>\<open>findIndex\<close>; \<open>None\<close> is -1.\<close>

fun findIndex :: "('a \<Rightarrow> bool) \<Rightarrow> 'a list \<Rightarrow> nat option" where
  "findIndex P [] = None"
| "findIndex P (x # xs) = (if P x then Some 0 else map_option Suc (findIndex P xs))"

definition placeContainer :: "container \<Rightarrow> container list \<Rightarrow> container list" where
  "placeContainer m prev =
     (let idx = findIndex (\<lambda>c. c_id c = c_id m) prev;
          idx = (case idx of None \<Rightarrow> findIndex (\<lambda>c. c_name c = c_name m) prev | Some k \<Rightarrow> Some k)
      in case idx of Some k \<Rightarrow> prev[k := m] | None \<Rightarrow> prev @ [m])"

definition onDelete :: "string \<Rightarrow> cont_hook \<Rightarrow> cont_hook" where
  "onDelete i s =
     (case List.find (\<lambda>c. c_id c = i) (containers s) of
        Some c \<Rightarrow> armDelete (c_name c) i (clearPending (c_name c) s)
      | None \<Rightarrow> s\<lparr>containers := filter (\<lambda>c. c_id c \<noteq> i) (containers s)\<rparr>)"

definition onSave :: "container \<Rightarrow> cont_hook \<Rightarrow> cont_hook" where
  "onSave m s =
     (let s1 = (case map_of (pendingDeletes s) (c_name m) of
                  Some h \<Rightarrow> forgetPending (c_name m) (clearPending (c_name m) s)
                | None \<Rightarrow> s)
      in s1\<lparr>containers := placeContainer m (containers s1)\<rparr>)"

definition onStream :: "streamContainersResponse \<Rightarrow> cont_hook \<Rightarrow> cont_hook" where
  "onStream r s =
     (if \<not> isMounted s then s
      else if sc_action r = ''delete'' then onDelete (sc_containerId r) s
      else if sc_action r = ''save''
        then (case sc_container r of
                Some w \<Rightarrow> onSave (mapProtoContainer (proto_of_wire w)) s
              | None \<Rightarrow> s)
      else s)"

text \<open>The timeout's callback; the browser only runs a timeout that is still armed.\<close>

definition fireTimer :: "nat \<Rightarrow> cont_hook \<Rightarrow> cont_hook" where
  "fireTimer h s =
     (case List.find (\<lambda>t. fst t = h) (timers s) of
        None \<Rightarrow> s
      | Some (_, n, i) \<Rightarrow>
          s\<lparr>containers := filter (\<lambda>c. c_id c \<noteq> i) (containers s),
            pendingDeletes := AList.delete n (pendingDeletes s),
            timers := filter (\<lambda>t. fst t \<noteq> h) (timers s)\<rparr>)"

text \<open>The effect's cleanup clears every timeout stored in the pending map; the pending map itself is left as it is.\<close>

definition unmount :: "cont_hook \<Rightarrow> cont_hook" where
  "unmount s = s\<lparr>isMounted := False, timers := filter (\<lambda>t. fst t \<notin> snd ` set (pendingDeletes s)) (timers s)\<rparr>"

section \<open>The subscription loop\<close>

datatype sub_phase = Connecting | Streaming | Waiting | Exited

record subscription =
  sub_phase :: sub_phase
  sub_aborted :: bool
  sub_opened :: nat
  sub_hook :: cont_hook

text \<open>
  What the loop waits for: the stream opens, yields an item, ends, fails (also when it is
  aborted), the 2 s delay is over; and the component unmounts.
\<close>

datatype sub_event =
    Opened
  | Item streamContainersResponse
  | Ended
  | Failed
  | DelayOver
  | Unmounted

text \<open>The head of \<open>while (isMounted.current)\<close>: either open a stream or leave the loop.\<close>

definition loopHead :: "subscription \<Rightarrow> subscription" where
  "loopHead u =
     (if isMounted (sub_hook u)
      then u\<lparr>sub_phase := Connecting, sub_opened := Suc (sub_opened u)\<rparr>
      else u\<lparr>sub_phase := Exited\<rparr>)"

definition sub_start :: "cont_hook \<Rightarrow> subscription" where
  "sub_start s =
     loopHead \<lparr>sub_phase = Connecting, sub_aborted = False, sub_opened = 0,
               sub_hook = s\<lparr>isMounted := True\<rparr>\<rparr>"

fun sub_step :: "sub_event \<Rightarrow> subscription \<Rightarrow> subscription" where
  "sub_step Opened u = (if sub_phase u = Connecting then u\<lparr>sub_phase := Streaming\<rparr> else u)"
| "sub_step (Item r) u =
     (if sub_phase u = Streaming
      then (if isMounted (sub_hook u) then u\<lparr>sub_hook := onStream r (sub_hook u)\<rparr> else loopHead u)
      else u)"
| "sub_step Ended u = (if sub_phase u = Streaming then loopHead u else u)"
| "sub_step Failed u =
     (if sub_phase u = Connecting \<or> sub_phase u = Streaming
      then (if sub_aborted u then u\<lparr>sub_phase := Exited\<rparr> else u\<lparr>sub_phase := Waiting\<rparr>)
      else u)"
| "sub_step DelayOver u =
     (if sub_phase u = Waiting
      then loopHead (if isMounted (sub_hook u) then u\<lparr>sub_aborted := False\<rparr> else u)
      else u)"
| "sub_step Unmounted u = u\<lparr>sub_hook := unmount (sub_hook u), sub_aborted := True\<rparr>"

section \<open>The list of containers\<close>

text \<open>The ids a pending deletion will remove, and the rows that are not hidden by one.\<close>

definition doomed :: "cont_hook \<Rightarrow> string set" where
  "doomed s = (\<lambda>(h, n, i). i) ` set (timers s)"

definition abs_cont :: "cont_hook \<Rightarrow> string \<Rightarrow> container option" where
  "abs_cont s i = (if i \<in> doomed s then None else map_of (map (\<lambda>c. (c_id c, c)) (containers s)) i)"

text \<open>The abstract effect of a change on a map from id to container.\<close>

datatype change = Save container | Delete string

fun spec_change :: "change \<Rightarrow> (string \<Rightarrow> container option) \<Rightarrow> string \<Rightarrow> container option" where
  "spec_change (Save c) m =
     (\<lambda>i. if i = c_id c then Some c
          else case m i of None \<Rightarrow> None | Some d \<Rightarrow> if c_name d = c_name c then None else Some d)"
| "spec_change (Delete i) m = m(i := None)"

fun apply_change :: "change \<Rightarrow> cont_hook \<Rightarrow> cont_hook" where
  "apply_change (Save c) s = onSave c s"
| "apply_change (Delete i) s = onDelete i s"

definition cont_inv :: "cont_hook \<Rightarrow> bool" where
  "cont_inv s \<longleftrightarrow>
     distinct (map c_id (containers s)) \<and> distinct (map c_name (containers s)) \<and>
     distinct (map fst (timers s)) \<and> distinct (map fst (pendingDeletes s)) \<and>
     distinct (map snd (pendingDeletes s)) \<and> (\<forall>h \<in> snd ` set (pendingDeletes s). h < nextTimer s) \<and>
     (\<forall>(h, n, i) \<in> set (timers s). h < nextTimer s \<and> map_of (pendingDeletes s) n = Some h \<and>
        (\<forall>c \<in> set (containers s). c_id c = i \<longrightarrow> c_name c = n))"

text \<open>
  What the engine promises of a change: names are unique, so saving a container under a name
  that another listed row has does not happen while the saved id is itself listed, and an id
  that was deleted a moment ago does not come back under another name.
\<close>

fun ok_change :: "change \<Rightarrow> cont_hook \<Rightarrow> bool" where
  "ok_change (Save c) s \<longleftrightarrow>
     (c_id c \<in> c_id ` set (containers s) \<longrightarrow>
        (\<forall>d \<in> set (containers s). c_name d = c_name c \<longrightarrow> c_id d = c_id c)) \<and>
     (\<forall>(h, n, i) \<in> set (timers s). n \<noteq> c_name c \<longrightarrow> i \<noteq> c_id c)"
| "ok_change (Delete i) s \<longleftrightarrow> True"

lemma findIndex_None: "findIndex P xs = None \<longleftrightarrow> (\<forall>x \<in> set xs. \<not> P x)"
  by (induction xs) auto

lemma findIndex_Some: "findIndex P xs = Some k \<Longrightarrow> k < length xs \<and> P (xs ! k)"
  by (induction xs arbitrary: k) (auto split: if_splits)

text \<open>The row a saved container takes the place of, by id and then by name.\<close>

definition displaced :: "container \<Rightarrow> container \<Rightarrow> container list \<Rightarrow> bool" where
  "displaced m d prev \<longleftrightarrow>
     (if c_id m \<in> c_id ` set prev then c_id d = c_id m else c_name d = c_name m)"

lemma placeContainer_cases:
  obtains (replace) us d vs where "prev = us @ d # vs" "placeContainer m prev = us @ m # vs"
      "displaced m d prev"
  | (append) "placeContainer m prev = prev @ [m]" "\<forall>c \<in> set prev. c_id c \<noteq> c_id m \<and> c_name c \<noteq> c_name m"
proof -
  have upd: "prev = take k prev @ prev ! k # drop (Suc k) prev \<and> prev[k := m] = take k prev @ m # drop (Suc k) prev"
    if "k < length prev" for k
    using that by (simp add: id_take_nth_drop upd_conv_take_nth_drop)
  show ?thesis
  proof (cases "findIndex (\<lambda>c. c_id c = c_id m) prev")
    case (Some k)
    then have "k < length prev" "c_id (prev ! k) = c_id m" using findIndex_Some by force+
    moreover from this have "c_id m \<in> c_id ` set prev" by (metis image_eqI nth_mem)
    ultimately show ?thesis using Some
      by (intro replace [of "take k prev" "prev ! k" "drop (Suc k) prev"])
        (use upd [of k] in \<open>auto simp: placeContainer_def displaced_def\<close>)
  next
    case None
    then have no: "c_id m \<notin> c_id ` set prev" by (auto simp: findIndex_None)
    show ?thesis
    proof (cases "findIndex (\<lambda>c. c_name c = c_name m) prev")
      case (Some k)
      then have "k < length prev" "c_name (prev ! k) = c_name m" using findIndex_Some by force+
      with None Some no show ?thesis
        by (intro replace [of "take k prev" "prev ! k" "drop (Suc k) prev"])
          (use upd [of k] in \<open>auto simp: placeContainer_def displaced_def\<close>)
    next
      case None': None
      with None show ?thesis
        by (intro append) (simp add: placeContainer_def, auto simp: findIndex_None)
    qed
  qed
qed

lemma placeContainer_ids:
  assumes "distinct (map c_id prev)"
  shows "distinct (map c_id (placeContainer m prev))"
proof (cases rule: placeContainer_cases [of prev m])
  case (replace us d vs)
  have "distinct (map c_id (us @ d # vs))" using assms replace(1) by simp
  moreover have "c_id m \<notin> c_id ` set us \<union> c_id ` set vs"
  proof (cases "c_id m \<in> c_id ` set prev")
    case True
    then have "c_id d = c_id m" using replace(3) by (simp add: displaced_def)
    with calculation show ?thesis by auto
  qed (auto simp: replace(1))
  ultimately show ?thesis unfolding replace(2) by simp
next
  case append
  then show ?thesis using assms by auto
qed

lemma lookup_iff:
  "distinct (map c_id cs) \<Longrightarrow>
     map_of (map (\<lambda>c. (c_id c, c)) cs) i = Some c \<longleftrightarrow> c \<in> set cs \<and> c_id c = i"
  by (subst map_of_eq_Some_iff) (auto simp: comp_def)

text \<open>A saved container replaces every row with its id or its name, when that is at most one row.\<close>

definition one_target :: "container \<Rightarrow> container list \<Rightarrow> bool" where
  "one_target m prev \<longleftrightarrow>
     distinct (map c_id prev) \<and> distinct (map c_name prev) \<and>
     (c_id m \<in> c_id ` set prev \<longrightarrow> (\<forall>d \<in> set prev. c_name d = c_name m \<longrightarrow> c_id d = c_id m))"

lemma distinct_mid:
  "distinct (map f (us @ d # vs)) \<Longrightarrow> e \<in> set us \<union> set vs \<Longrightarrow> f e \<noteq> f d"
  by (metis Un_iff distinct_append distinct.simps(2) disjoint_insert(1) image_eqI list.set_map
      list.simps(15) list.simps(9) map_append set_append)

lemma placeContainer_set:
  assumes "one_target m prev"
  shows "set (placeContainer m prev) = insert m {d \<in> set prev. c_id d \<noteq> c_id m \<and> c_name d \<noteq> c_name m}"
proof (cases rule: placeContainer_cases [of prev m])
  case (replace us d vs)
  have "c_id e \<noteq> c_id d \<and> c_name e \<noteq> c_name d" if "e \<in> set us \<union> set vs" for e
    using assms that distinct_mid [of c_id us d vs e] distinct_mid [of c_name us d vs e]
    unfolding one_target_def replace(1) by blast
  moreover have "c_id d = c_id m \<or> c_name d = c_name m"
    using replace(3) by (auto simp: displaced_def split: if_splits)
  moreover have "c_id e \<noteq> c_id m \<and> c_name e \<noteq> c_name m" if "e \<in> set us \<union> set vs" for e
  proof -
    have e: "c_id e \<noteq> c_id d" "c_name e \<noteq> c_name d" "e \<in> set prev"
      using calculation(1) that replace(1) by auto
    show ?thesis
    proof (cases "c_id m \<in> c_id ` set prev")
      case True
      then have "c_id d = c_id m" using replace(3) by (simp add: displaced_def)
      moreover have "c_name e = c_name m \<longrightarrow> c_id e = c_id m"
        using assms True e(3) by (simp add: one_target_def)
      ultimately show ?thesis using e by auto
    next
      case False
      then have "c_name d = c_name m" using replace(3) by (simp add: displaced_def)
      then show ?thesis using e False by (metis image_eqI)
    qed
  qed
  ultimately show ?thesis unfolding replace(2) by (auto simp: replace(1))
next
  case append
  then show ?thesis by auto
qed

lemma placeContainer_names:
  assumes "one_target m prev"
  shows "distinct (map c_name (placeContainer m prev))"
proof (cases rule: placeContainer_cases [of prev m])
  case (replace us d vs)
  have "c_name e \<noteq> c_name m" if "e \<in> set us \<union> set vs" for e
  proof (cases "c_id m \<in> c_id ` set prev")
    case True
    have "c_id e \<noteq> c_id d"
      using assms that distinct_mid [of c_id us d vs e]
      unfolding one_target_def replace(1) by blast
    moreover have "e \<in> set prev" using that replace(1) by auto
    moreover have "c_id d = c_id m" using replace(3) True by (simp add: displaced_def)
    moreover have "\<forall>x \<in> set prev. c_name x = c_name m \<longrightarrow> c_id x = c_id m"
      using assms True by (simp add: one_target_def)
    ultimately show ?thesis by metis
  next
    case False
    have "c_name e \<noteq> c_name d"
      using assms that distinct_mid [of c_name us d vs e]
      unfolding one_target_def replace(1) by blast
    then show ?thesis using False replace(3) by (simp add: displaced_def)
  qed
  then have "c_name m \<notin> c_name ` set us" "c_name m \<notin> c_name ` set vs" by (auto, metis UnI1, metis UnI2)
  moreover have "distinct (map c_name (us @ d # vs))"
    using assms unfolding one_target_def replace(1) by blast
  ultimately show ?thesis unfolding replace(2) by simp
next
  case append
  then show ?thesis using assms by (auto simp: one_target_def)
qed

lemma abs_cont_iff:
  "distinct (map c_id (containers s)) \<Longrightarrow>
     abs_cont s i = Some c \<longleftrightarrow> c \<in> set (containers s) \<and> c_id c = i \<and> i \<notin> doomed s"
  by (auto simp: abs_cont_def lookup_iff)

lemma spec_Save_iff:
  "spec_change (Save m) f i = Some c \<longleftrightarrow>
     (if i = c_id m then c = m else f i = Some c \<and> c_name c \<noteq> c_name m)"
  by (auto split: option.splits)


lemma cont_invD:
  assumes "cont_inv s"
  shows "distinct (map c_id (containers s))" "distinct (map c_name (containers s))"
    "distinct (map fst (timers s))" "distinct (map fst (pendingDeletes s))"
    "distinct (map snd (pendingDeletes s))"
    "\<And>h. h \<in> snd ` set (pendingDeletes s) \<Longrightarrow> h < nextTimer s"
  using assms by (simp_all only: cont_inv_def)

lemma cont_inv_timer:
  assumes "cont_inv s" "(h, n, i) \<in> set (timers s)"
  shows "h < nextTimer s" "map_of (pendingDeletes s) n = Some h"
    "c \<in> set (containers s) \<Longrightarrow> c_id c = i \<Longrightarrow> c_name c = n"
proof -
  have "\<forall>(h, n, i) \<in> set (timers s). h < nextTimer s \<and> map_of (pendingDeletes s) n = Some h \<and>
        (\<forall>c \<in> set (containers s). c_id c = i \<longrightarrow> c_name c = n)"
    using assms(1) unfolding cont_inv_def by (elim conjE)
  from bspec [OF this assms(2)]
  show "h < nextTimer s" "map_of (pendingDeletes s) n = Some h"
    "c \<in> set (containers s) \<Longrightarrow> c_id c = i \<Longrightarrow> c_name c = n"
    by simp_all
qed

text \<open>Under the invariant a timer belongs to the name whose pending entry holds its handle.\<close>

lemma pending_handle:
  assumes "cont_inv s" "(h, n, i) \<in> set (timers s)"
  shows "map_of (pendingDeletes s) m = Some h \<longleftrightarrow> m = n"
proof
  have n: "map_of (pendingDeletes s) n = Some h" by (rule cont_inv_timer(2) [OF assms])
  assume m: "map_of (pendingDeletes s) m = Some h"
  have "distinct (map snd (pendingDeletes s))" by (rule cont_invD(5) [OF assms(1)])
  then show "m = n"
    using map_of_SomeD [OF n] map_of_SomeD [OF m] by (metis distinct_map inj_onD prod.inject snd_conv)
qed (simp add: cont_inv_timer(2) [OF assms])

definition drop_name :: "string \<Rightarrow> (nat \<times> string \<times> string) list \<Rightarrow> (nat \<times> string \<times> string) list" where
  "drop_name n ts = filter (\<lambda>(h, m, i). m \<noteq> n) ts"

lemma drop_name_set: "(h, m, i) \<in> set (drop_name n ts) \<longleftrightarrow> (h, m, i) \<in> set ts \<and> m \<noteq> n"
  by (auto simp: drop_name_def)

lemma timers_clearPending:
  assumes "cont_inv s"
  shows "timers (clearPending n s) = drop_name n (timers s)"
proof (cases "map_of (pendingDeletes s) n")
  case None
  then have "m \<noteq> n" if "(h, m, i) \<in> set (timers s)" for h m i
    using pending_handle [OF assms that, of n] pending_handle [OF assms that, of m] by auto
  then have "drop_name n (timers s) = timers s" by (force simp: drop_name_def filter_id_conv)
  then show ?thesis using None by (simp add: clearPending_def)
next
  case (Some h)
  have "fst t \<noteq> h \<longleftrightarrow> (case t of (h, m, i) \<Rightarrow> m \<noteq> n)" if "t \<in> set (timers s)" for t
  proof (cases t)
    case (fields h' m i)
    then show ?thesis using pending_handle [OF assms, of h' m i n] pending_handle [OF assms, of h' m i m]
      that Some by auto
  qed
  then show ?thesis using Some by (auto simp: clearPending_def drop_name_def intro!: filter_cong)
qed


lemma clearPending_fields [simp]:
  "containers (clearPending n s) = containers s" "nextTimer (clearPending n s) = nextTimer s"
  "pendingDeletes (clearPending n s) = pendingDeletes s" "isMounted (clearPending n s) = isMounted s"
  by (simp_all add: clearPending_def split: option.splits)

lemma onSave_fields:
  assumes "cont_inv s"
  shows "containers (onSave m s) = placeContainer m (containers s)"
    and "nextTimer (onSave m s) = nextTimer s"
    and "timers (onSave m s) = drop_name (c_name m) (timers s)"
    and "pendingDeletes (onSave m s) = AList.delete (c_name m) (pendingDeletes s)"
    and "isMounted (onSave m s) = isMounted s"
proof -
  have "clearPending (c_name m) s = s" if "map_of (pendingDeletes s) (c_name m) = None"
    using that by (simp add: clearPending_def)
  moreover have "AList.delete (c_name m) (pendingDeletes s) = pendingDeletes s"
    if "map_of (pendingDeletes s) (c_name m) = None"
    using that by (simp add: AList.delete_id map_of_eq_None_iff)
  ultimately show "containers (onSave m s) = placeContainer m (containers s)"
    and "nextTimer (onSave m s) = nextTimer s"
    and "timers (onSave m s) = drop_name (c_name m) (timers s)"
    and "pendingDeletes (onSave m s) = AList.delete (c_name m) (pendingDeletes s)"
    and "isMounted (onSave m s) = isMounted s"
    using timers_clearPending [OF assms, of "c_name m"]
    by (auto simp: onSave_def Let_def forgetPending_def split: option.splits)
qed

lemma pending_parts:
  assumes "cont_inv s"
  shows "distinct (map fst (AList.delete n (pendingDeletes s)))"
    and "distinct (map snd (AList.delete n (pendingDeletes s)))"
    and "\<forall>h \<in> snd ` set (AList.delete n (pendingDeletes s)). h < nextTimer s"
  using cont_invD(4-6) [OF assms] unfolding AList.delete_eq
  by (simp_all add: distinct_map_filter)

lemma ok_SaveD:
  assumes "ok_change (Save m) s"
  shows "c_id m \<in> c_id ` set (containers s) \<Longrightarrow> \<forall>d \<in> set (containers s). c_name d = c_name m \<longrightarrow> c_id d = c_id m"
    and "(h, n, i) \<in> set (timers s) \<Longrightarrow> n \<noteq> c_name m \<Longrightarrow> i \<noteq> c_id m"
  using assms unfolding ok_change.simps by blast+

lemma ok_Save_one_target: "cont_inv s \<Longrightarrow> ok_change (Save m) s \<Longrightarrow> one_target m (containers s)"
  unfolding one_target_def using cont_invD(1,2) [of s] ok_SaveD(1) [of m s] by blast

lemma cont_inv_onSave:
  assumes inv: "cont_inv s" and ok: "ok_change (Save m) s"
  shows "cont_inv (onSave m s)"
proof -
  note ot = ok_Save_one_target [OF assms]
  have t: "h < nextTimer s \<and> map_of (AList.delete (c_name m) (pendingDeletes s)) n = Some h \<and>
      (\<forall>c \<in> set (placeContainer m (containers s)). c_id c = i \<longrightarrow> c_name c = n)"
    if "(h, n, i) \<in> set (drop_name (c_name m) (timers s))" for h n i
  proof -
    have old: "(h, n, i) \<in> set (timers s)" "n \<noteq> c_name m" using that by (auto simp: drop_name_set)
    then have "i \<noteq> c_id m" by (rule ok_SaveD(2) [OF ok])
    moreover have "\<forall>c \<in> set (containers s). c_id c = i \<longrightarrow> c_name c = n" "h < nextTimer s"
        "map_of (pendingDeletes s) n = Some h"
      using cont_inv_timer [OF inv old(1)] by blast+
    ultimately show ?thesis
      using old(2) by (simp add: placeContainer_set [OF ot] AList.delete_conv')
  qed
  have "distinct (map fst (drop_name (c_name m) (timers s)))"
    using cont_invD(3) [OF inv] by (simp add: drop_name_def distinct_map_filter)
  moreover have "distinct (map c_id (placeContainer m (containers s)))"
    using ot by (simp add: one_target_def placeContainer_ids)
  ultimately show ?thesis
    using t pending_parts [OF inv] placeContainer_names [OF ot]
    unfolding cont_inv_def onSave_fields [OF inv] by blast
qed

lemma doomed_iff: "i \<in> doomed s \<longleftrightarrow> (\<exists>h n. (h, n, i) \<in> set (timers s))"
  by (force simp: doomed_def)

lemma abs_onSave:
  assumes inv: "cont_inv s" and ok: "ok_change (Save m) s"
  shows "abs_cont (onSave m s) = spec_change (Save m) (abs_cont s)"
proof -
  note ot = ok_Save_one_target [OF assms]
  have d: "distinct (map c_id (containers s))" "distinct (map c_id (containers (onSave m s)))"
    using cont_invD(1) [OF inv] cont_invD(1) [OF cont_inv_onSave [OF assms]] by blast+
  have ids: "c_id m \<notin> doomed (onSave m s)"
    unfolding doomed_iff onSave_fields [OF inv] drop_name_set using ok_SaveD(2) [OF ok] by blast
  have other: "c_id c \<in> doomed (onSave m s) \<longleftrightarrow> c_id c \<in> doomed s"
    if "c \<in> set (containers s)" "c_name c \<noteq> c_name m" for c
    using cont_inv_timer(3) [OF inv _ that(1)] that(2)
    unfolding doomed_iff onSave_fields [OF inv] drop_name_set by metis
  have "abs_cont (onSave m s) i = Some c \<longleftrightarrow> spec_change (Save m) (abs_cont s) i = Some c" for i c
    unfolding abs_cont_iff [OF d(2)] spec_Save_iff abs_cont_iff [OF d(1)] onSave_fields(1) [OF inv]
      placeContainer_set [OF ot]
    using ids other by auto
  then show ?thesis by (metis (no_types, opaque_lifting) ext not_None_eq)
qed

lemma set_update_values: "snd ` set (AList.update k v al) \<subseteq> insert v (snd ` set al)"
  by (induction al) auto

lemma distinct_update_values:
  "distinct (map snd al) \<Longrightarrow> v \<notin> snd ` set al \<Longrightarrow> distinct (map snd (AList.update k v al))"
proof (induction al)
  case (Cons x al)
  then show ?case
    using set_update_values [of k v al] by (cases x) (auto simp: image_iff)
qed simp

lemma onDelete_absent:
  assumes "i \<notin> c_id ` set (containers s)"
  shows "onDelete i s = s"
proof -
  have "List.find (\<lambda>c. c_id c = i) (containers s) = None"
    using assms by (auto simp: find_None_iff)
  moreover have "filter (\<lambda>c. c_id c \<noteq> i) (containers s) = containers s"
    using assms by (auto simp: filter_id_conv)
  ultimately show ?thesis by (simp add: onDelete_def)
qed

lemma onDelete_present:
  assumes "i \<in> c_id ` set (containers s)"
  obtains c where "c \<in> set (containers s)" "c_id c = i"
    "onDelete i s = armDelete (c_name c) i (clearPending (c_name c) s)"
proof -
  obtain c where f: "List.find (\<lambda>c. c_id c = i) (containers s) = Some c"
    using assms by (metis (mono_tags, lifting) find_None_iff imageE not_None_eq)
  then have "c \<in> set (containers s)" "c_id c = i"
    by (auto simp: find_Some_iff)
  then show thesis using that f by (simp add: onDelete_def)
qed

lemma cont_inv_armDelete:
  assumes inv: "cont_inv s" and c: "c \<in> set (containers s)"
  shows "cont_inv (armDelete (c_name c) (c_id c) (clearPending (c_name c) s))" (is "cont_inv ?s'")
proof -
  let ?n = "c_name c" and ?k = "nextTimer s"
  have ts: "timers ?s' = (?k, ?n, c_id c) # drop_name ?n (timers s)"
    and ps: "pendingDeletes ?s' = AList.update ?n ?k (pendingDeletes s)"
    and rest: "containers ?s' = containers s" "nextTimer ?s' = Suc ?k"
    by (simp_all add: armDelete_def timers_clearPending [OF inv])
  have fresh: "?k \<notin> snd ` set (pendingDeletes s)" "?k \<notin> fst ` set (timers s)"
    using cont_invD(6) [OF inv] cont_inv_timer(1) [OF inv] by (blast, force)
  have old: "h < Suc ?k \<and> map_of (AList.update ?n ?k (pendingDeletes s)) n = Some h \<and>
      (\<forall>d \<in> set (containers s). c_id d = i \<longrightarrow> c_name d = n)"
    if "(h, n, i) \<in> set (drop_name ?n (timers s))" for h n i
    using that cont_inv_timer [OF inv, of h n i] by (auto simp: drop_name_set AList.update_conv')
  have new: "d \<in> set (containers s) \<Longrightarrow> c_id d = c_id c \<Longrightarrow> c_name d = ?n" for d
    using cont_invD(1) [OF inv] c by (metis distinct_map inj_onD)
  have "distinct (map fst (timers ?s'))"
    using cont_invD(3) [OF inv] fresh(2) by (auto simp: ts drop_name_def distinct_map_filter)
  moreover have "distinct (map fst (pendingDeletes ?s'))"
    using cont_invD(4) [OF inv] by (simp add: ps distinct_update)
  moreover have "distinct (map snd (pendingDeletes ?s'))"
    using cont_invD(5) [OF inv] fresh(1) by (simp add: ps distinct_update_values)
  moreover have "\<forall>h \<in> snd ` set (pendingDeletes ?s'). h < nextTimer ?s'"
    using set_update_values [of ?n ?k "pendingDeletes s"] cont_invD(6) [OF inv] 
    unfolding ps rest by (metis insertE less_Suc_eq subsetD)
  moreover have "map_of (pendingDeletes ?s') ?n = Some ?k" by (simp add: ps AList.update_conv')
  moreover have "\<forall>(h, n, i) \<in> set (timers ?s'). h < nextTimer ?s' \<and> map_of (pendingDeletes ?s') n = Some h \<and>
        (\<forall>c \<in> set (containers ?s'). c_id c = i \<longrightarrow> c_name c = n)"
    using old new calculation(5) unfolding ts rest ps by auto
  ultimately show ?thesis
    using cont_invD(1,2) [OF inv] unfolding cont_inv_def rest by blast
qed

lemma doomed_armDelete:
  assumes inv: "cont_inv s" and c: "c \<in> set (containers s)" and d: "d \<in> set (containers s)"
  shows "c_id d \<in> doomed (armDelete (c_name c) (c_id c) (clearPending (c_name c) s))
     \<longleftrightarrow> c_id d = c_id c \<or> c_id d \<in> doomed s"
proof -
  have "c_id d = c_id c" if "(h, c_name c, c_id d) \<in> set (timers s)" for h
  proof -
    have "c_name d = c_name c" by (rule cont_inv_timer(3) [OF inv that d refl])
    then show ?thesis using cont_invD(2) [OF inv] c d by (metis distinct_map inj_onD)
  qed
  then show ?thesis
    unfolding doomed_iff by (simp add: armDelete_def timers_clearPending [OF inv] drop_name_set) blast
qed

lemma abs_onDelete:
  assumes inv: "cont_inv s"
  shows "abs_cont (onDelete i s) = spec_change (Delete i) (abs_cont s) \<and> cont_inv (onDelete i s)"
proof (cases "i \<in> c_id ` set (containers s)")
  case False
  have "abs_cont s i = None"
    using False by (auto simp: abs_cont_def map_of_eq_None_iff image_image)
  then show ?thesis using inv by (simp add: onDelete_absent [OF False] fun_upd_idem)
next
  case True
  from onDelete_present [OF True] obtain c where c: "c \<in> set (containers s)" "c_id c = i"
    and e: "onDelete i s = armDelete (c_name c) (c_id c) (clearPending (c_name c) s)"
    by metis
  have ids: "distinct (map c_id (containers (onDelete i s)))" "distinct (map c_id (containers s))"
    and cs: "containers (onDelete i s) = containers s"
    using cont_invD(1) [OF inv] by (simp_all add: e armDelete_def)
  have "abs_cont (onDelete i s) j = Some d \<longleftrightarrow> spec_change (Delete i) (abs_cont s) j = Some d" for j d
    using doomed_armDelete [OF inv c(1), of d, folded e]
    by (auto simp: abs_cont_iff [OF ids(1)] abs_cont_iff [OF ids(2)] cs c(2))
  then show ?thesis
    using cont_inv_armDelete [OF inv c(1)]
    by (metis (no_types, opaque_lifting) e ext not_None_eq)
qed


lemma fireTimer_found:
  assumes "cont_inv s" "(h, n, i) \<in> set (timers s)"
  shows "fireTimer h s = s\<lparr>containers := filter (\<lambda>c. c_id c \<noteq> i) (containers s),
            pendingDeletes := AList.delete n (pendingDeletes s),
            timers := filter (\<lambda>t. fst t \<noteq> h) (timers s)\<rparr>"
proof -
  obtain t where t: "List.find (\<lambda>t. fst t = h) (timers s) = Some t"
    using assms(2) by (metis (mono_tags, lifting) find_None_iff fst_conv not_None_eq)
  then have "t \<in> set (timers s)" "fst t = h" by (auto simp: find_Some_iff)
  then have "t = (h, n, i)"
    using cont_invD(3) [OF assms(1)] assms(2) by (metis distinct_map fst_conv inj_onD)
  with t show ?thesis by (simp add: fireTimer_def)
qed

lemma fireTimer_absent: "h \<notin> fst ` set (timers s) \<Longrightarrow> fireTimer h s = s"
  using find_None_iff [of "\<lambda>t. fst t = h" "timers s"] by (force simp: fireTimer_def)

lemma fired_timers:
  assumes "cont_inv s" "(h, n, i) \<in> set (timers s)"
  shows "(h', n', i') \<in> set (timers (fireTimer h s)) \<longleftrightarrow> (h', n', i') \<in> set (timers s) \<and> n' \<noteq> n"
proof -
  have "h' = h \<longleftrightarrow> n' = n" if "(h', n', i') \<in> set (timers s)"
    using cont_inv_timer(2) [OF assms] pending_handle [OF assms(1) that, of n]
      pending_handle [OF assms, of n'] cont_inv_timer(2) [OF assms(1) that] by auto
  then show ?thesis by (auto simp: fireTimer_found [OF assms])
qed

lemma cont_inv_fireTimer:
  assumes inv: "cont_inv s"
  shows "cont_inv (fireTimer h s)"
proof (cases "h \<in> fst ` set (timers s)")
  case False
  then show ?thesis using inv by (simp add: fireTimer_absent)
next
  case True
  then obtain n i where t: "(h, n, i) \<in> set (timers s)" by force
  note f = fireTimer_found [OF inv t]
  have "h' < nextTimer s \<and> map_of (AList.delete n (pendingDeletes s)) n' = Some h' \<and>
      (\<forall>c \<in> set (filter (\<lambda>c. c_id c \<noteq> i) (containers s)). c_id c = i' \<longrightarrow> c_name c = n')"
    if "(h', n', i') \<in> set (timers (fireTimer h s))" for h' n' i'
    using that cont_inv_timer [OF inv, of h' n' i'] fired_timers [OF inv t]
    by (auto simp: AList.delete_conv')
  then have "\<forall>(h', n', i') \<in> set (timers (fireTimer h s)). h' < nextTimer (fireTimer h s) \<and>
      map_of (pendingDeletes (fireTimer h s)) n' = Some h' \<and>
      (\<forall>c \<in> set (containers (fireTimer h s)). c_id c = i' \<longrightarrow> c_name c = n')"
    by (auto simp: f)
  moreover have "distinct (map fst (timers (fireTimer h s)))"
      "distinct (map c_id (containers (fireTimer h s)))" "distinct (map c_name (containers (fireTimer h s)))"
    using cont_invD(1-3) [OF inv] by (simp_all add: f distinct_map_filter)
  moreover have "pendingDeletes (fireTimer h s) = AList.delete n (pendingDeletes s)"
      "nextTimer (fireTimer h s) = nextTimer s"
    by (simp_all add: f)
  ultimately show ?thesis
    using pending_parts [OF inv, of n] unfolding cont_inv_def by simp
qed

text \<open>Firing a deletion timer changes nothing in the abstract view.\<close>

lemma abs_fireTimer:
  assumes inv: "cont_inv s"
  shows "abs_cont (fireTimer h s) = abs_cont s"
proof (cases "h \<in> fst ` set (timers s)")
  case False
  then show ?thesis by (simp add: fireTimer_absent)
next
  case True
  then obtain n i where t: "(h, n, i) \<in> set (timers s)" by force
  have ids: "distinct (map c_id (containers (fireTimer h s)))" "distinct (map c_id (containers s))"
    using cont_invD(1) [OF cont_inv_fireTimer [OF inv]] cont_invD(1) [OF inv] by blast+
  have "i \<in> doomed s" using t by (auto simp: doomed_iff)
  have same: "c_id d \<in> doomed (fireTimer h s) \<longleftrightarrow> c_id d \<in> doomed s"
    if d: "d \<in> set (containers s)" "c_id d \<noteq> i" for d
  proof -
    have "n' \<noteq> n" if "(h', n', c_id d) \<in> set (timers s)" for h' n'
    proof
      assume "n' = n"
      with cont_inv_timer(2) [OF inv that] cont_inv_timer(2) [OF inv t] have "h' = h" by simp
      with that t cont_invD(3) [OF inv] have "(h', n', c_id d) = (h, n, i)"
        by (metis distinct_map fst_conv inj_onD)
      with d(2) show False by simp
    qed
    then show ?thesis unfolding doomed_iff fired_timers [OF inv t] by blast
  qed
  have cs: "d \<in> set (containers (fireTimer h s)) \<longleftrightarrow> d \<in> set (containers s) \<and> c_id d \<noteq> i" for d
    by (simp add: fireTimer_found [OF inv t])
  have "abs_cont (fireTimer h s) j = Some d \<longleftrightarrow> abs_cont s j = Some d" for j d
    using same [of d] \<open>i \<in> doomed s\<close>
    unfolding abs_cont_iff [OF ids(1)] abs_cont_iff [OF ids(2)] cs by blast
  then show ?thesis by (metis (no_types, opaque_lifting) ext not_None_eq)
qed

section \<open>Feeding the hook\<close>

text \<open>What reaches the hook between two renders: a message of the stream, or a timeout.\<close>

datatype feed = Msg streamContainersResponse | Fire nat

fun feed_step :: "feed \<Rightarrow> cont_hook \<Rightarrow> cont_hook" where
  "feed_step (Msg r) s = onStream r s"
| "feed_step (Fire h) s = fireTimer h s"

definition change_of :: "streamContainersResponse \<Rightarrow> change option" where
  "change_of r =
     (if sc_action r = ''delete'' then Some (Delete (sc_containerId r))
      else if sc_action r = ''save''
        then map_option (\<lambda>w. Save (mapProtoContainer (proto_of_wire w))) (sc_container r)
      else None)"

text \<open>The abstract effect: a message changes the map, a timeout does not.\<close>

fun spec_feed :: "feed \<Rightarrow> (string \<Rightarrow> container option) \<Rightarrow> string \<Rightarrow> container option" where
  "spec_feed (Msg r) m = (case change_of r of Some e \<Rightarrow> spec_change e m | None \<Rightarrow> m)"
| "spec_feed (Fire h) m = m"

fun ok_feed :: "feed list \<Rightarrow> cont_hook \<Rightarrow> bool" where
  "ok_feed [] s \<longleftrightarrow> True"
| "ok_feed (e # es) s \<longleftrightarrow>
     (case e of Msg r \<Rightarrow> (case change_of r of Some c \<Rightarrow> ok_change c s | None \<Rightarrow> True) | Fire h \<Rightarrow> True)
     \<and> ok_feed es (feed_step e s)"

text \<open>All pending deletions run out.\<close>

definition settle_all :: "cont_hook \<Rightarrow> cont_hook" where
  "settle_all s = fold fireTimer (map fst (timers s)) s"

lemma onStream_change:
  "isMounted s \<Longrightarrow> onStream r s = (case change_of r of Some e \<Rightarrow> apply_change e s | None \<Rightarrow> s)"
  by (auto simp: onStream_def change_of_def split: option.splits)

lemma mounted_feed [simp]: "isMounted (feed_step e s) = isMounted s"
  by (cases e)
    (auto simp: onStream_def onDelete_def onSave_def armDelete_def forgetPending_def fireTimer_def Let_def
      split: option.splits prod.splits)

lemma feed_step_refines:
  assumes "cont_inv s" "isMounted s" "ok_feed [e] s"
  shows "cont_inv (feed_step e s) \<and> abs_cont (feed_step e s) = spec_feed e (abs_cont s)"
proof (cases e)
  case (Msg r)
  show ?thesis
  proof (cases "change_of r")
    case None
    then show ?thesis using Msg assms by (simp add: onStream_change)
  next
    case (Some c)
    then have ok: "ok_change c s" and st: "feed_step e s = apply_change c s"
      using Msg assms by (simp_all add: onStream_change)
    show ?thesis
    proof (cases c)
      case (Save m)
      have "feed_step e s = onSave m s" "spec_feed e (abs_cont s) = spec_change (Save m) (abs_cont s)"
        using st Save Msg Some by simp_all
      then show ?thesis
        using cont_inv_onSave [OF assms(1) ok [unfolded Save]] abs_onSave [OF assms(1) ok [unfolded Save]]
        by (simp only: simp_thms)
    next
      case (Delete i)
      then show ?thesis using abs_onDelete [OF assms(1)] Msg Some st by simp
    qed
  qed
next
  case (Fire h)
  then show ?thesis using assms by (simp add: cont_inv_fireTimer abs_fireTimer)
qed

lemma feed_refines:
  "cont_inv s \<Longrightarrow> isMounted s \<Longrightarrow> ok_feed es s \<Longrightarrow>
     cont_inv (fold feed_step es s) \<and> abs_cont (fold feed_step es s) = fold spec_feed es (abs_cont s)"
proof (induction es arbitrary: s)
  case (Cons e es)
  then have "cont_inv (feed_step e s) \<and> abs_cont (feed_step e s) = spec_feed e (abs_cont s)"
    by (intro feed_step_refines) simp_all
  then show ?case using Cons.IH [of "feed_step e s"] Cons.prems by simp
qed simp

lemma timers_fireTimer: "timers (fireTimer h s) = filter (\<lambda>t. fst t \<noteq> h) (timers s)"
  using find_None_iff [of "\<lambda>t. fst t = h" "timers s"] filter_id_conv [of "\<lambda>t. fst t \<noteq> h" "timers s"]
  by (auto simp: fireTimer_def split: option.splits)

lemma settle_all_timers: "timers (settle_all s) = []"
proof -
  have "timers (fold fireTimer hs s) = filter (\<lambda>t. fst t \<notin> set hs) (timers s)" for hs
    by (induction hs arbitrary: s) (auto simp: timers_fireTimer intro: filter_cong)
  then show ?thesis by (auto simp: settle_all_def filter_empty_conv)
qed

lemma settle_all_refines:
  assumes "cont_inv s"
  shows "cont_inv (settle_all s) \<and> abs_cont (settle_all s) = abs_cont s"
proof -
  have "cont_inv (fold fireTimer hs s) \<and> abs_cont (fold fireTimer hs s) = abs_cont s" for hs
    using assms by (induction hs arbitrary: s) (auto simp: cont_inv_fireTimer abs_fireTimer)
  then show ?thesis by (simp add: settle_all_def)
qed

lemma cont_inv_fetched:
  assumes "distinct (map wc_id ws)" "distinct (map wc_name ws)"
  shows "cont_inv (fetchContainers_end (Inr ws) cont_init)"
proof -
  have "map (c_id \<circ> (mapProtoContainer \<circ> proto_of_wire)) ws = map wc_id ws"
       "map (c_name \<circ> (mapProtoContainer \<circ> proto_of_wire)) ws = map wc_name ws"
    by (auto simp: mapProtoContainer_def proto_of_wire_def or_empty_def str_or_def)
  then have "distinct (map (c_id \<circ> (mapProtoContainer \<circ> proto_of_wire)) ws)"
       "distinct (map (c_name \<circ> (mapProtoContainer \<circ> proto_of_wire)) ws)"
    using assms by (simp_all only:)
  then show ?thesis
    by (simp add: cont_inv_def fetchContainers_end_def cont_init_def Let_def)
qed

section \<open>Invariants that need nothing of the server\<close>

text \<open>Ids stay unique, and every armed timeout is the one its pending entry can clear.\<close>

definition rows_inv :: "cont_hook \<Rightarrow> bool" where
  "rows_inv s \<longleftrightarrow>
     distinct (map c_id (containers s)) \<and>
     (\<forall>t \<in> set (timers s). map_of (pendingDeletes s) (fst (snd t)) = Some (fst t))"

lemma rows_inv_clear_arm:
  "rows_inv s \<Longrightarrow> rows_inv (armDelete n i (clearPending n s))"
  by (auto simp: rows_inv_def armDelete_def clearPending_def AList.update_conv' split: option.splits)

lemma rows_inv_onSave: "rows_inv s \<Longrightarrow> rows_inv (onSave m s)"
  by (auto simp: rows_inv_def onSave_def clearPending_def forgetPending_def AList.delete_conv'
      Let_def placeContainer_ids split: option.splits)

lemma rows_inv_onDelete: "rows_inv s \<Longrightarrow> rows_inv (onDelete i s)"
  by (metis onDelete_absent onDelete_present rows_inv_clear_arm)

lemma rows_inv_fireTimer: "rows_inv s \<Longrightarrow> rows_inv (fireTimer h s)"
  by (auto simp: rows_inv_def fireTimer_def AList.delete_conv' distinct_map_filter find_Some_iff
      split: option.splits) (metis fst_conv nth_mem option.inject snd_conv)

lemma rows_inv_feed: "rows_inv s \<Longrightarrow> rows_inv (feed_step e s)"
  by (cases e) (auto simp: onStream_def rows_inv_onSave rows_inv_onDelete rows_inv_fireTimer split: option.splits)

lemma rows_inv_run: "rows_inv s \<Longrightarrow> rows_inv (fold feed_step es s)"
  by (induction es arbitrary: s) (auto simp: rows_inv_feed)

lemma rows_inv_unmount:
  assumes "rows_inv s"
  shows "timers (unmount s) = []"
proof -
  have "fst t \<in> snd ` set (pendingDeletes s)" if "t \<in> set (timers s)" for t
    using assms that map_of_SomeD [of "pendingDeletes s" "fst (snd t)" "fst t"]
    by (force simp: rows_inv_def)
  then show ?thesis by (simp add: unmount_def filter_empty_conv)
qed

lemma rows_inv_fetched:
  assumes "distinct (map wc_id ws)"
  shows "rows_inv (fetchContainers_end (Inr ws) cont_init)"
proof -
  have "map (c_id \<circ> (mapProtoContainer \<circ> proto_of_wire)) ws = map wc_id ws"
    by (auto simp: mapProtoContainer_def proto_of_wire_def or_empty_def str_or_def)
  then have "distinct (map (c_id \<circ> (mapProtoContainer \<circ> proto_of_wire)) ws)"
    using assms by (simp only:)
  then show ?thesis
    by (simp add: rows_inv_def fetchContainers_end_def cont_init_def Let_def)
qed

section \<open>The subscription\<close>

definition sub_inv :: "subscription \<Rightarrow> bool" where
  "sub_inv u \<longleftrightarrow>
     (isMounted (sub_hook u) \<longrightarrow> sub_phase u \<noteq> Exited \<and> \<not> sub_aborted u)"

lemma mounted_onStream [simp]: "isMounted (onStream r s) = isMounted s"
  using mounted_feed [of "Msg r" s] by simp

lemma sub_inv_step: "sub_inv u \<Longrightarrow> sub_inv (sub_step e u)"
  by (cases e) (auto simp: sub_inv_def loopHead_def unmount_def)

lemma sub_inv_run: "sub_inv u \<Longrightarrow> sub_inv (fold sub_step es u)"
  by (induction es arbitrary: u) (auto simp: sub_inv_step)

lemma sub_inv_start: "sub_inv (sub_start s)"
  by (simp add: sub_inv_def sub_start_def loopHead_def)

lemma sub_dead_step:
  "\<not> isMounted (sub_hook u) \<Longrightarrow>
     \<not> isMounted (sub_hook (sub_step e u)) \<and> sub_opened (sub_step e u) = sub_opened u
     \<and> containers (sub_hook (sub_step e u)) = containers (sub_hook u)"
  by (cases e) (auto simp: loopHead_def unmount_def)

lemma sub_dead_run:
  "\<not> isMounted (sub_hook u) \<Longrightarrow>
     sub_opened (fold sub_step es u) = sub_opened u
     \<and> containers (sub_hook (fold sub_step es u)) = containers (sub_hook u)"
  by (induction es arbitrary: u) (use sub_dead_step in auto)

lemma sub_mounted_run:
  "Unmounted \<notin> set es \<Longrightarrow> isMounted (sub_hook (fold sub_step es u)) = isMounted (sub_hook u)"
proof (induction es arbitrary: u)
  case (Cons e es)
  then have "isMounted (sub_hook (sub_step e u)) = isMounted (sub_hook u)"
    by (cases e) (auto simp: loopHead_def)
  with Cons show ?case by simp
qed simp

text \<open>The events that bring a mounted subscription back to an open stream.\<close>

definition recover :: "sub_phase \<Rightarrow> sub_event list" where
  "recover p = (case p of Connecting \<Rightarrow> [Opened] | Streaming \<Rightarrow> [] | Waiting \<Rightarrow> [DelayOver, Opened] | Exited \<Rightarrow> [])"

section \<open>Messages for concrete runs\<close>

definition wire :: "string \<Rightarrow> string \<Rightarrow> wireContainer" where
  "wire i n = \<lparr>wc_id = i, wc_name = n, wc_image = ''nginx:1'', wc_imageId = '''', wc_state = ''running'',
     wc_autoUpdate = False, wc_updateAvailable = False, wc_latestImageDigest = '''',
     wc_lastCheckedAt = '''', wc_lastUpdatedAt = ''''\<rparr>"

definition save_msg :: "string \<Rightarrow> string \<Rightarrow> feed" where
  "save_msg i n = Msg \<lparr>sc_action = ''save'', sc_container = Some (wire i n), sc_containerId = i\<rparr>"

definition delete_msg :: "string \<Rightarrow> feed" where
  "delete_msg i = Msg \<lparr>sc_action = ''delete'', sc_container = None, sc_containerId = i\<rparr>"

section \<open>Properties\<close>





text \<open>
  C8: The subscription never gives up while the component is mounted: whatever the stream
  does, the loop is not left, and at most the end of the 2 s delay and a successful connection
  lead back to an open stream. Once the component is unmounted no further stream is opened and
  no event changes the list.
\<close>

theorem subscription_live_until_unmount:
  assumes "Unmounted \<notin> set es" and "u = fold sub_step es (sub_start s)"
  shows "sub_phase (fold sub_step (recover (sub_phase u)) u) = Streaming
     \<and> sub_opened (fold sub_step (Unmounted # fs) u) = sub_opened u
     \<and> containers (sub_hook (fold sub_step (Unmounted # fs) u)) = containers (sub_hook u)"
proof -
  have "isMounted (sub_hook (sub_start s))" by (simp add: sub_start_def loopHead_def)
  then have m: "isMounted (sub_hook u)" using sub_mounted_run [OF assms(1)] assms(2) by simp
  moreover have "sub_inv u" unfolding assms(2) by (intro sub_inv_run sub_inv_start)
  ultimately have "sub_phase u \<noteq> Exited" by (simp add: sub_inv_def)
  then have "sub_phase (fold sub_step (recover (sub_phase u)) u) = Streaming"
    using m by (cases "sub_phase u") (simp_all add: recover_def loopHead_def)
  moreover have "\<not> isMounted (sub_hook (sub_step Unmounted u))" by (simp add: unmount_def)
  ultimately show ?thesis using sub_dead_run [of "sub_step Unmounted u" fs] by (simp add: unmount_def)
qed

theorem subscription_live_until_unmount_witness:
  "sub_phase (fold sub_step (recover (sub_phase (fold sub_step [Opened, Failed] (sub_start cont_init))))
      (fold sub_step [Opened, Failed] (sub_start cont_init))) = Streaming"
  using subscription_live_until_unmount [of "[Opened, Failed]", OF _ refl, of cont_init] by simp

section \<open>Two behaviours worth knowing\<close>

text \<open>
  A pending deletion is keyed by name. When a container is deleted and, within the 300 ms of
  its deferred removal, \<^emph>\<open>another listed\<close> container is renamed to the freed name, the save
  cancels the removal but replaces the renamed row, found by its id: the deleted container's
  row stays, with no timeout left that would remove it.
\<close>

lemma ghost_row:
  "let s = fold feed_step [delete_msg ''1'', save_msg ''2'' ''a'']
             (fetchContainers_end (Inr [wire ''1'' ''a'', wire ''2'' ''b'']) cont_init)
   in map c_id (containers s) = [''1'', ''2''] \<and> timers s = []"
  by code_simp

text \<open>
  Only a failing stream is retried after the delay: one that the server ends cleanly is
  re-opened at once, so a server that keeps closing the stream is asked again without a pause.
\<close>

lemma clean_end_reconnects_at_once:
  assumes "isMounted (sub_hook u)" "sub_phase u = Streaming"
  shows "sub_phase (sub_step Ended u) = Connecting \<and> sub_opened (sub_step Ended u) = Suc (sub_opened u)"
  using assms by (simp add: loopHead_def)

end
