(* ===== verification/Async_Contracts.thy ===== *)
theory Async_Contracts
  imports Dm_Prelude
begin

text \<open>
  Two contracts that several hooks of the frontend share, as locales.

  \<open>single_flight\<close>: operations guarded by busy flags in React state. A handler sees the state
  of the last \<^emph>\<open>rendered\<close> view, which may lag behind the current one, because a promise
  continuation updates the state without rendering; a click, on the other hand, is flushed
  before the next event is dispatched. A configuration is the current state, the rendered state
  and the keys of the operations in flight. \<open>busy\<close> is the flag of an operation, \<open>enabled\<close> says
  that the rendered view lets it start, and \<open>ok\<close> is whatever further invariant the client's steps
  rely on. The contract's steps are the start of an operation, its completion (which may start
  others), and anything that touches neither the flags nor the operations.

  \<open>ticketed\<close>: a request counter. Every check draws the next ticket; a response is dropped
  unless its ticket is still the latest.
\<close>

type_synonym ('s, 'k) flight = "'s \<times> 's \<times> 'k list"

locale single_flight =
  fixes busy :: "'s \<Rightarrow> 'k \<Rightarrow> bool"
    and enabled :: "'s \<Rightarrow> 'k \<Rightarrow> bool"
    and ok :: "('s, 'k) flight \<Rightarrow> bool"
    and step :: "('s, 'k) flight \<Rightarrow> ('s, 'k) flight \<Rightarrow> bool"
  assumes enabled_idle: "busy s k \<Longrightarrow> \<not> enabled s k"
    and ok_step: "step c c' \<Longrightarrow> ok c \<Longrightarrow> ok c'"
    and step_kind:
    "step (s, r, fl) (s', r', fl') \<Longrightarrow> ok (s, r, fl) \<Longrightarrow>
       (\<exists>k. enabled r k \<and> fl' = k # fl \<and> busy s' = (busy s)(k := True) \<and> r' = s')
     \<or> (\<exists>k ks. k \<in> set fl \<and> \<not> busy s' k \<and> fl' = ks @ remove1 k fl \<and> distinct ks
            \<and> (\<forall>j \<in> set ks. \<not> busy s j \<and> j \<noteq> k \<and> busy s' j)
            \<and> (\<forall>j. j \<noteq> k \<longrightarrow> j \<notin> set ks \<longrightarrow> busy s' j = busy s j)
            \<and> (r' = r \<and> (\<forall>j \<in> set ks. \<not> enabled r j) \<or> r' = s'))
     \<or> (fl' = fl \<and> busy s' = busy s \<and> (r' = r \<or> r' = s'))"
begin

definition flight_inv :: "('s, 'k) flight \<Rightarrow> bool" where
  "flight_inv c \<longleftrightarrow>
     ok c \<and> (case c of (s, r, fl) \<Rightarrow>
        distinct fl \<and> (\<forall>k. busy s k \<longleftrightarrow> k \<in> set fl) \<and> (\<forall>k. busy s k \<longrightarrow> \<not> enabled r k))"

lemma flight_inv_idle: "ok (s, s, []) \<Longrightarrow> (\<And>k. \<not> busy s k) \<Longrightarrow> flight_inv (s, s, [])"
  by (simp add: flight_inv_def)

lemma finished:
  assumes inv: "flight_inv (s, r, fl)" and "k \<in> set fl" "\<not> busy s' k" "fl' = ks @ remove1 k fl" "distinct ks"
    and ks: "\<forall>j \<in> set ks. \<not> busy s j \<and> j \<noteq> k \<and> busy s' j"
    and rest: "\<forall>j. j \<noteq> k \<longrightarrow> j \<notin> set ks \<longrightarrow> busy s' j = busy s j"
  shows "distinct fl'" "busy s' j \<longleftrightarrow> j \<in> set fl'" "busy s' j \<Longrightarrow> j \<notin> set ks \<Longrightarrow> busy s j"
proof -
  have fl: "distinct fl" "\<And>j. busy s j \<longleftrightarrow> j \<in> set fl" using inv by (simp_all add: flight_inv_def)
  show "distinct fl'" using assms(4,5) ks fl by auto
  show "busy s' j \<longleftrightarrow> j \<in> set fl'"
    using assms(2-4) ks rest fl by (cases "j = k"; cases "j \<in> set ks") auto
  show "busy s j" if "busy s' j" "j \<notin> set ks" using that assms(3) rest by metis
qed

lemma flight_inv_step:
  assumes st: "step (s, r, fl) (s', r', fl')" and inv: "flight_inv (s, r, fl)"
  shows "flight_inv (s', r', fl')"
proof -
  have "ok (s, r, fl)" using inv by (simp add: flight_inv_def)
  have "ok (s', r', fl')" by (rule ok_step [OF st \<open>ok (s, r, fl)\<close>])
  moreover have "distinct fl' \<and> (\<forall>k. busy s' k \<longleftrightarrow> k \<in> set fl') \<and> (\<forall>k. busy s' k \<longrightarrow> \<not> enabled r' k)"
    using step_kind [OF st \<open>ok (s, r, fl)\<close>]
  proof (elim disjE exE conjE)
    fix k
    assume "enabled r k" "fl' = k # fl" "busy s' = (busy s)(k := True)" "r' = s'"
    then show ?thesis using inv enabled_idle by (auto simp: flight_inv_def)
  next
    fix k ks
    assume a: "k \<in> set fl" "\<not> busy s' k" "fl' = ks @ remove1 k fl" "distinct ks"
        "\<forall>j \<in> set ks. \<not> busy s j \<and> j \<noteq> k \<and> busy s' j"
        "\<forall>j. j \<noteq> k \<longrightarrow> j \<notin> set ks \<longrightarrow> busy s' j = busy s j"
      and r: "r' = r" "\<forall>j \<in> set ks. \<not> enabled r j"
    then show ?thesis using finished [OF inv a] inv by (auto simp: flight_inv_def)
  next
    fix k ks
    assume a: "k \<in> set fl" "\<not> busy s' k" "fl' = ks @ remove1 k fl" "distinct ks"
        "\<forall>j \<in> set ks. \<not> busy s j \<and> j \<noteq> k \<and> busy s' j"
        "\<forall>j. j \<noteq> k \<longrightarrow> j \<notin> set ks \<longrightarrow> busy s' j = busy s j"
      and r: "r' = s'"
    then show ?thesis using finished [OF inv a] enabled_idle by auto
  next
    assume "fl' = fl" "busy s' = busy s" "r' = r"
    then show ?thesis using inv by (simp add: flight_inv_def)
  next
    assume "fl' = fl" "busy s' = busy s" "r' = s'"
    then show ?thesis using inv enabled_idle by (auto simp: flight_inv_def)
  qed
  ultimately show ?thesis by (simp add: flight_inv_def)
qed

lemma flight_inv_reach: "rtranclp step c c' \<Longrightarrow> flight_inv c \<Longrightarrow> flight_inv c'"
proof (induction rule: rtranclp_induct)
  case (step y z)
  then show ?case by (cases y; cases z) (auto intro: flight_inv_step)
qed

lemma at_most_one:
  "rtranclp step (s, s, []) (s', r', fl') \<Longrightarrow> ok (s, s, []) \<Longrightarrow> (\<And>k. \<not> busy s k) \<Longrightarrow>
     distinct fl' \<and> (\<forall>k. busy s' k \<longleftrightarrow> k \<in> set fl') \<and> (\<forall>k. busy s' k \<longrightarrow> \<not> enabled r' k)"
  using flight_inv_reach [of "(s, s, [])" "(s', r', fl')"] flight_inv_idle [of s]
  by (simp add: flight_inv_def)

end

datatype 'r poll_event = Check | Settle nat 'r

locale ticketed =
  fixes ticket :: "'s \<Rightarrow> nat"
    and shown_state :: "'s \<Rightarrow> 'v"
    and check :: "'s \<Rightarrow> 's"
    and settle :: "nat \<Rightarrow> 'r \<Rightarrow> 's \<Rightarrow> 's"
  assumes ticket_check: "ticket (check s) = Suc (ticket s)"
    and shown_check: "shown_state (check s) = shown_state s"
    and settle_stale: "t \<noteq> ticket s \<Longrightarrow> settle t r s = s"
    and ticket_settle: "ticket (settle t r s) = ticket s"
begin

fun poll_step :: "'r poll_event \<Rightarrow> 's \<Rightarrow> 's" where
  "poll_step Check s = check s"
| "poll_step (Settle t r) s = settle t r s"

fun stale :: "nat \<Rightarrow> 'r poll_event \<Rightarrow> bool" where
  "stale n Check \<longleftrightarrow> True"
| "stale n (Settle t r) \<longleftrightarrow> t \<le> n"

lemma ticket_mono: "ticket s \<le> ticket (fold poll_step es s)"
proof (induction es arbitrary: s)
  case (Cons e es)
  have "ticket s \<le> ticket (poll_step e s)" by (cases e) (auto simp: ticket_check ticket_settle)
  also have "\<dots> \<le> ticket (fold poll_step es (poll_step e s))" by (rule Cons.IH)
  finally show ?case by simp
qed simp

text \<open>
  As long as only overtaken responses (tickets up to \<open>n\<close>) arrive after the \<open>n\<close>-th check was
  overtaken, what is shown does not change.
\<close>

lemma shown_stale:
  "n < ticket s \<Longrightarrow> (\<And>e. e \<in> set es \<Longrightarrow> stale n e) \<Longrightarrow> shown_state (fold poll_step es s) = shown_state s"
proof (induction es arbitrary: s)
  case (Cons e es)
  show ?case
  proof (cases e)
    case Check
    have "n < ticket (check s)" using Cons.prems(1) by (simp add: ticket_check)
    with Cons Check show ?thesis by (simp add: shown_check)
  next
    case (Settle t r)
    with Cons.prems have "t \<noteq> ticket s" using Cons.prems(2) [of e] by auto
    then have "settle t r s = s" by (rule settle_stale)
    with Cons Settle show ?thesis by simp
  qed
qed simp

text \<open>The response of the latest check decides what is shown, whatever arrives before it.\<close>

lemma latest_wins:
  assumes "\<And>e. e \<in> set es \<Longrightarrow> e \<noteq> Check \<and> stale (ticket s) e"
  shows "fold poll_step (Check # es @ [Settle (Suc (ticket s)) r]) s = settle (Suc (ticket s)) r (check s)"
proof -
  have "fold poll_step es (check s) = check s"
    using assms
  proof (induction es)
    case (Cons e es)
    then obtain t r where "e = Settle t r" by (metis list.set_intros(1) poll_event.exhaust)
    moreover from this Cons.prems [of e] have "t \<noteq> ticket (check s)" by (auto simp: ticket_check)
    ultimately show ?case using Cons by (simp add: settle_stale)
  qed simp
  then show ?thesis by simp
qed

text \<open>The same for a plain sequence of responses.\<close>

lemma fold_settle: "fold poll_step (map (\<lambda>(t, r). Settle t r) rs) s = fold (\<lambda>(t, r). settle t r) rs s"
  by (induction rs arbitrary: s) auto

lemma latest_wins_seq:
  assumes "\<forall>(t, r) \<in> set rs. t \<le> ticket s"
  shows "fold (\<lambda>(t, r). settle t r) (rs @ [(Suc (ticket s), q)]) (check s)
       = settle (Suc (ticket s)) q (check s)"
proof -
  have "fold poll_step (Check # map (\<lambda>(t, r). Settle t r) rs @ [Settle (Suc (ticket s)) q]) s
      = settle (Suc (ticket s)) q (check s)"
    using assms by (intro latest_wins) auto
  then show ?thesis by (simp add: fold_settle)
qed

lemma stale_seq:
  assumes "\<forall>(t, r) \<in> set rs. t \<le> ticket s"
  shows "shown_state (fold (\<lambda>(t, r). settle t r) rs (check s)) = shown_state s"
proof -
  have "shown_state (fold poll_step (map (\<lambda>(t, r). Settle t r) rs) (check s)) = shown_state (check s)"
    using assms by (intro shown_stale [of "ticket s"]) (auto simp: ticket_check)
  then show ?thesis by (simp add: fold_settle shown_check)
qed

end

end
