(* ===== verification/Container_Views.thy ===== *)
theory Container_Views
  imports Containers Async_Contracts "HOL-Library.Sorting_Algorithms"
begin

text \<open>
  The container dashboard (\<open>components/ContainerGrid.tsx\<close>, \<open>components/ContainerTable.tsx\<close>):
  the metrics, the search and filter, the sorted list, the grid's cards and the table's rows
  with their controls, and the dashboard as a step relation in which a click is only possible on
  an enabled control of the last rendered view.

  The locale's date formatting (\<open>fmt\<close>), \<open>localeCompare\<close> (a comparator) and the row order of the
  third-party table library (\<open>order\<close>) are arguments.
\<close>

section \<open>State of the dashboard\<close>

datatype contFilter = AllC | RunningC | StoppedC

datatype viewMode = GridView | TableView

record dash =
  d_search :: string
  d_filter :: contFilter
  d_selectedId :: "string option"
  d_selectedName :: "string option"
  d_viewMode :: viewMode
  d_storedMode :: "string option"

text \<open>The initial view mode, from \<open>localStorage\<close>.\<close>

definition initViewMode :: "string option \<Rightarrow> viewMode" where
  "initViewMode saved =
     (if saved = Some ''table'' then TableView else if saved = Some ''grid'' then GridView else GridView)"

definition dash_init :: "string option \<Rightarrow> dash" where
  "dash_init saved =
     \<lparr>d_search = '''', d_filter = AllC, d_selectedId = None, d_selectedName = None,
      d_viewMode = initViewMode saved, d_storedMode = saved\<rparr>"

definition mode_name :: "viewMode \<Rightarrow> string" where
  "mode_name m = (case m of GridView \<Rightarrow> ''grid'' | TableView \<Rightarrow> ''table'')"

definition handleViewModeChange :: "viewMode \<Rightarrow> dash \<Rightarrow> dash" where
  "handleViewModeChange m d = d\<lparr>d_viewMode := m, d_storedMode := Some (mode_name m)\<rparr>"

datatype column = NameCol | StateCol | ImageCol | IdCol | AutoUpdateCol | LastCheckedCol | ActionsCol

datatype dash_msg =
    SyncNow
  | FilterBy contFilter
  | ViewAs viewMode
  | Act cont_action string
  | ViewLogs string string
  | SortBy column

definition viewLogs :: "string \<Rightarrow> string \<Rightarrow> dash \<Rightarrow> dash" where
  "viewLogs i n d = d\<lparr>d_selectedId := Some i, d_selectedName := Some n\<rparr>"

definition closeLogs :: "dash \<Rightarrow> dash" where
  "closeLogs d = d\<lparr>d_selectedId := None, d_selectedName := None\<rparr>"

section \<open>What is derived from the list\<close>

text \<open>\<open>fmt\<close> gives the locale's time and date of an ISO text, \<open>None\<close> when formatting throws.\<close>

definition formatDate :: "(string \<Rightarrow> string option) \<Rightarrow> string \<Rightarrow> string" where
  "formatDate fmt isoStr =
     (if isoStr = [] \<or> startsWith isoStr ''0001-01-01'' then ''Never''
      else case fmt isoStr of Some t \<Rightarrow> t | None \<Rightarrow> ''Invalid date'')"

definition is_running :: "container \<Rightarrow> bool" where
  "is_running c \<longleftrightarrow> c_state c = ''running''"

definition totalCount :: "container list \<Rightarrow> nat" where
  "totalCount cs = length cs"

definition runningCount :: "container list \<Rightarrow> nat" where
  "runningCount cs = length (filter is_running cs)"

definition stoppedCount :: "container list \<Rightarrow> nat" where
  "stoppedCount cs = length (filter (\<lambda>c. \<not> is_running c) cs)"

definition updateCount :: "container list \<Rightarrow> nat" where
  "updateCount cs = length (filter c_updateAvailable cs)"

definition matchesSearch :: "string \<Rightarrow> container \<Rightarrow> bool" where
  "matchesSearch q c \<longleftrightarrow>
     str_includes (toLowerCase (c_name c)) (toLowerCase q) \<or>
     str_includes (toLowerCase (c_image c)) (toLowerCase q)"

definition keepContainer :: "string \<Rightarrow> contFilter \<Rightarrow> container \<Rightarrow> bool" where
  "keepContainer q f c =
     (if f = RunningC then matchesSearch q c \<and> is_running c
      else if f = StoppedC then matchesSearch q c \<and> \<not> is_running c
      else matchesSearch q c)"

definition filteredContainers ::
  "string comparator \<Rightarrow> string \<Rightarrow> contFilter \<Rightarrow> container list \<Rightarrow> container list" where
  "filteredContainers cmp q f cs = Sorting_Algorithms.sort (key c_name cmp) (filter (keepContainer q f) cs)"

section \<open>The grid\<close>

text \<open>\<open>!!loadingType\<close>.\<close>

definition busy_id :: "(string \<Rightarrow> string option) \<Rightarrow> string \<Rightarrow> bool" where
  "busy_id al i = (case al i of None \<Rightarrow> False | Some w \<Rightarrow> w \<noteq> [])"

definition locked :: "bool \<Rightarrow> (string \<Rightarrow> string option) \<Rightarrow> container \<Rightarrow> bool" where
  "locked isAdmin al c = (\<not> isAdmin \<or> busy_id al (c_id c))"

definition autoUpdateToggle :: "bool \<Rightarrow> (string \<Rightarrow> string option) \<Rightarrow> container \<Rightarrow> dash_msg node" where
  "autoUpdateToggle isAdmin al c =
     Button (Act (AutoUpdateC (\<not> c_autoUpdate c)) (c_id c)) (locked isAdmin al c)
       (Some (if isAdmin then ''Toggle automatic updates'' else ''Admin required'')) []"

definition cardActions :: "bool \<Rightarrow> (string \<Rightarrow> string option) \<Rightarrow> container \<Rightarrow> dash_msg node" where
  "cardActions isAdmin al c =
     Box ''card-actions-row''
       ([if is_running c
         then Button (Act StopC (c_id c)) (locked isAdmin al c) None [Text ''Stop'']
         else Button (Act StartC (c_id c)) (locked isAdmin al c) None [Text ''Start'']]
        @ show_if (c_updateAvailable c)
            [Button (Act UpgradeC (c_id c)) (locked isAdmin al c) None [Text ''Upgrade'']]
        @ [Button (ViewLogs (c_id c) (c_name c)) False (Some ''View console logs'') [Text ''Logs''],
           Button (Act CheckC (c_id c)) (locked isAdmin al c) (Some ''Check updates immediately'') []])"

definition cardDetails ::
  "(string \<Rightarrow> string option) \<Rightarrow> bool \<Rightarrow> (string \<Rightarrow> string option) \<Rightarrow> container \<Rightarrow> dash_msg node" where
  "cardDetails fmt isAdmin al c =
     Box ''card-details-list''
       [Text ''Container ID'', Text (take 12 (c_id c)),
        Text ''Image ID'', Text (if c_imageId c \<noteq> [] then take 12 (c_imageId c) else ''Unknown''),
        Text ''Auto Updates'', Text (if c_autoUpdate c then ''Active'' else ''Disabled''),
        autoUpdateToggle isAdmin al c,
        Text ''Last Checked'', Text (formatDate fmt (c_lastCheckedAt c))]"

definition containerCard ::
  "(string \<Rightarrow> string option) \<Rightarrow> bool \<Rightarrow> (string \<Rightarrow> string option) \<Rightarrow> container \<Rightarrow> dash_msg node" where
  "containerCard fmt isAdmin al c =
     Box ''container-card''
       ([Text (c_name c), Text (c_image c), Text (c_state c), cardDetails fmt isAdmin al c]
        @ show_if (c_updateAvailable c) [Text ''New version available in registry!'']
        @ [cardActions isAdmin al c])"

definition emptyGrid :: "string \<Rightarrow> dash_msg node" where
  "emptyGrid q =
     Box ''empty-state-card''
       [Text ''No Containers Found'',
        Text (if q \<noteq> [] then ''No results matched your search query.''
              else ''No Docker containers discovered on the host system.'')]"

section \<open>The table\<close>

text \<open>A header that sorts is a button; the id and actions columns have a plain text.\<close>

definition tableHeader :: "dash_msg node list" where
  "tableHeader =
     [Button (SortBy NameCol) False None [Text ''Name''],
      Button (SortBy StateCol) False None [Text ''Status''],
      Button (SortBy ImageCol) False None [Text ''Image & Tag''],
      Text ''Container ID'',
      Button (SortBy AutoUpdateCol) False None [Text ''Auto Updates''],
      Button (SortBy LastCheckedCol) False None [Text ''Last Checked''],
      Text ''Actions'']"

definition tableActions :: "bool \<Rightarrow> (string \<Rightarrow> string option) \<Rightarrow> container \<Rightarrow> dash_msg node" where
  "tableActions isAdmin al c =
     Box ''table-actions-row''
       ([if is_running c
         then Button (Act StopC (c_id c)) (locked isAdmin al c) (Some ''Stop Container'') [Text ''Stop'']
         else Button (Act StartC (c_id c)) (locked isAdmin al c) (Some ''Start Container'') [Text ''Start'']]
        @ show_if (c_updateAvailable c)
            [Button (Act UpgradeC (c_id c)) (locked isAdmin al c) (Some ''Upgrade Container'') [Text ''Upgrade'']]
        @ [Button (ViewLogs (c_id c) (c_name c)) False (Some ''View Logs'') [Text ''Logs''],
           Button (Act CheckC (c_id c)) (locked isAdmin al c) (Some ''Check Updates'') []])"

definition tableRow ::
  "(string \<Rightarrow> string option) \<Rightarrow> bool \<Rightarrow> (string \<Rightarrow> string option) \<Rightarrow> container \<Rightarrow> dash_msg node" where
  "tableRow fmt isAdmin al c =
     Box ''container-table-row''
       ([Text (c_name c), Text (c_state c), Text (c_image c)]
        @ show_if (c_updateAvailable c) [Text ''Update Ready'']
        @ [Text (take 12 (c_id c)), autoUpdateToggle isAdmin al c,
           Text (formatDate fmt (c_lastCheckedAt c)), tableActions isAdmin al c])"

definition containerTable ::
  "(container list \<Rightarrow> container list) \<Rightarrow> (string \<Rightarrow> string option) \<Rightarrow> bool \<Rightarrow>
     (string \<Rightarrow> string option) \<Rightarrow> container list \<Rightarrow> dash_msg node" where
  "containerTable order fmt isAdmin al cs =
     Box ''container-table-wrapper''
       ([Box ''thead'' tableHeader, Box ''tbody'' (map (tableRow fmt isAdmin al) (order cs))]
        @ show_if (cs = [])
            [Text ''No Containers Found'', Text ''No Docker containers discovered on the host system.''])"

section \<open>The dashboard\<close>

definition metric :: "bool \<Rightarrow> nat \<Rightarrow> string \<Rightarrow> dash_msg node" where
  "metric waiting n label =
     Box ''stat-card'' [Text (if waiting then ''--'' else string_of_nat n), Text label]"

definition filterButtons :: "dash_msg node list" where
  "filterButtons =
     [Button (FilterBy AllC) False None [Text ''All''],
      Button (FilterBy RunningC) False None [Text ''Running''],
      Button (FilterBy StoppedC) False None [Text ''Stopped''],
      Button (ViewAs GridView) False (Some ''Grid View'') [],
      Button (ViewAs TableView) False (Some ''Table View'') []]"

definition containerGrid ::
  "string comparator \<Rightarrow> (container list \<Rightarrow> container list) \<Rightarrow> (string \<Rightarrow> string option) \<Rightarrow> bool \<Rightarrow>
     dash \<Rightarrow> cont_hook \<Rightarrow> dash_msg node list" where
  "containerGrid cmp order fmt isAdmin d s =
     (let cs = containers s; loading = ch_isLoading s; waiting = (loading \<and> cs = []);
          fs = filteredContainers cmp (d_search d) (d_filter d) cs
      in [Box ''dashboard-header''
            [Text ''Container Dashboard'', Button SyncNow loading None [Text ''Sync Now'']],
          Box ''stats-grid''
            [metric waiting (totalCount cs) ''Total Discovered'', metric waiting (runningCount cs) ''Running'',
             metric waiting (stoppedCount cs) ''Stopped'', metric waiting (updateCount cs) ''Updates Ready'']]
         @ (case ch_error s of None \<Rightarrow> [] | Some e \<Rightarrow> show_if (e \<noteq> []) [Text e])
         @ [Field ''search'' (d_search d) False, Box ''control-bar'' filterButtons]
         @ (if waiting then [Box ''spinner'' []]
            else if d_viewMode d = TableView then [containerTable order fmt isAdmin (actionLoading s) fs]
            else [Box ''containers-grid-layout''
                    (map (containerCard fmt isAdmin (actionLoading s)) fs
                     @ show_if (fs = []) [emptyGrid (d_search d)])]))"

lemmas [view_defs] =
  autoUpdateToggle_def cardActions_def cardDetails_def containerCard_def emptyGrid_def tableHeader_def
  tableActions_def tableRow_def containerTable_def metric_def filterButtons_def

text \<open>The part of an action up to its call, and the part after it.\<close>

definition act_begin :: "cont_action \<Rightarrow> string \<Rightarrow> cont_hook \<Rightarrow> cont_hook \<times> toast_call list" where
  "act_begin a i s =
     (case a of
        StartC \<Rightarrow> startContainer_begin i s
      | StopC \<Rightarrow> stopContainer_begin i s
      | UpgradeC \<Rightarrow> upgradeContainer_begin i s
      | AutoUpdateC b \<Rightarrow> setContainerAutoUpdate_begin i s
      | CheckC \<Rightarrow> checkContainerUpdates_begin i s)"

definition act_end ::
  "cont_action \<Rightarrow> string \<Rightarrow> string \<Rightarrow> checkContainerUpdatesResponse rpc \<Rightarrow> cont_hook \<Rightarrow> cont_hook \<times> toast_call list" where
  "act_end a i name r s =
     (let u = (case r of Inl e \<Rightarrow> Inl e | Inr _ \<Rightarrow> Inr ()) in
      case a of
        StartC \<Rightarrow> startContainer_end i name u s
      | StopC \<Rightarrow> stopContainer_end i name u s
      | UpgradeC \<Rightarrow> upgradeContainer_end i name u s
      | AutoUpdateC b \<Rightarrow> setContainerAutoUpdate_end i b name u s
      | CheckC \<Rightarrow> checkContainerUpdates_end i name r s)"

text \<open>
  The dashboard at work: the current state, the state it was last rendered from, and the ids of
  the actions whose call is in flight. A click needs an enabled control of the rendered view.
\<close>

inductive dash_step :: "(cont_hook, string) flight \<Rightarrow> (cont_hook, string) flight \<Rightarrow> bool" where
  click: "\<lbrakk>\<And>xs. set (order xs) = set xs; Act a i \<in> set (offered (containerGrid cmp order fmt isAdmin d r));
           fst (act_begin a i s) = s'\<rbrakk>
          \<Longrightarrow> dash_step (s, r, fl) (s', s', i # fl)"
| settle: "\<lbrakk>i \<in> set fl; fst (act_end a i name res s) = s'; r' = r \<or> r' = s'\<rbrakk>
          \<Longrightarrow> dash_step (s, r, fl) (s', r', remove1 i fl)"
| fetched: "\<lbrakk>s' = fetchContainers_end res s; r' = r \<or> r' = s'\<rbrakk> \<Longrightarrow> dash_step (s, r, fl) (s', r', fl)"
| fed: "\<lbrakk>s' = feed_step e s; r' = r \<or> r' = s'\<rbrakk> \<Longrightarrow> dash_step (s, r, fl) (s', r', fl)"
| render: "dash_step (s, r, fl) (syncRef s, syncRef s, fl)"

section \<open>Lemmas\<close>

lemma set_filteredContainers [simp]:
  "set (filteredContainers cmp q f cs) = {c \<in> set cs. keepContainer q f c}"
  by (simp add: filteredContainers_def)

text \<open>The actions a container's controls offer.\<close>

definition row_actions :: "container \<Rightarrow> cont_action set" where
  "row_actions c =
     {AutoUpdateC (\<not> c_autoUpdate c), if is_running c then StopC else StartC, CheckC}
     \<union> (if c_updateAvailable c then {UpgradeC} else {})"

lemma acts_of_card:
  "Act a i \<in> set (clicks (containerCard fmt isAdmin al c)) \<longleftrightarrow>
     i = c_id c \<and> \<not> locked isAdmin al c \<and> a \<in> row_actions c"
  by (auto simp: view_defs row_actions_def)

lemma acts_of_row:
  "Act a i \<in> set (clicks (tableRow fmt isAdmin al c)) \<longleftrightarrow>
     i = c_id c \<and> \<not> locked isAdmin al c \<and> a \<in> row_actions c"
  by (auto simp: view_defs row_actions_def)

lemma acts_of_grid:
  assumes "\<And>xs. set (order xs) = set xs"
  shows "Act a i \<in> set (offered (containerGrid cmp order fmt isAdmin d s)) \<longleftrightarrow>
     (\<exists>c \<in> set (containers s). keepContainer (d_search d) (d_filter d) c \<and> i = c_id c
        \<and> \<not> locked isAdmin (actionLoading s) c \<and> a \<in> row_actions c)"
proof -
  have t: "Act a i \<in> set (clicks (containerTable order fmt isAdmin al cs)) \<longleftrightarrow>
      (\<exists>c \<in> set cs. i = c_id c \<and> \<not> locked isAdmin al c \<and> a \<in> row_actions c)" for al cs
    using acts_of_row assms by (auto simp: containerTable_def tableHeader_def offered_map)
  have g: "Act a i \<in> set (offered (map (containerCard fmt isAdmin al) cs)) \<longleftrightarrow>
      (\<exists>c \<in> set cs. i = c_id c \<and> \<not> locked isAdmin al c \<and> a \<in> row_actions c)" for al cs
    using acts_of_card by (auto simp: offered_map)
  show ?thesis
    by (auto simp: containerGrid_def Let_def t g metric_def filterButtons_def emptyGrid_def
        split: option.splits)
qed

lemma busy_act_begin: "busy_id (actionLoading (fst (act_begin a i s))) = (busy_id (actionLoading s))(i := True)"
  by (rule ext) (cases a; simp add: act_begin_def startContainer_begin_def stopContainer_begin_def
      upgradeContainer_begin_def setContainerAutoUpdate_begin_def checkContainerUpdates_begin_def
      set_busy_def busy_id_def)

lemma act_end_state: "fst (act_end a i name r s) = clear_busy i s"
  by (cases a) (simp_all add: act_end_def Let_def startContainer_end_def stopContainer_end_def
      upgradeContainer_end_def setContainerAutoUpdate_end_def checkContainerUpdates_end_def)

lemma actionLoading_feed [simp]: "actionLoading (feed_step e s) = actionLoading s"
  by (cases e)
    (auto simp: onStream_def onDelete_def onSave_def armDelete_def clearPending_def forgetPending_def
      fireTimer_def Let_def split: option.splits prod.splits)

lemma actionLoading_fetch [simp]: "actionLoading (fetchContainers_end r s) = actionLoading s"
  by (simp add: fetchContainers_end_def Let_def split: sum.splits)

inductive_cases dash_stepE [consumes 1, case_names click settle fetched fed render]:
  "dash_step (s, r, fl) (s', r', fl')"

interpretation cont_flight:
  single_flight "\<lambda>s. busy_id (actionLoading s)" "\<lambda>s k. \<not> busy_id (actionLoading s) k" "\<lambda>_. True" dash_step
proof (unfold_locales, simp, rule TrueI)
  fix s r s' r' :: cont_hook and fl fl' :: "string list"
  assume "dash_step (s, r, fl) (s', r', fl')"
  then show "(\<exists>k. \<not> busy_id (actionLoading r) k \<and> fl' = k # fl
        \<and> busy_id (actionLoading s') = (busy_id (actionLoading s))(k := True) \<and> r' = s')
     \<or> (\<exists>k ks. k \<in> set fl \<and> \<not> busy_id (actionLoading s') k \<and> fl' = ks @ remove1 k fl \<and> distinct ks
            \<and> (\<forall>j \<in> set ks. \<not> busy_id (actionLoading s) j \<and> j \<noteq> k \<and> busy_id (actionLoading s') j)
            \<and> (\<forall>j. j \<noteq> k \<longrightarrow> j \<notin> set ks \<longrightarrow> busy_id (actionLoading s') j = busy_id (actionLoading s) j)
            \<and> (r' = r \<and> (\<forall>j \<in> set ks. \<not> \<not> busy_id (actionLoading r) j) \<or> r' = s'))
     \<or> (fl' = fl \<and> busy_id (actionLoading s') = busy_id (actionLoading s) \<and> (r' = r \<or> r' = s'))"
  proof (cases rule: dash_stepE)
    case (click order a i cmp fmt isAdmin d)
    then have "\<not> busy_id (actionLoading r) i" by (auto simp: acts_of_grid locked_def)
    then show ?thesis using click busy_act_begin [of a i s] by auto
  next
    case (settle i a name res)
    have "\<not> busy_id (actionLoading s') i \<and> (\<forall>j. j \<noteq> i \<longrightarrow> busy_id (actionLoading s') j = busy_id (actionLoading s) j)"
      using settle(3) by (auto simp: act_end_state clear_busy_def busy_id_def)
    then show ?thesis using settle by (intro disjI2 disjI1 exI [of _ i] exI [of _ "[]"]) auto
  qed (auto simp: syncRef_def)
qed

section \<open>Properties\<close>

text \<open>
  C9: At most one action per container is in flight. Over every run of the dashboard (clicks on
  enabled controls of a view that may lag behind the state, calls settling, stream messages,
  timeouts, fetches, renders), the containers with a call in flight are pairwise different and
  are exactly those whose controls the state locks.
\<close>

theorem one_action_per_container:
  assumes "rtranclp dash_step (cont_init, cont_init, []) (s, r, fl)"
  shows "distinct fl \<and> (\<forall>i. busy_id (actionLoading s) i \<longleftrightarrow> i \<in> set fl)"
  using cont_flight.at_most_one [OF assms] by (simp add: cont_init_def busy_id_def)

lemma named_in_front: "sublist x (a @ x @ b)"
  by (rule sublist_appendI)

lemma named_later: "sublist x (a @ b @ c @ x @ d)"
  using sublist_appendI [of x "a @ b @ c" d] by simp

theorem one_action_per_container_witness:
  "distinct [''1''] \<and>
   (\<forall>i. busy_id (actionLoading (fst (act_begin StopC ''1''
         (fetchContainers_end (Inr [wire ''1'' ''a'']) cont_init)))) i \<longleftrightarrow> i \<in> set [''1''])"
proof -
  define s where "s = fetchContainers_end (Inr [wire ''1'' ''a'']) cont_init"
  have "dash_step (cont_init, cont_init, []) (s, s, [])"
    unfolding s_def by (rule dash_step.fetched [OF refl]) simp
  moreover have "Act StopC ''1'' \<in> set (offered (containerGrid flat id (\<lambda>_. None) True (dash_init None) s))"
    by (subst acts_of_grid)
      (auto simp: s_def fetchContainers_end_def cont_init_def wire_def mapProtoContainer_def
        proto_of_wire_def or_empty_def str_or_def keepContainer_def matchesSearch_def dash_init_def
        toLowerCase_def locked_def busy_id_def row_actions_def is_running_def)
  then have "dash_step (s, s, []) (fst (act_begin StopC ''1'' s), fst (act_begin StopC ''1'' s), [''1''])"
    by (intro dash_step.click [of id]) simp_all
  ultimately have "rtranclp dash_step (cont_init, cont_init, [])
      (fst (act_begin StopC ''1'' s), fst (act_begin StopC ''1'' s), [''1''])"
    by (meson converse_rtranclp_into_rtranclp r_into_rtranclp)
  from one_action_per_container [OF this] show ?thesis by (simp add: s_def)
qed

text \<open>
  C10: A viewer is offered no container action at all. An administrator is offered, for each
  container that passes the search and the filter and has no call in flight, exactly: stop if
  it runs and start if it does not, the toggle of its auto-update flag, an update check, and an
  upgrade if an update is available. Both the grid and the table do so, whatever order the table
  puts its rows in.
\<close>

theorem offered_actions_exact:
  assumes "\<And>xs. set (order xs) = set xs"
  shows "{(a, i). Act a i \<in> set (offered (containerGrid cmp order fmt isAdmin d s))} =
     (if isAdmin
      then {(a, c_id c) |a c. c \<in> set (containers s) \<and> keepContainer (d_search d) (d_filter d) c
              \<and> \<not> busy_id (actionLoading s) (c_id c)
              \<and> (a = AutoUpdateC (\<not> c_autoUpdate c) \<or> a = (if is_running c then StopC else StartC)
                 \<or> a = CheckC \<or> (a = UpgradeC \<and> c_updateAvailable c))}
      else {})"
  unfolding acts_of_grid [OF assms] by (auto simp: locked_def row_actions_def split: if_splits)

theorem offered_actions_exact_witness:
  "{(a, i). Act a i \<in> set (offered (containerGrid flat rev (\<lambda>_. None) False (dash_init None) cont_init))} = {}"
  using offered_actions_exact [of rev flat "\<lambda>_. None" False "dash_init None" cont_init] by simp

text \<open>
  The list shown is sorted by name, holds exactly the containers that pass the search and
  the filter, each as often as the hook's list has it, and keeps containers whose names compare
  equal in the order of the hook's list. The running and stopped counters add up to the total.
\<close>

lemma filteredContainers_spec:
  "Sorting_Algorithms.sorted (key c_name cmp) (filteredContainers cmp q f cs)
   \<and> mset (filteredContainers cmp q f cs) = filter_mset (keepContainer q f) (mset cs)
   \<and> filter (\<lambda>c. compare cmp n (c_name c) = Equiv) (filteredContainers cmp q f cs) =
       filter (\<lambda>c. compare cmp n (c_name c) = Equiv) (filter (keepContainer q f) cs)
   \<and> runningCount cs + stoppedCount cs = totalCount cs"
proof -
  have "filter (\<lambda>c. compare cmp n (c_name c) = Equiv) (Sorting_Algorithms.sort (key c_name cmp) xs) =
      filter (\<lambda>c. compare cmp n (c_name c) = Equiv) xs" for xs
    using stable_sort [of "key c_name cmp" "undefined\<lparr>c_name := n\<rparr>" xs] by simp
  moreover have "runningCount cs + stoppedCount cs = totalCount cs"
    by (simp add: runningCount_def stoppedCount_def totalCount_def length_filter_compl)
  ultimately show ?thesis
    unfolding filteredContainers_def by (metis mset_filter mset_sort sorted_sort)
qed

text \<open>
  Every container action ends the same way, whether its call succeeds or fails: exactly one
  outcome toast naming the container, and the container's controls are released, while those
  of every other container stay as they were.
\<close>

lemma act_end_outcome:
  "\<exists>t. snd (act_end a i name r s) = [t]
     \<and> sublist (quoted name) (tc_message t)
     \<and> (case r of Inl e \<Rightarrow> tc_type t = Error | Inr resp \<Rightarrow> tc_type t = Success \<or> (a = CheckC \<and> \<not> cu_updateAvailable resp \<and> tc_type t = Info))
     \<and> actionLoading (fst (act_end a i name r s)) = (actionLoading s)(i := None)
     \<and> containers (fst (act_end a i name r s)) = containers s"
proof -
  note defs = act_end_def Let_def startContainer_end_def stopContainer_end_def
      upgradeContainer_end_def setContainerAutoUpdate_end_def checkContainerUpdates_end_def
      clear_busy_def toast_success_def toast_error_def toast_info_def
  show ?thesis
    by (cases a; cases r) (simp_all add: defs named_in_front named_later del: append_Cons append.simps)
qed

end
