(* ===== verification/Status_Poll.thy ===== *)
theory Status_Poll
  imports Wire_Messages Async_Contracts
begin

text \<open>
  The two polling hooks (\<open>hooks/useEngineStatus.ts\<close>, \<open>hooks/useTailscaleStatus.ts\<close>) and the
  Tailscale card (\<open>components/TailscaleStatusCard.tsx\<close>). Both hooks wire the same way: a
  request counter \<open>inFlight\<close>, an interval, and handlers for visibility and focus; they differ
  in what a response makes of the state. The wiring is one polymorphic record; each hook then
  has its own settling of a response and interprets the contract \<open>ticketed\<close>.
\<close>

section \<open>The wiring\<close>

text \<open>
  \<open>timerRef\<close> is the interval the hook can clear, \<open>intervals\<close> are those the browser runs.
\<close>

record 'v poller =
  pl_state :: 'v
  inFlight :: nat
  timerRef :: "nat option"
  intervals :: "nat list"
  nextInterval :: nat
  pl_hidden :: bool
  pl_mounted :: bool

definition poller_init :: "'v \<Rightarrow> bool \<Rightarrow> 'v poller" where
  "poller_init v hid =
     \<lparr>pl_state = v, inFlight = 0, timerRef = None, intervals = [], nextInterval = 1,
      pl_hidden = hid, pl_mounted = True\<rparr>"

text \<open>The part of \<open>check\<close> up to its call: the call carries the new counter as its ticket.\<close>

definition check_begin :: "'v poller \<Rightarrow> 'v poller" where
  "check_begin p = p\<lparr>inFlight := Suc (inFlight p)\<rparr>"

definition schedulePoll :: "'v poller \<Rightarrow> 'v poller" where
  "schedulePoll p =
     (if timerRef p \<noteq> None then p
      else p\<lparr>timerRef := Some (nextInterval p), intervals := nextInterval p # intervals p,
             nextInterval := Suc (nextInterval p)\<rparr>)"

definition stopPoll :: "'v poller \<Rightarrow> 'v poller" where
  "stopPoll p =
     (case timerRef p of
        Some h \<Rightarrow> p\<lparr>timerRef := None, intervals := filter (\<lambda>x. x \<noteq> h) (intervals p)\<rparr>
      | None \<Rightarrow> p)"

definition onTick :: "'v poller \<Rightarrow> 'v poller" where
  "onTick p = (if \<not> pl_hidden p then check_begin p else p)"

definition onVisibility :: "'v poller \<Rightarrow> 'v poller" where
  "onVisibility p = (if pl_hidden p then stopPoll p else schedulePoll (check_begin p))"

definition onFocus :: "'v poller \<Rightarrow> 'v poller" where
  "onFocus p = check_begin p"

definition poll_mount :: "'v poller \<Rightarrow> 'v poller" where
  "poll_mount p = schedulePoll (check_begin p)"

definition poll_unmount :: "'v poller \<Rightarrow> 'v poller" where
  "poll_unmount p = (let q = stopPoll p in q\<lparr>inFlight := Suc (inFlight q), pl_mounted := False\<rparr>)"

text \<open>
  What happens to a mounted hook. A tick needs a running interval, a response a call that was
  made; after the unmount the listeners are gone and only responses still arrive.
\<close>

datatype 'r hook_event = VisibilityChange bool | FocusEvent | TickOf nat | Response nat 'r | UnmountHook

fun hook_step :: "(nat \<Rightarrow> 'r \<Rightarrow> 'v poller \<Rightarrow> 'v poller) \<Rightarrow> 'r hook_event \<Rightarrow> 'v poller \<Rightarrow> 'v poller" where
  "hook_step settle (VisibilityChange h) p =
     (if pl_mounted p then onVisibility (p\<lparr>pl_hidden := h\<rparr>) else p\<lparr>pl_hidden := h\<rparr>)"
| "hook_step settle FocusEvent p = (if pl_mounted p then onFocus p else p)"
| "hook_step settle (TickOf h) p = (if h \<in> set (intervals p) then onTick p else p)"
| "hook_step settle (Response t r) p = settle t r p"
| "hook_step settle UnmountHook p = (if pl_mounted p then poll_unmount p else p)"

section \<open>Engine status\<close>

datatype engineStatus = EngineChecking | Online | Offline

record engineStatusState =
  es_status :: engineStatus
  es_detail :: string

definition engine_initial :: engineStatusState where
  "engine_initial = \<lparr>es_status = EngineChecking, es_detail = ''''\<rparr>"

definition engineState :: "checkEngineResponse rpc \<Rightarrow> engineStatusState" where
  "engineState r =
     (case r of
        Inr resp \<Rightarrow>
          if ce_connected resp
          then \<lparr>es_status = Online,
                es_detail = (if ce_apiVersion resp \<noteq> [] then ''Docker Engine API v'' @ ce_apiVersion resp
                             else ''Docker Engine'')\<rparr>
          else \<lparr>es_status = Offline, es_detail = str_or (ce_error resp) ''Docker Engine unreachable''\<rparr>
      | Inl _ \<Rightarrow> \<lparr>es_status = Offline, es_detail = ''Backend unreachable''\<rparr>)"

definition engine_settle ::
  "nat \<Rightarrow> checkEngineResponse rpc \<Rightarrow> engineStatusState poller \<Rightarrow> engineStatusState poller" where
  "engine_settle ticket r p =
     (if ticket \<noteq> inFlight p then p else p\<lparr>pl_state := engineState r\<rparr>)"

definition useEngineStatus :: "bool \<Rightarrow> engineStatusState poller" where
  "useEngineStatus hid = poll_mount (poller_init engine_initial hid)"

section \<open>Tailscale status\<close>

datatype tailscaleLifecycleState = TsDisabled | TsStarting | TsRunning | TsFailed

record tailscaleStatusState =
  tss_loaded :: bool
  tss_enabled :: bool
  tss_state :: tailscaleLifecycleState
  tss_backendState :: string
  tss_hostname :: string
  tss_dnsName :: string
  tss_ips :: "string list"
  tss_port :: int
  tss_httpsEnabled :: bool
  tss_certDomains :: "string list"
  tss_keyExpiry :: "int option"
  tss_error :: string

definition tailscale_initial :: tailscaleStatusState where
  "tailscale_initial =
     \<lparr>tss_loaded = False, tss_enabled = False, tss_state = TsDisabled, tss_backendState = '''',
      tss_hostname = '''', tss_dnsName = '''', tss_ips = [], tss_port = 80, tss_httpsEnabled = False,
      tss_certDomains = [], tss_keyExpiry = None, tss_error = ''''\<rparr>"

definition lifecycle_of :: "string \<Rightarrow> tailscaleLifecycleState" where
  "lifecycle_of s =
     (if s = ''disabled'' then TsDisabled else if s = ''starting'' then TsStarting
      else if s = ''running'' then TsRunning else if s = ''failed'' then TsFailed else TsStarting)"

text \<open>\<open>timestampDate\<close> (of the protobuf library) gives a time in milliseconds.\<close>

definition tailscaleState ::
  "(timestamp \<Rightarrow> int) \<Rightarrow> getTailscaleStatusResponse \<Rightarrow> tailscaleStatusState" where
  "tailscaleState timestampDate resp =
     \<lparr>tss_loaded = True, tss_enabled = gts_enabled resp, tss_state = lifecycle_of (gts_state resp),
      tss_backendState = gts_backendState resp, tss_hostname = gts_hostname resp,
      tss_dnsName = gts_dnsName resp, tss_ips = gts_ips resp, tss_port = gts_port resp,
      tss_httpsEnabled = gts_httpsEnabled resp, tss_certDomains = gts_certDomains resp,
      tss_keyExpiry = map_option timestampDate (gts_keyExpiry resp), tss_error = gts_error resp\<rparr>"

definition tailscale_settle ::
  "(timestamp \<Rightarrow> int) \<Rightarrow> nat \<Rightarrow> getTailscaleStatusResponse rpc \<Rightarrow>
     tailscaleStatusState poller \<Rightarrow> tailscaleStatusState poller" where
  "tailscale_settle timestampDate ticket r p =
     (case r of
        Inr resp \<Rightarrow> if ticket \<noteq> inFlight p then p else p\<lparr>pl_state := tailscaleState timestampDate resp\<rparr>
      | Inl _ \<Rightarrow> p)"

definition useTailscaleStatus :: "bool \<Rightarrow> tailscaleStatusState poller" where
  "useTailscaleStatus hid = poll_mount (poller_init tailscale_initial hid)"

section \<open>The Tailscale card\<close>

definition key_expiry_warn_days :: int where
  "key_expiry_warn_days = 7"

definition stateDotClass :: "tailscaleLifecycleState \<Rightarrow> string" where
  "stateDotClass s =
     (case s of TsRunning \<Rightarrow> ''status-dot'' | TsFailed \<Rightarrow> ''status-dot offline'' | _ \<Rightarrow> ''status-dot checking'')"

definition stateLabel :: "tailscaleLifecycleState \<Rightarrow> string" where
  "stateLabel s =
     (case s of TsRunning \<Rightarrow> ''Online'' | TsFailed \<Rightarrow> ''Failed'' | TsStarting \<Rightarrow> ''Connecting''
      | TsDisabled \<Rightarrow> ''disabled'')"

definition detailRow :: "string \<Rightarrow> string \<Rightarrow> 'm node" where
  "detailRow label v = Box ''detail-row'' [Text label, Text v]"

text \<open>
  Whole days until the key expires. The quotient is a double in the source; for dates within
  the range of \<open>Date\<close> (at most \<open>10\<^sup>8\<close> days) its rounding does not reach the next integer, so the
  floor is that of the exact quotient.
\<close>

definition keyExpiryDays :: "int \<Rightarrow> int option \<Rightarrow> int option" where
  "keyExpiryDays now expiry = map_option (\<lambda>e. (e - now) div 86400000) expiry"

definition expiryText :: "int \<Rightarrow> string" where
  "expiryText days =
     (if days < 0 then ''Node key expired '' @ em_dash @ '' tailnet access needs re-registration''
      else ''Node key expires in '' @ string_of_int days @ '' day'' @ (if days = 1 then '''' else ''s'')
           @ '' '' @ em_dash @ '' plan re-registration'')"

definition expiryWarn :: "int \<Rightarrow> tailscaleStatusState \<Rightarrow> 'm node list" where
  "expiryWarn now st =
     (case keyExpiryDays now (tss_keyExpiry st) of
        None \<Rightarrow> []
      | Some days \<Rightarrow>
          show_if (days < key_expiry_warn_days)
            [Box (if days < 0 then ''status-dot offline'' else ''status-dot checking'') [Text (expiryText days)]])"

definition accessText :: "tailscaleStatusState \<Rightarrow> string" where
  "accessText st =
     (if tss_httpsEnabled st
      then ''https://'' @ tss_dnsName st @ '' (also http port '' @ string_of_int (tss_port st) @ '')''
      else ''http://'' @ tss_dnsName st @ '':'' @ string_of_int (tss_port st))"

definition tailscaleStatusCard :: "int \<Rightarrow> tailscaleStatusState \<Rightarrow> 'm node list" where
  "tailscaleStatusCard now st =
     (if \<not> tss_enabled st then []
      else [Box ''stat-card''
        ([Box (stateDotClass (tss_state st)) [], Text (''Tailscale node '' @ stateLabel (tss_state st))]
         @ show_if (tss_backendState st \<noteq> [] \<and> tss_state st = TsRunning)
             [Text (''('' @ tss_backendState st @ '')'')]
         @ show_if (tss_dnsName st \<noteq> []) [detailRow ''DNS name'' (tss_dnsName st)]
         @ show_if (tss_ips st \<noteq> []) [detailRow ''Tailnet IPs'' (join '', '' (tss_ips st))]
         @ show_if (tss_dnsName st \<noteq> []) [detailRow ''Access'' (accessText st)]
         @ show_if (tss_error st \<noteq> []) [Text (tss_error st)]
         @ expiryWarn now st)])"

text \<open>The card has no controls.\<close>

lemma offered_card [simp]: "offered (tailscaleStatusCard now st) = []"
  by (simp add: tailscaleStatusCard_def expiryWarn_def detailRow_def split: option.splits)

section \<open>The contract\<close>

interpretation engine: ticketed inFlight pl_state check_begin engine_settle
  by unfold_locales (simp_all add: check_begin_def engine_settle_def)

interpretation tailscale: ticketed inFlight pl_state check_begin "tailscale_settle timestampDate"
  by unfold_locales (simp_all add: check_begin_def tailscale_settle_def split: sum.splits)

text \<open>Intervals: the browser runs exactly the one the hook can clear.\<close>

definition interval_inv :: "'v poller \<Rightarrow> bool" where
  "interval_inv p \<longleftrightarrow>
     intervals p = (case timerRef p of None \<Rightarrow> [] | Some h \<Rightarrow> [h]) \<and> (\<not> pl_mounted p \<longrightarrow> timerRef p = None)"

text \<open>What both hooks' settling keeps.\<close>

locale settling =
  fixes settle :: "nat \<Rightarrow> 'r \<Rightarrow> 'v poller \<Rightarrow> 'v poller"
  assumes stale: "t \<noteq> inFlight p \<Longrightarrow> settle t r p = p"
    and keeps: "inFlight (settle t r p) = inFlight p" "intervals (settle t r p) = intervals p"
      "timerRef (settle t r p) = timerRef p" "pl_mounted (settle t r p) = pl_mounted p"
      "pl_hidden (settle t r p) = pl_hidden p"
begin

lemma interval_inv_step: "interval_inv p \<Longrightarrow> interval_inv (hook_step settle e p)"
  by (cases e)
    (auto simp: interval_inv_def onVisibility_def onFocus_def onTick_def check_begin_def schedulePoll_def
      stopPoll_def poll_unmount_def keeps split: option.splits)

lemma interval_inv_run: "interval_inv p \<Longrightarrow> interval_inv (fold (hook_step settle) es p)"
  by (induction es arbitrary: p) (auto simp: interval_inv_step)

lemma inFlight_mono: "inFlight p \<le> inFlight (hook_step settle e p)"
  by (cases e)
    (auto simp: onVisibility_def onFocus_def onTick_def check_begin_def schedulePoll_def
      stopPoll_def poll_unmount_def keeps split: option.splits)

lemma dead_step:
  assumes "\<not> pl_mounted p" "interval_inv p" "n < inFlight p"
    and "\<And>t r. e = Response t r \<Longrightarrow> t \<le> n"
  shows "pl_state (hook_step settle e p) = pl_state p \<and> \<not> pl_mounted (hook_step settle e p)
    \<and> inFlight (hook_step settle e p) = inFlight p"
proof (cases e)
  case (Response t r)
  with assms have "t \<noteq> inFlight p" by fastforce
  then show ?thesis using Response assms by (simp add: stale)
qed (use assms in \<open>auto simp: interval_inv_def split: option.splits\<close>)

lemma dead_run:
  "\<not> pl_mounted p \<Longrightarrow> interval_inv p \<Longrightarrow> n < inFlight p \<Longrightarrow> (\<And>t r. Response t r \<in> set es \<Longrightarrow> t \<le> n) \<Longrightarrow>
     pl_state (fold (hook_step settle) es p) = pl_state p"
proof (induction es arbitrary: p)
  case (Cons e es)
  have "pl_state (hook_step settle e p) = pl_state p \<and> \<not> pl_mounted (hook_step settle e p)
      \<and> inFlight (hook_step settle e p) = inFlight p"
    using Cons.prems by (intro dead_step) auto
  moreover from this have "pl_state (fold (hook_step settle) es (hook_step settle e p)) = pl_state (hook_step settle e p)"
    using Cons.prems interval_inv_step [of p e] by (intro Cons.IH) auto
  ultimately show ?case by simp
qed simp

text \<open>
  After the unmount no interval runs, and the responses to the calls made before it leave the
  state alone.
\<close>

lemma unmounted:
  assumes "interval_inv p" "pl_mounted p" "\<And>t r. Response t r \<in> set es \<Longrightarrow> t \<le> inFlight p"
  shows "intervals (fold (hook_step settle) (UnmountHook # es) p) = []
     \<and> pl_state (fold (hook_step settle) (UnmountHook # es) p) = pl_state p"
proof -
  have q: "interval_inv (poll_unmount p)" "\<not> pl_mounted (poll_unmount p)"
    "inFlight (poll_unmount p) = Suc (inFlight p)" "pl_state (poll_unmount p) = pl_state p"
    using assms(1) by (auto simp: interval_inv_def poll_unmount_def stopPoll_def Let_def split: option.splits)
  have "pl_state (fold (hook_step settle) es (poll_unmount p)) = pl_state (poll_unmount p)"
    using q assms(3) by (intro dead_run [of _ "inFlight p"]) auto
  moreover have "interval_inv (fold (hook_step settle) es (poll_unmount p))"
    by (rule interval_inv_run [OF q(1)])
  moreover have "\<not> pl_mounted (fold (hook_step settle) es (poll_unmount p))"
  proof -
    have "\<not> pl_mounted u \<Longrightarrow> \<not> pl_mounted (fold (hook_step settle) es u)" for u
    proof (induction es arbitrary: u)
      case (Cons e es)
      have "\<not> pl_mounted (hook_step settle e u)"
        using Cons.prems by (cases e) (auto simp: keeps onTick_def check_begin_def)
      then show ?case using Cons.IH by simp
    qed simp
    then show ?thesis using q(2) by blast
  qed
  ultimately show ?thesis using assms(2) q(4) by (auto simp: interval_inv_def)
qed

end

interpretation engine_hook: settling engine_settle
  by unfold_locales (simp_all add: engine_settle_def)

interpretation tailscale_hook: settling "tailscale_settle timestampDate"
  by unfold_locales (simp_all add: tailscale_settle_def split: sum.splits)

lemma interval_inv_mount: "interval_inv (poll_mount (poller_init v h))"
  by (simp add: interval_inv_def poll_mount_def poller_init_def schedulePoll_def check_begin_def)

text \<open>The responses to overtaken calls, as a sequence of settlements.\<close>

definition settle_seq :: "(nat \<Rightarrow> 'r \<Rightarrow> 'v poller \<Rightarrow> 'v poller) \<Rightarrow> (nat \<times> 'r) list \<Rightarrow> 'v poller \<Rightarrow> 'v poller" where
  "settle_seq settle rs p = fold (\<lambda>(t, r). settle t r) rs p"

section \<open>Properties\<close>

text \<open>
  The pill shows the outcome of the latest check. Responses to earlier checks that arrive
  after it was issued leave the state alone, in whatever order and number; its own response
  then decides: online with the API version, offline with the engine's reason, or offline with
  the backend unreachable when the call itself failed.
\<close>

lemma engine_latest_check_wins:
  assumes "\<forall>(t, r) \<in> set rs. t \<le> inFlight p"
  shows "pl_state (settle_seq engine_settle rs (check_begin p)) = pl_state p
     \<and> pl_state (settle_seq engine_settle (rs @ [(Suc (inFlight p), q)]) (check_begin p)) = engineState q"
  using engine.stale_seq [OF assms] engine.latest_wins_seq [OF assms, of q]
  by (simp add: settle_seq_def engine_settle_def check_begin_def)

text \<open>
  Whatever happens to the engine hook (tab hidden and shown, focus, ticks, responses), it
  never has more than one polling interval; after it is unmounted it has none, and no response
  to a call made before the unmount changes its state any more.
\<close>

lemma engine_poll_single_interval:
  assumes "p = fold (hook_step engine_settle) es (useEngineStatus hid)"
    and "pl_mounted p" and "\<forall>(t, r) \<in> set rs. t \<le> inFlight p"
  shows "length (intervals p) \<le> 1
     \<and> intervals (fold (hook_step engine_settle) (UnmountHook # map (\<lambda>(t, r). Response t r) rs) p) = []
     \<and> pl_state (fold (hook_step engine_settle) (UnmountHook # map (\<lambda>(t, r). Response t r) rs) p) = pl_state p"
proof -
  have inv: "interval_inv p"
    unfolding assms(1) useEngineStatus_def by (rule engine_hook.interval_inv_run [OF interval_inv_mount])
  then have "length (intervals p) \<le> 1" by (simp add: interval_inv_def split: option.splits)
  moreover have "t \<le> inFlight p" if "Response t r \<in> set (map (\<lambda>(t, r). Response t r) rs)" for t r
    using that assms(3) by auto
  ultimately show ?thesis using engine_hook.unmounted [OF inv assms(2)] by blast
qed

text \<open>
  A failed poll keeps the Tailscale node's last known status, an overtaken response does
  not replace it, and the response to the latest check does, with an unknown lifecycle word
  shown as starting.
\<close>

lemma tailscale_latest_known:
  assumes "\<forall>(t, r) \<in> set rs. t \<le> inFlight p"
  shows "pl_state (settle_seq (tailscale_settle td) (rs @ [(Suc (inFlight p), Inl e)]) (check_begin p)) = pl_state p
     \<and> pl_state (settle_seq (tailscale_settle td) (rs @ [(Suc (inFlight p), Inr resp)]) (check_begin p)) =
         tailscaleState td resp
     \<and> (gts_state resp \<notin> {''disabled'', ''starting'', ''running'', ''failed''} \<longrightarrow>
          tss_state (tailscaleState td resp) = TsStarting)"
  using tailscale.latest_wins_seq [OF assms, of td "Inl e"] tailscale.latest_wins_seq [OF assms, of td "Inr resp"]
  by (simp add: settle_seq_def tailscale_settle_def check_begin_def tailscaleState_def lifecycle_of_def)

text \<open>
  The Tailscale card is shown exactly for an enabled node, and it warns about the node key
  exactly when the key expires within seven days or has expired; it says expired exactly when
  the expiry lies in the past.
\<close>

lemma tailscale_card_warns:
  "(tailscaleStatusCard now st = [] \<longleftrightarrow> \<not> tss_enabled st)
   \<and> (expiryWarn now st \<noteq> [] \<longleftrightarrow> (\<exists>e. tss_keyExpiry st = Some e \<and> e < now + 7 * 86400000))
   \<and> (\<forall>e. tss_keyExpiry st = Some e \<and> e < now + 7 * 86400000 \<longrightarrow>
        (e < now \<longleftrightarrow> shown (expiryWarn now st) = [expiryText (- 1)]))"
proof -
  have days: "(e - now) div 86400000 < key_expiry_warn_days \<longleftrightarrow> e < now + 7 * 86400000" for e
    unfolding key_expiry_warn_days_def by linarith
  have neg: "(e - now) div 86400000 < 0 \<longleftrightarrow> e < now" for e by linarith
  have label: "expiryText d = expiryText (- 1) \<longleftrightarrow> d < 0" for d
    by (simp add: expiryText_def)
  show ?thesis
    by (auto simp: tailscaleStatusCard_def expiryWarn_def keyExpiryDays_def days neg label show_if_def
        split: option.splits)
qed

end
