(* ===== verification/Auth.thy ===== *)
theory Auth
  imports Wire_Messages
begin

text \<open>
  Authentication: the provider's state and operations (\<open>hooks/useAuth.tsx\<close>) and the two forms
  that call them (\<open>components/Login.tsx\<close>, \<open>components/Setup.tsx\<close>). The two entries the provider
  keeps in \<open>localStorage\<close> are part of the state; the user entry is kept as the object that
  \<open>JSON.stringify\<close> wrote and \<open>JSON.parse\<close> reads back. An operation is split at its awaits, and
  an exception it rethrows is returned beside the state.
\<close>

section \<open>The provider\<close>

record user =
  u_username :: string
  u_role :: string

record serverInfo =
  si_version :: string
  si_commit :: string
  si_buildDate :: string

record auth =
  a_user :: "user option"
  isAuthenticated :: bool
  a_isLoading :: bool
  needsSetup :: bool
  passkeyLoginEnabled :: bool
  a_serverInfo :: "serverInfo option"
  ls_user :: "user option"
  ls_token :: "string option"

text \<open>The initial state, from the entries found in \<open>localStorage\<close>.\<close>

definition auth_init :: "user option \<Rightarrow> string option \<Rightarrow> auth" where
  "auth_init stored token =
     \<lparr>a_user = stored, isAuthenticated = (case token of None \<Rightarrow> False | Some t \<Rightarrow> t \<noteq> []),
      a_isLoading = True, needsSetup = False, passkeyLoginEnabled = False, a_serverInfo = None,
      ls_user = stored, ls_token = token\<rparr>"

definition signed_in :: "user \<Rightarrow> auth \<Rightarrow> auth" where
  "signed_in u a =
     a\<lparr>a_user := Some u, isAuthenticated := True, ls_user := Some u, ls_token := Some ''session_active''\<rparr>"

definition signed_out :: "auth \<Rightarrow> auth" where
  "signed_out a = a\<lparr>a_user := None, isAuthenticated := False, ls_user := None, ls_token := None\<rparr>"

definition server_status :: "getServerStatusResponse rpc \<Rightarrow> auth \<Rightarrow> auth" where
  "server_status r a =
     (case r of
        Inr st \<Rightarrow>
          a\<lparr>needsSetup := ss_needsSetup st, passkeyLoginEnabled := ss_passkeyLoginEnabled st,
            a_serverInfo := Some \<lparr>si_version = ss_version st, si_commit = ss_commit st,
                                  si_buildDate = ss_buildDate st\<rparr>\<rparr>
      | Inl _ \<Rightarrow> a)"

definition checkAuth_status :: "getServerStatusResponse rpc \<Rightarrow> auth \<Rightarrow> auth" where
  "checkAuth_status r a = server_status r a"

definition says_unauthenticated :: "js_error \<Rightarrow> bool" where
  "says_unauthenticated e \<longleftrightarrow>
     is_unauthenticated e \<or> (is_Error e \<and> str_includes (toLowerCase (err_text e)) ''unauthenticated'')"

definition checkAuth_me :: "getMeResponse rpc \<Rightarrow> auth \<Rightarrow> auth" where
  "checkAuth_me r a =
     (let b = (case r of
                 Inr resp \<Rightarrow>
                   (let c = (if me_username resp \<noteq> []
                             then signed_in \<lparr>u_username = me_username resp, u_role = me_role resp\<rparr> a
                             else a)
                    in c\<lparr>needsSetup := False\<rparr>)
               | Inl e \<Rightarrow> if says_unauthenticated e then signed_out a else a)
      in b\<lparr>a_isLoading := False\<rparr>)"

definition auth_begin :: "auth \<Rightarrow> auth" where
  "auth_begin a = a\<lparr>a_isLoading := True\<rparr>"

definition user_of :: "loginResponse \<Rightarrow> user" where
  "user_of resp = \<lparr>u_username = lr_username resp, u_role = lr_role resp\<rparr>"

definition login_end :: "loginResponse rpc \<Rightarrow> auth \<Rightarrow> auth \<times> js_error option" where
  "login_end r a =
     (case r of
        Inr resp \<Rightarrow> ((signed_in (user_of resp) a)\<lparr>needsSetup := False, a_isLoading := False\<rparr>, None)
      | Inl e \<Rightarrow> ((signed_out a)\<lparr>a_isLoading := False\<rparr>, Some e))"

text \<open>
  The passkey ceremony: the challenge, its parsing, the browser's authenticator and the final
  call run in sequence, and the first failure ends it.
\<close>

definition passkey_ceremony ::
  "string rpc \<Rightarrow> (string \<Rightarrow> 'o rpc) \<Rightarrow> ('o \<Rightarrow> 'c rpc) \<Rightarrow> ('c \<Rightarrow> loginResponse rpc) \<Rightarrow> loginResponse rpc" where
  "passkey_ceremony beginResp parse webauthnGet finish =
     (case beginResp of
        Inl e \<Rightarrow> Inl e
      | Inr optionsJson \<Rightarrow>
          (case parse optionsJson of
             Inl e \<Rightarrow> Inl e
           | Inr options \<Rightarrow>
               (case webauthnGet options of
                  Inl e \<Rightarrow> Inl e
                | Inr credential \<Rightarrow> finish credential)))"

definition loginWithPasskey_end ::
  "string rpc \<Rightarrow> (string \<Rightarrow> 'o rpc) \<Rightarrow> ('o \<Rightarrow> 'c rpc) \<Rightarrow> ('c \<Rightarrow> loginResponse rpc) \<Rightarrow> auth \<Rightarrow> auth \<times> js_error option" where
  "loginWithPasskey_end beginResp parse webauthnGet finish a =
     (case passkey_ceremony beginResp parse webauthnGet finish of
        Inr resp \<Rightarrow> ((signed_in (user_of resp) a)\<lparr>needsSetup := False, a_isLoading := False\<rparr>, None)
      | Inl e \<Rightarrow> ((signed_out a)\<lparr>a_isLoading := False\<rparr>, Some e))"

text \<open>Setup: once the account exists \<open>needsSetup\<close> is cleared, before the login is tried.\<close>

definition setupAdmin_created :: "auth \<Rightarrow> auth" where
  "setupAdmin_created a = a\<lparr>needsSetup := False\<rparr>"

definition setupAdmin_end :: "loginResponse rpc \<Rightarrow> auth \<Rightarrow> auth \<times> js_error option" where
  "setupAdmin_end r a =
     (case r of
        Inr resp \<Rightarrow> ((signed_in (user_of resp) a)\<lparr>a_isLoading := False\<rparr>, None)
      | Inl e \<Rightarrow> ((signed_out a)\<lparr>a_isLoading := False\<rparr>, Some e))"

text \<open>Logout clears the session whether or not the call succeeds, then asks for the status.\<close>

definition logout_called :: "unit rpc \<Rightarrow> auth \<Rightarrow> auth" where
  "logout_called r a = signed_out a"

definition logout_end :: "getServerStatusResponse rpc \<Rightarrow> auth \<Rightarrow> auth" where
  "logout_end r a = (server_status r a)\<lparr>a_isLoading := False\<rparr>"

text \<open>What can happen to the provider, each the part of an operation between two awaits.\<close>

datatype auth_event =
    StatusArrives "getServerStatusResponse rpc"
  | MeArrives "getMeResponse rpc"
  | LoginStarts
  | LoginSettles "loginResponse rpc"
  | SetupCreates
  | SetupSettles "loginResponse rpc"
  | LogoutCalled "unit rpc"
  | LogoutSettles "getServerStatusResponse rpc"

fun auth_step :: "auth_event \<Rightarrow> auth \<Rightarrow> auth" where
  "auth_step (StatusArrives r) a = checkAuth_status r a"
| "auth_step (MeArrives r) a = checkAuth_me r a"
| "auth_step LoginStarts a = auth_begin a"
| "auth_step (LoginSettles r) a = fst (login_end r a)"
| "auth_step SetupCreates a = setupAdmin_created a"
| "auth_step (SetupSettles r) a = fst (setupAdmin_end r a)"
| "auth_step (LogoutCalled r) a = logout_called r a"
| "auth_step (LogoutSettles r) a = logout_end r a"

section \<open>The login form\<close>

record loginForm =
  lf_username :: string
  lf_password :: string
  lf_rememberMe :: bool
  lf_showPassword :: bool
  lf_error :: "string option"
  lf_isSubmitting :: bool
  lf_isPasskeySubmitting :: bool
  lf_usernameError :: "string option"
  lf_passwordError :: "string option"

definition loginForm_init :: loginForm where
  "loginForm_init =
     \<lparr>lf_username = '''', lf_password = '''', lf_rememberMe = False, lf_showPassword = False, lf_error = None,
      lf_isSubmitting = False, lf_isPasskeySubmitting = False, lf_usernameError = None, lf_passwordError = None\<rparr>"

definition username_error :: "string \<Rightarrow> string option" where
  "username_error u =
     (if trim u = [] then Some ''Username is required''
      else if length u < 3 then Some ''Username must be at least 3 characters''
      else None)"

definition login_validate :: "loginForm \<Rightarrow> loginForm \<times> bool" where
  "login_validate f =
     (let eu = username_error (lf_username f);
          ep = (if lf_password f = [] then Some ''Password is required''
                else if length (lf_password f) < 6 then Some ''Password must be at least 6 characters''
                else None)
      in (f\<lparr>lf_usernameError := eu, lf_passwordError := ep\<rparr>, eu = None \<and> ep = None))"

text \<open>Submitting: the arguments of the call to \<open>login\<close>, when the form is valid.\<close>

definition login_submit :: "loginForm \<Rightarrow> loginForm \<times> (string \<times> string \<times> bool) option" where
  "login_submit f =
     (let (g, ok) = login_validate (f\<lparr>lf_error := None\<rparr>)
      in if \<not> ok then (g, None)
         else (g\<lparr>lf_isSubmitting := True\<rparr>, Some (trim (lf_username g), lf_password g, lf_rememberMe g)))"

definition form_error :: "string \<Rightarrow> js_error \<Rightarrow> string" where
  "form_error fallback e =
     (case e of
        ConnectError c raw m \<Rightarrow> str_or raw m
      | PlainError m \<Rightarrow> str_or m fallback
      | Thrown s \<Rightarrow> str_or s fallback)"

definition login_settled :: "js_error option \<Rightarrow> loginForm \<Rightarrow> loginForm" where
  "login_settled thrown f =
     (let g = (case thrown of None \<Rightarrow> f
               | Some e \<Rightarrow> f\<lparr>lf_error := Some (form_error ''Invalid username or password'' e)\<rparr>)
      in g\<lparr>lf_isSubmitting := False\<rparr>)"

definition passkey_submit :: "loginForm \<Rightarrow> loginForm \<times> bool" where
  "passkey_submit f = (f\<lparr>lf_error := None, lf_isPasskeySubmitting := True\<rparr>, lf_rememberMe f)"

definition passkey_settled :: "js_error option \<Rightarrow> loginForm \<Rightarrow> loginForm" where
  "passkey_settled thrown f =
     (let g = (case thrown of None \<Rightarrow> f
               | Some e \<Rightarrow> f\<lparr>lf_error := Some (form_error ''Passkey authentication failed'' e)\<rparr>)
      in g\<lparr>lf_isPasskeySubmitting := False\<rparr>)"

definition set_login_username :: "string \<Rightarrow> loginForm \<Rightarrow> loginForm" where
  "set_login_username v f = f\<lparr>lf_username := v, lf_usernameError := None\<rparr>"

definition set_login_password :: "string \<Rightarrow> loginForm \<Rightarrow> loginForm" where
  "set_login_password v f = f\<lparr>lf_password := v, lf_passwordError := None\<rparr>"

definition set_login_rememberMe :: "bool \<Rightarrow> loginForm \<Rightarrow> loginForm" where
  "set_login_rememberMe b f = f\<lparr>lf_rememberMe := b\<rparr>"

definition toggle_login_password :: "loginForm \<Rightarrow> loginForm" where
  "toggle_login_password f = f\<lparr>lf_showPassword := \<not> lf_showPassword f\<rparr>"

datatype login_msg = PasskeyLogin | TogglePassword | RememberMe | SubmitLogin

definition opt_text :: "string option \<Rightarrow> 'm node list" where
  "opt_text e = (case e of None \<Rightarrow> [] | Some t \<Rightarrow> show_if (t \<noteq> []) [Text t])"

definition loginView :: "bool \<Rightarrow> loginForm \<Rightarrow> login_msg node list" where
  "loginView passkeys f =
     [Text ''dmanager'', Text ''Container Management Console'']
     @ opt_text (lf_error f)
     @ show_if passkeys
         [Button PasskeyLogin (lf_isSubmitting f \<or> lf_isPasskeySubmitting f) None
            [Text (if lf_isPasskeySubmitting f then ''Signing in with Passkey...'' else ''Sign in with Passkey'')],
          Text ''or sign in with password'']
     @ [Field ''username'' (lf_username f) (lf_isSubmitting f)] @ opt_text (lf_usernameError f)
     @ [Field ''password'' (lf_password f) (lf_isSubmitting f),
        Button TogglePassword (lf_isSubmitting f) None []] @ opt_text (lf_passwordError f)
     @ [Button RememberMe (lf_isSubmitting f) None [Text ''Remember me''],
        Button SubmitLogin (lf_isSubmitting f) None
          [Text (if lf_isSubmitting f then ''Authenticating...'' else ''Sign In'')]]"

section \<open>The setup form\<close>

record setupForm =
  sf_username :: string
  sf_password :: string
  sf_confirmPassword :: string
  sf_showPassword :: bool
  sf_error :: "string option"
  sf_isSubmitting :: bool
  sf_usernameError :: "string option"
  sf_passwordError :: "string option"
  sf_confirmError :: "string option"

definition setupForm_init :: setupForm where
  "setupForm_init =
     \<lparr>sf_username = [], sf_password = [], sf_confirmPassword = [], sf_showPassword = False, sf_error = None,
      sf_isSubmitting = False, sf_usernameError = None, sf_passwordError = None, sf_confirmError = None\<rparr>"

definition setup_validate :: "setupForm \<Rightarrow> setupForm \<times> bool" where
  "setup_validate f =
     (let eu = username_error (sf_username f);
          ep = (if sf_password f = [] then Some ''Password is required''
                else if length (sf_password f) < 12
                  then Some ''Password must be at least 12 characters (passphrases recommended)''
                else None);
          ec = (if sf_password f \<noteq> sf_confirmPassword f then Some ''Passwords do not match'' else None)
      in (f\<lparr>sf_usernameError := eu, sf_passwordError := ep, sf_confirmError := ec\<rparr>,
          eu = None \<and> ep = None \<and> ec = None))"

definition setup_submit :: "setupForm \<Rightarrow> setupForm \<times> (string \<times> string) option" where
  "setup_submit f =
     (let (g, ok) = setup_validate (f\<lparr>sf_error := None\<rparr>)
      in if \<not> ok then (g, None)
         else (g\<lparr>sf_isSubmitting := True\<rparr>, Some (trim (sf_username g), sf_password g)))"

definition setup_settled :: "js_error option \<Rightarrow> setupForm \<Rightarrow> setupForm" where
  "setup_settled thrown f =
     (let g = (case thrown of None \<Rightarrow> f
               | Some e \<Rightarrow>
                   f\<lparr>sf_error := Some (str_or (err_text e) ''Failed to initialize administrator account'')\<rparr>)
      in g\<lparr>sf_isSubmitting := False\<rparr>)"

definition set_setup_username :: "string \<Rightarrow> setupForm \<Rightarrow> setupForm" where
  "set_setup_username v f = f\<lparr>sf_username := v, sf_usernameError := None\<rparr>"

definition set_setup_password :: "string \<Rightarrow> setupForm \<Rightarrow> setupForm" where
  "set_setup_password v f = f\<lparr>sf_password := v, sf_passwordError := None\<rparr>"

definition set_setup_confirm :: "string \<Rightarrow> setupForm \<Rightarrow> setupForm" where
  "set_setup_confirm v f = f\<lparr>sf_confirmPassword := v, sf_confirmError := None\<rparr>"

definition toggle_setup_password :: "setupForm \<Rightarrow> setupForm" where
  "toggle_setup_password f = f\<lparr>sf_showPassword := \<not> sf_showPassword f\<rparr>"

datatype setup_msg = ToggleSetupPassword | SubmitSetup

definition setupView :: "setupForm \<Rightarrow> setup_msg node list" where
  "setupView f =
     [Text ''dmanager'', Text ''Initialize Administrator Account'', Text ''First-Time Setup Mode'']
     @ opt_text (sf_error f)
     @ [Field ''setup-username'' (sf_username f) (sf_isSubmitting f)] @ opt_text (sf_usernameError f)
     @ [Field ''setup-password'' (sf_password f) (sf_isSubmitting f),
        Button ToggleSetupPassword (sf_isSubmitting f) None []] @ opt_text (sf_passwordError f)
     @ [Field ''setup-confirm-password'' (sf_confirmPassword f) (sf_isSubmitting f)] @ opt_text (sf_confirmError f)
     @ [Button SubmitSetup (sf_isSubmitting f) None
          [Text (if sf_isSubmitting f then ''Initializing...'' else ''Create Admin Account'')]]"

lemmas [op_defs] =
  signed_in_def signed_out_def server_status_def checkAuth_status_def checkAuth_me_def auth_begin_def
  login_end_def setupAdmin_created_def setupAdmin_end_def logout_called_def logout_end_def

section \<open>Lemmas\<close>

text \<open>The state and \<open>localStorage\<close> tell the same, and a session has a user.\<close>

definition auth_coherent :: "auth \<Rightarrow> bool" where
  "auth_coherent a \<longleftrightarrow>
     a_user a = ls_user a \<and> (isAuthenticated a \<longleftrightarrow> ls_token a \<noteq> None)
     \<and> (isAuthenticated a \<longleftrightarrow> a_user a \<noteq> None) \<and> ls_token a \<noteq> Some []"

lemma auth_coherent_signed [simp]: "auth_coherent (signed_in u a)" "auth_coherent (signed_out a)"
  by (simp_all add: auth_coherent_def signed_in_def signed_out_def)

lemma auth_coherent_frame [simp]:
  "auth_coherent (a\<lparr>a_isLoading := b\<rparr>) = auth_coherent a" "auth_coherent (a\<lparr>needsSetup := b\<rparr>) = auth_coherent a"
  "auth_coherent (a\<lparr>passkeyLoginEnabled := b\<rparr>) = auth_coherent a"
  "auth_coherent (a\<lparr>a_serverInfo := i\<rparr>) = auth_coherent a"
  by (simp_all add: auth_coherent_def)

lemma auth_coherent_status [simp]: "auth_coherent (server_status r a) = auth_coherent a"
  by (simp add: server_status_def auth_coherent_def split: sum.splits)

lemma auth_coherent_step: "auth_coherent a \<Longrightarrow> auth_coherent (auth_step e a)"
  by (cases e)
    (simp_all add: checkAuth_status_def checkAuth_me_def auth_begin_def login_end_def setupAdmin_created_def
      setupAdmin_end_def logout_called_def logout_end_def Let_def split: sum.splits)

lemma auth_coherent_run: "auth_coherent a \<Longrightarrow> auth_coherent (fold auth_step es a)"
  by (induction es arbitrary: a) (auto simp: auth_coherent_step)

lemma username_error_None: "username_error u = None \<longleftrightarrow> trim u \<noteq> [] \<and> 3 \<le> length u"
  by (auto simp: username_error_def)

section \<open>Properties\<close>





text \<open>
  The length that is checked is that of the text as typed, while the trimmed text is submitted:
  a name padded with blanks passes the three-character rule with a single letter.
\<close>

lemma padded_name_passes:
  "username_error ''a  '' = None \<and> trim ''a  '' = ''a''"
  by code_simp

end
