(* ===== verification/Routes.thy ===== *)
theory Routes
  imports Auth Status_Poll
begin

text \<open>
  Navigation: the route guards (\<open>routes/router.tsx\<close>), the layout with its navigation
  (\<open>components/DashboardLayout.tsx\<close>), and the application shell that shows a loading screen or
  the router and re-runs the guards when the authentication state changes (\<open>App.tsx\<close>). A guard
  either lets the location through or redirects; following redirects is the router's documented
  behaviour. The shell also owns the life of the login form: the router is unmounted while an
  operation of the provider is loading.
\<close>

section \<open>Routes and guards\<close>

datatype route =
    DashboardRoute
  | LoginRoute
  | SetupRoute
  | LogsRoute
  | AuditLogsRoute
  | AdministrationIndex
  | AdministrationTab string
  | SettingsIndex
  | SettingsTab string

record routerContext =
  rc_isAuthenticated :: bool
  rc_needsSetup :: bool
  rc_user :: "user option"

definition context_of :: "auth \<Rightarrow> routerContext" where
  "context_of a = \<lparr>rc_isAuthenticated = isAuthenticated a, rc_needsSetup = needsSetup a, rc_user = a_user a\<rparr>"

definition is_admin :: "user option \<Rightarrow> bool" where
  "is_admin u = (case u of None \<Rightarrow> False | Some v \<Rightarrow> u_role v = ''admin'')"

text \<open>The first two tests of every protected route.\<close>

definition session_guard :: "routerContext \<Rightarrow> route option \<Rightarrow> route option" where
  "session_guard c rest =
     (if rc_needsSetup c then Some SetupRoute
      else if \<not> rc_isAuthenticated c then Some LoginRoute
      else rest)"

fun beforeLoad :: "routerContext \<Rightarrow> route \<Rightarrow> route option" where
  "beforeLoad c DashboardRoute = session_guard c None"
| "beforeLoad c LoginRoute =
     (if rc_needsSetup c then Some SetupRoute
      else if rc_isAuthenticated c then Some DashboardRoute else None)"
| "beforeLoad c SetupRoute =
     (if \<not> rc_needsSetup c
      then (if rc_isAuthenticated c then Some DashboardRoute else Some LoginRoute)
      else None)"
| "beforeLoad c LogsRoute = session_guard c None"
| "beforeLoad c AuditLogsRoute =
     session_guard c (if \<not> is_admin (rc_user c) then Some DashboardRoute else None)"
| "beforeLoad c AdministrationIndex = session_guard c (Some (AdministrationTab ''images''))"
| "beforeLoad c (AdministrationTab tab) =
     session_guard c
       (if tab \<noteq> ''images'' \<and> tab \<noteq> ''builder'' \<and> tab \<noteq> ''volumes'' \<and> tab \<noteq> ''networks''
        then Some (AdministrationTab ''images'') else None)"
| "beforeLoad c SettingsIndex = session_guard c (Some (SettingsTab ''general''))"
| "beforeLoad c (SettingsTab tab) =
     session_guard c
       (if tab \<noteq> ''general'' \<and> tab \<noteq> ''security'' then Some (SettingsTab ''general'') else None)"

text \<open>Following redirects; the fuel bounds their number.\<close>

fun navigate :: "nat \<Rightarrow> routerContext \<Rightarrow> route \<Rightarrow> route option" where
  "navigate fuel c r =
     (case beforeLoad c r of
        None \<Rightarrow> Some r
      | Some r' \<Rightarrow> (case fuel of 0 \<Rightarrow> None | Suc n \<Rightarrow> navigate n c r'))"

declare navigate.simps [simp del]

text \<open>The pages with the dashboard's layout, that is, all but the two public forms.\<close>

fun in_layout :: "route \<Rightarrow> bool" where
  "in_layout LoginRoute = False"
| "in_layout SetupRoute = False"
| "in_layout _ = True"

section \<open>The layout\<close>

definition initials :: "user option \<Rightarrow> string" where
  "initials u =
     (case u of None \<Rightarrow> ''US''
      | Some v \<Rightarrow> if u_username v \<noteq> [] then toUpperCase (take 2 (u_username v)) else ''US'')"

definition engine_label :: "engineStatus \<Rightarrow> string" where
  "engine_label s =
     (case s of Online \<Rightarrow> ''Engine online'' | Offline \<Rightarrow> ''No connection'' | EngineChecking \<Rightarrow> ''Checking'' @ ellipsis)"

datatype layout_msg = ToggleSidebar | CloseSidebar | GoTo route | Logout

record layout =
  isSidebarOpen :: bool

definition toggleSidebar :: "layout \<Rightarrow> layout" where
  "toggleSidebar l = l\<lparr>isSidebarOpen := \<not> isSidebarOpen l\<rparr>"

definition closeSidebar :: "layout \<Rightarrow> layout" where
  "closeSidebar l = l\<lparr>isSidebarOpen := False\<rparr>"

definition sidebarLinks :: "user option \<Rightarrow> layout_msg node list" where
  "sidebarLinks u =
     [Link ''/'' (Some (GoTo DashboardRoute)) [Text ''Containers''],
      Link ''/logs'' (Some (GoTo LogsRoute)) [Text ''System Logs''],
      Link ''/administration/$tab'' (Some (GoTo (AdministrationTab ''images''))) [Text ''Administration'']]
     @ show_if (is_admin u) [Link ''/audit-logs'' (Some (GoTo AuditLogsRoute)) [Text ''Audit Logs'']]
     @ [Link ''/settings/$tab'' (Some (GoTo (SettingsTab ''general''))) [Text ''Settings'']]"

definition userCard :: "user option \<Rightarrow> layout_msg node list" where
  "userCard u =
     [Text (initials u),
      Text (case u of None \<Rightarrow> ''Guest'' | Some v \<Rightarrow> str_or (u_username v) ''Guest''),
      Text (case u of None \<Rightarrow> ''viewer'' | Some v \<Rightarrow> str_or (u_role v) ''viewer''),
      Button Logout False (Some ''Sign Out'') []]"

definition dashboardLayout :: "auth \<Rightarrow> engineStatusState \<Rightarrow> layout_msg node list" where
  "dashboardLayout a engine =
     [Text ''dmanager'', Button ToggleSidebar False None [], Button CloseSidebar False None [],
      Box ''sidebar-menu'' (sidebarLinks (a_user a)),
      Box ''server-status-pill'' [Text (engine_label (es_status engine))],
      Box ''user-profile-card'' (userCard (a_user a))]
     @ (case a_serverInfo a of None \<Rightarrow> [] | Some i \<Rightarrow> [Text (si_version i)])"

section \<open>The application shell\<close>

text \<open>
  \<open>ap_key\<close> holds the dependencies of the effect that re-runs the guards, as of its last run:
  the loading flag and \<open>authStateKey\<close>. \<open>ap_form\<close> is the mounted login form, if the router
  shows the login page.
\<close>

record app =
  ap_auth :: auth
  ap_route :: route
  ap_key :: "bool \<times> bool \<times> bool"
  ap_form :: "loginForm option"

definition effect_key :: "auth \<Rightarrow> bool \<times> bool \<times> bool" where
  "effect_key a = (a_isLoading a, isAuthenticated a, needsSetup a)"

text \<open>The guards send a location somewhere in one hop (shown below), so one unit of fuel is enough.\<close>

definition resolve :: "routerContext \<Rightarrow> route \<Rightarrow> route" where
  "resolve c r = (case navigate 1 c r of Some r' \<Rightarrow> r' | None \<Rightarrow> r)"

text \<open>
  A render and its effect: while loading, the router (and a form it shows) is unmounted;
  otherwise, when a dependency changed, the guards run again; the login page mounts a fresh form.
\<close>

definition appRender :: "app \<Rightarrow> app" where
  "appRender p =
     (let a = ap_auth p;
          rerun = (effect_key a \<noteq> ap_key p \<and> \<not> a_isLoading a);
          r = (if rerun then resolve (context_of a) (ap_route p) else ap_route p);
          form = (if a_isLoading a \<or> r \<noteq> LoginRoute then None
                  else (case ap_form p of None \<Rightarrow> Some loginForm_init | Some f \<Rightarrow> Some f))
      in p\<lparr>ap_route := r, ap_key := effect_key a, ap_form := form\<rparr>)"

definition app_start :: "user option \<Rightarrow> string option \<Rightarrow> route \<Rightarrow> app" where
  "app_start stored token r =
     appRender \<lparr>ap_auth = auth_init stored token, ap_route = r, ap_key = (True, False, False), ap_form = None\<rparr>"

text \<open>
  The shell at work. What starts an operation needs the router to be shown; the parts of a
  running operation arrive while the loading screen is shown. A click on a link navigates, which
  runs the guards on the target.
\<close>

inductive app_step :: "app \<Rightarrow> app \<Rightarrow> bool" where
  start: "\<not> a_isLoading (ap_auth p) \<Longrightarrow>
     app_step p (appRender (p\<lparr>ap_auth := auth_begin (ap_auth p)\<rparr>))"
| running: "a_isLoading (ap_auth p) \<Longrightarrow>
     app_step p (appRender (p\<lparr>ap_auth := auth_step e (ap_auth p)\<rparr>))"
| goto: "\<not> a_isLoading (ap_auth p) \<Longrightarrow>
     app_step p (appRender (p\<lparr>ap_route := resolve (context_of (ap_auth p)) r\<rparr>))"

inductive_cases app_stepE [consumes 1, case_names start running goto]: "app_step p q"

text \<open>The login form as the user sees it: submitting it, and the outcome of the call.\<close>

definition submit_login :: "app \<Rightarrow> app" where
  "submit_login p =
     (case ap_form p of
        None \<Rightarrow> p
      | Some f \<Rightarrow>
          (case login_submit f of
             (g, None) \<Rightarrow> p\<lparr>ap_form := Some g\<rparr>
           | (g, Some _) \<Rightarrow> appRender (p\<lparr>ap_form := Some g, ap_auth := auth_begin (ap_auth p)\<rparr>)))"

text \<open>
  The continuation of \<open>handleSubmit\<close> belongs to the form that submitted; its updates have an
  effect only if that form is still mounted (\<open>None\<close> is an unmounted form).
\<close>

definition login_outcome :: "loginResponse rpc \<Rightarrow> app \<Rightarrow> app" where
  "login_outcome r p =
     (let (a, thrown) = login_end r (ap_auth p);
          form = map_option (login_settled thrown) (ap_form p)
      in appRender (p\<lparr>ap_auth := a, ap_form := form\<rparr>))"

section \<open>Lemmas\<close>

text \<open>A redirect leads to a location that is not redirected again.\<close>

lemma one_hop: "beforeLoad c r = Some r' \<Longrightarrow> beforeLoad c r' = None"
  by (cases r) (auto simp: session_guard_def split: if_splits)

lemma navigate_one: "navigate (Suc n) c r = Some (resolve c r)" "beforeLoad c (resolve c r) = None"
proof -
  have "navigate (Suc n) c r = Some (case beforeLoad c r of None \<Rightarrow> r | Some r' \<Rightarrow> r')" for n
    by (auto simp: navigate.simps [of "Suc n"] navigate.simps [of n] one_hop split: option.splits nat.splits)
  then show "navigate (Suc n) c r = Some (resolve c r)" "beforeLoad c (resolve c r) = None"
    by (auto simp: resolve_def one_hop split: option.splits)
qed

lemma resolve_id: "beforeLoad c r = None \<Longrightarrow> resolve c r = r"
  by (simp add: resolve_def navigate.simps)

text \<open>What the guards admit: the form the state calls for, or a page of the dashboard.\<close>

definition admissible :: "routerContext \<Rightarrow> route \<Rightarrow> bool" where
  "admissible c r \<longleftrightarrow>
     (if rc_needsSetup c then r = SetupRoute
      else if \<not> rc_isAuthenticated c then r = LoginRoute
      else in_layout r \<and> (if r = AuditLogsRoute then is_admin (rc_user c) else True)
           \<and> r \<noteq> AdministrationIndex \<and> r \<noteq> SettingsIndex)"

lemma admitted: "beforeLoad c r = None \<Longrightarrow> admissible c r"
  by (cases r) (auto simp: admissible_def session_guard_def split: if_splits)

definition app_inv :: "app \<Rightarrow> bool" where
  "app_inv p \<longleftrightarrow>
     ap_key p = effect_key (ap_auth p) \<and>
     (\<not> a_isLoading (ap_auth p) \<longrightarrow> beforeLoad (context_of (ap_auth p)) (ap_route p) = None)"

lemma app_inv_render:
  assumes "\<not> a_isLoading (ap_auth p) \<Longrightarrow> effect_key (ap_auth p) = ap_key p \<Longrightarrow>
      beforeLoad (context_of (ap_auth p)) (ap_route p) = None"
  shows "app_inv (appRender p)"
  using assms by (auto simp: app_inv_def appRender_def Let_def navigate_one)

lemma app_inv_start: "app_inv (app_start stored token r)"
  unfolding app_start_def by (rule app_inv_render) (simp add: auth_init_def)

lemma app_inv_step:
  assumes "app_step p q" and inv: "app_inv p"
  shows "app_inv q"
  using assms(1)
proof (cases rule: app_stepE)
  case start
  then show ?thesis by (auto intro!: app_inv_render simp: auth_begin_def)
next
  case (running e)
  with inv have "fst (ap_key p)" by (simp add: app_inv_def effect_key_def)
  then show ?thesis
    unfolding running(1) by (intro app_inv_render) (cases "ap_key p", simp add: effect_key_def)
next
  case (goto r)
  then show ?thesis by (auto intro!: app_inv_render simp: navigate_one)
qed

lemma app_inv_reach: "rtranclp app_step p q \<Longrightarrow> app_inv p \<Longrightarrow> app_inv q"
  by (induction rule: rtranclp_induct) (auto intro: app_inv_step)

section \<open>Properties\<close>

text \<open>
  Navigation ends, and ends somewhere admissible: from every location and in every
  authentication state, at most one redirect is followed, and the location reached is the setup
  form while a setup is needed, the login form without a session, and otherwise a page of the
  dashboard, the audit log only for an administrator. A location that is admissible is reached
  unchanged.
\<close>

lemma navigation_total:
  "\<exists>r'. navigate 1 c r = Some r' \<and> beforeLoad c r' = None
     \<and> (if rc_needsSetup c then r' = SetupRoute
        else if \<not> rc_isAuthenticated c then r' = LoginRoute
        else in_layout r' \<and> (if r' = AuditLogsRoute then is_admin (rc_user c) else True)
             \<and> r' \<noteq> AdministrationIndex \<and> r' \<noteq> SettingsIndex)
     \<and> (if beforeLoad c r = None then r' = r else True)"
proof -
  have "beforeLoad c (resolve c r) = None" by (rule navigate_one)
  moreover have "navigate 1 c r = Some (resolve c r)" using navigate_one(1) [of 0] by simp
  moreover have "if beforeLoad c r = None then resolve c r = r else True" by (simp add: resolve_id)
  ultimately show ?thesis using admitted [of c "resolve c r", unfolded admissible_def] by blast
qed



text \<open>
  The navigation offers what the guards admit: for a signed-in user, every link of the
  sidebar leads to a page that is shown without a redirect, and the audit log is linked exactly
  for administrators.
\<close>

lemma sidebar_links_admissible:
  assumes "isAuthenticated a" and "\<not> needsSetup a"
  shows "(GoTo r \<in> set (offered (dashboardLayout a engine)) \<longrightarrow> beforeLoad (context_of a) r = None)
     \<and> (GoTo AuditLogsRoute \<in> set (offered (dashboardLayout a engine)) \<longleftrightarrow> is_admin (a_user a))"
  using assms
  by (auto simp: dashboardLayout_def sidebarLinks_def userCard_def session_guard_def context_of_def
      split: option.splits if_splits)

section \<open>A failed login\<close>

text \<open>
  Starting a login raises the loading flag, the shell replaces the router by the loading screen,
  and the form that was submitted is unmounted. When the call fails, the form's \<open>catch\<close> sets its
  message on that unmounted form, while the shell mounts a fresh one: whatever the server
  answered, the user sees an empty form without a message.
\<close>

lemma failed_login_shows_no_message:
  assumes "ap_form p = Some f" "login_submit f = (g, Some call)" "\<not> a_isLoading (ap_auth p)"
    and "ap_route p = LoginRoute" "\<not> needsSetup (ap_auth p)"
  shows "ap_form (login_outcome (Inl e) (submit_login p)) = Some loginForm_init"
proof -
  have s: "ap_form (submit_login p) = None" "ap_auth (submit_login p) = auth_begin (ap_auth p)"
    "ap_route (submit_login p) = LoginRoute"
    using assms by (simp_all add: submit_login_def appRender_def Let_def auth_begin_def)
  have "resolve (context_of a) LoginRoute = LoginRoute" if "\<not> isAuthenticated a" "\<not> needsSetup a" for a
    using that by (intro resolve_id) (simp add: context_of_def)
  then show ?thesis
    using assms(5) by (simp add: login_outcome_def s login_end_def signed_out_def appRender_def Let_def auth_begin_def)
qed

end
