(* ===== verification/Admin_Resources.thy ===== *)
theory Admin_Resources
  imports Admin_Format Toasts Async_Contracts
begin

text \<open>
  The hook of the Administration page (\<open>hooks/useAdminResources.ts\<close>): the two fetch effects with
  their cancellation, the on-demand measurement of volume sizes, and the seven mutations. A
  mutation is split at its call. Its guard reads the flag of the render its closure belongs to
  (the first state argument), its updates go to the current state (the second); \<open>None\<close> says that
  the guard returned and no call was made.

  A fetch effect's \<open>cancelled\<close> flag is modelled by numbering the runs of the effect: a cleanup
  precedes every further run, so a run is cancelled exactly when it is not the latest.
\<close>

datatype adminResourceKind = ImagesKind | VolumesKind | NetworksKind | BuilderKind

datatype adminResourcesResult =
    ImagesResult "image list"
  | VolumesResult "volume list"
  | NetworksResult "network list"
  | BuilderResult getBuildCacheStatsResponse

datatype pruneScope = UnusedScope | DanglingScope | BuilderScope | VolumesScope | NetworksScope

record adm =
  adm_result :: "adminResourcesResult option"
  adm_isLoading :: bool
  adm_error :: "string option"
  refreshNonce :: nat
  deletingId :: "string option"
  deletingNetworkId :: "string option"
  pruning :: bool
  pruningScope :: "pruneScope option"
  pruningRecordId :: "string option"
  builderRecords :: "buildCacheRecord list"
  recordsLoading :: bool
  recordsError :: bool
  volumeUsage :: "getVolumeUsageResponse option"
  measuring :: bool
  fetchRun :: nat
  recordsRun :: nat
  effectDeps :: "(adminResourceKind \<times> nat) option"

definition adm_init :: adm where
  "adm_init =
     \<lparr>adm_result = None, adm_isLoading = True, adm_error = None, refreshNonce = 0, deletingId = None,
      deletingNetworkId = None, pruning = False, pruningScope = None, pruningRecordId = None,
      builderRecords = [], recordsLoading = False, recordsError = False, volumeUsage = None,
      measuring = False, fetchRun = 0, recordsRun = 0, effectDeps = None\<rparr>"

section \<open>Fetching\<close>

text \<open>The call the effect makes for a kind, and the tagged result it builds.\<close>

definition fetch_call ::
  "adminResourceKind \<Rightarrow> image list rpc \<Rightarrow> volume list rpc \<Rightarrow> network list rpc \<Rightarrow>
     getBuildCacheStatsResponse rpc \<Rightarrow> adminResourcesResult rpc" where
  "fetch_call kind listImages listVolumes listNetworks getBuildCacheStats =
     (case kind of
        ImagesKind \<Rightarrow> map_sum id ImagesResult listImages
      | VolumesKind \<Rightarrow> map_sum id VolumesResult listVolumes
      | NetworksKind \<Rightarrow> map_sum id NetworksResult listNetworks
      | BuilderKind \<Rightarrow> map_sum id BuilderResult getBuildCacheStats)"

definition fetchResources_begin :: "adm \<Rightarrow> adm" where
  "fetchResources_begin s = s\<lparr>adm_isLoading := True, adm_error := None, fetchRun := Suc (fetchRun s)\<rparr>"

definition fetchResources_end :: "nat \<Rightarrow> adminResourcesResult rpc \<Rightarrow> adm \<Rightarrow> adm" where
  "fetchResources_end run r s =
     (let cancelled = (run \<noteq> fetchRun s);
          s1 = (case r of
                  Inr next \<Rightarrow> if \<not> cancelled then s\<lparr>adm_result := Some next\<rparr> else s
                | Inl _ \<Rightarrow>
                    if \<not> cancelled
                    then s\<lparr>adm_error := Some ''Unable to connect to the Docker monitor backend.'', adm_result := None\<rparr>
                    else s)
      in if \<not> cancelled then s1\<lparr>adm_isLoading := False\<rparr> else s1)"

definition fetchRecords_begin :: "adm \<Rightarrow> adm" where
  "fetchRecords_begin s = s\<lparr>recordsLoading := True, recordsError := False, recordsRun := Suc (recordsRun s)\<rparr>"

definition fetchRecords_end :: "nat \<Rightarrow> buildCacheRecord list rpc \<Rightarrow> adm \<Rightarrow> adm" where
  "fetchRecords_end run r s =
     (let cancelled = (run \<noteq> recordsRun s);
          s1 = (case r of
                  Inr records \<Rightarrow> if \<not> cancelled then s\<lparr>builderRecords := records\<rparr> else s
                | Inl _ \<Rightarrow> if \<not> cancelled then s\<lparr>recordsError := True, builderRecords := []\<rparr> else s)
      in if \<not> cancelled then s1\<lparr>recordsLoading := False\<rparr> else s1)"

text \<open>
  After a render, both effects run when \<open>kind\<close> or the nonce changed. The records effect returns
  at once on the other tabs, but its cleanup has then cancelled the run before it.
\<close>

definition adm_effects :: "adminResourceKind \<Rightarrow> adm \<Rightarrow> adm" where
  "adm_effects kind s =
     (if effectDeps s = Some (kind, refreshNonce s) then s
      else let s1 = fetchResources_begin (s\<lparr>effectDeps := Some (kind, refreshNonce s)\<rparr>)
           in if kind = BuilderKind then fetchRecords_begin s1
              else s1\<lparr>recordsRun := Suc (recordsRun s1)\<rparr>)"

definition refresh :: "adm \<Rightarrow> adm" where
  "refresh s = s\<lparr>refreshNonce := Suc (refreshNonce s)\<rparr>"

section \<open>Mutations\<close>

definition deleteImage_begin :: "string \<Rightarrow> adm \<Rightarrow> adm \<Rightarrow> adm option" where
  "deleteImage_begin i r s = (if deletingId r \<noteq> None then None else Some (s\<lparr>deletingId := Some i\<rparr>))"

definition deleteImage_end :: "unit rpc \<Rightarrow> adm \<Rightarrow> adm \<times> toast_call list" where
  "deleteImage_end res s =
     (let s1 = s\<lparr>deletingId := None\<rparr>
      in case res of
           Inl e \<Rightarrow> (s1, [toast_error (''Failed to delete image: '' @ err_text e)])
         | Inr _ \<Rightarrow> (refresh s1, [toast_success ''Image deleted successfully.'']))"

definition scope_word :: "bool \<Rightarrow> string" where
  "scope_word danglingOnly = (if danglingOnly then ''dangling'' else ''unused'')"

definition pruneImages_begin :: "bool \<Rightarrow> adm \<Rightarrow> adm \<Rightarrow> adm option" where
  "pruneImages_begin danglingOnly r s =
     (if pruning r then None
      else Some (s\<lparr>pruning := True,
                   pruningScope := Some (if danglingOnly then DanglingScope else UnusedScope)\<rparr>))"

definition pruneImages_end :: "bool \<Rightarrow> pruneImagesResponse rpc \<Rightarrow> adm \<Rightarrow> adm \<times> toast_call list" where
  "pruneImages_end danglingOnly res s =
     (let s1 = s\<lparr>pruning := False, pruningScope := None\<rparr>
      in case res of
           Inl e \<Rightarrow> (s1, [toast_error (''Failed to prune images: '' @ err_text e)])
         | Inr resp \<Rightarrow>
             (let count = length (pim_imagesDeleted resp);
                  noun = (if count = 1 then ''image'' else ''images'')
              in (refresh s1,
                  [toast_success (''Reclaimed '' @ formatBytes (int (pim_spaceReclaimed resp)) True @ '' from ''
                     @ string_of_nat count @ '' '' @ scope_word danglingOnly @ '' '' @ noun @ ''.'')])))"

definition pruneBuildCache_begin :: "adm \<Rightarrow> adm \<Rightarrow> adm option" where
  "pruneBuildCache_begin r s =
     (if pruning r then None else Some (s\<lparr>pruning := True, pruningScope := Some BuilderScope\<rparr>))"

definition pruneBuildCache_end :: "pruneBuildCacheResponse rpc \<Rightarrow> adm \<Rightarrow> adm \<times> toast_call list" where
  "pruneBuildCache_end res s =
     (let s1 = s\<lparr>pruning := False, pruningScope := None\<rparr>
      in case res of
           Inl e \<Rightarrow> (s1, [toast_error (''Failed to prune build cache: '' @ err_text e)])
         | Inr resp \<Rightarrow>
             (let count = pbc_cachesDeleted resp; noun = (if count = 1 then ''record'' else ''records'')
              in (refresh s1,
                  [toast_success (''Reclaimed '' @ formatBytes (int (pbc_spaceReclaimed resp)) True @ '' from ''
                     @ string_of_nat count @ '' cache '' @ noun @ ''.'')])))"

definition pruneBuildCacheRecord_begin :: "string \<Rightarrow> adm \<Rightarrow> adm \<Rightarrow> adm option" where
  "pruneBuildCacheRecord_begin i r s =
     (if pruning r then None else Some (s\<lparr>pruning := True, pruningRecordId := Some i\<rparr>))"

definition pruneBuildCacheRecord_end :: "pruneBuildCacheRecordResponse rpc \<Rightarrow> adm \<Rightarrow> adm \<times> toast_call list" where
  "pruneBuildCacheRecord_end res s =
     (let s1 = s\<lparr>pruning := False, pruningRecordId := None\<rparr>
      in case res of
           Inl e \<Rightarrow> (s1, [toast_error (''Failed to delete cache record: '' @ err_text e)])
         | Inr resp \<Rightarrow>
             (let count = pbr_cachesDeleted resp; noun = (if count = 1 then ''record'' else ''records'')
              in (refresh s1,
                  [toast_success (''Deleted '' @ string_of_nat count @ '' cache '' @ noun @ '', reclaimed ''
                     @ formatBytes (int (pbr_spaceReclaimed resp)) True @ ''.'')])))"

definition measureVolumeUsage_begin :: "adm \<Rightarrow> adm \<Rightarrow> adm option" where
  "measureVolumeUsage_begin r s = (if measuring r then None else Some (s\<lparr>measuring := True\<rparr>))"

definition measureVolumeUsage_end :: "getVolumeUsageResponse rpc \<Rightarrow> adm \<Rightarrow> adm \<times> toast_call list" where
  "measureVolumeUsage_end res s =
     (case res of
        Inl e \<Rightarrow> (s\<lparr>measuring := False\<rparr>, [toast_error (''Failed to measure volume usage: '' @ err_text e)])
      | Inr resp \<Rightarrow> (s\<lparr>volumeUsage := Some resp, measuring := False\<rparr>, []))"

text \<open>At most three names are listed after the count.\<close>

definition names_suffix :: "nat \<Rightarrow> string list \<Rightarrow> string" where
  "names_suffix n names =
     (if 0 < n \<and> n \<le> 3 \<and> names \<noteq> [] then '' ('' @ join '', '' names @ '')'' else '''')"

definition pruneVolumes_begin :: "adm \<Rightarrow> adm \<Rightarrow> adm option" where
  "pruneVolumes_begin r s =
     (if pruning r then None else Some (s\<lparr>pruning := True, pruningScope := Some VolumesScope\<rparr>))"

text \<open>
  After a successful prune of volumes the measurement runs again if there was one, both tested
  on the render the handler was called in (\<open>r\<close>); the flag returned says that it was started.
\<close>

definition pruneVolumes_end ::
  "pruneVolumesResponse rpc \<Rightarrow> adm \<Rightarrow> adm \<Rightarrow> adm \<times> toast_call list \<times> bool" where
  "pruneVolumes_end res r s =
     (let s1 = s\<lparr>pruning := False, pruningScope := None\<rparr>
      in case res of
           Inl e \<Rightarrow> (s1, [toast_error (''Failed to prune volumes: '' @ err_text e)], False)
         | Inr resp \<Rightarrow>
             (let count = pv_volumesDeleted resp; noun = (if count = 1 then ''volume'' else ''volumes'');
                  msg = toast_success (''Reclaimed '' @ formatBytes (int (pv_spaceReclaimed resp)) True @ '' from ''
                          @ string_of_nat count @ '' unused '' @ noun @ names_suffix count (pv_names resp) @ ''.'');
                  s2 = refresh s1
              in if volumeUsage r \<noteq> None
                 then (case measureVolumeUsage_begin r s2 of
                         Some s3 \<Rightarrow> (s3, [msg], True)
                       | None \<Rightarrow> (s2, [msg], False))
                 else (s2, [msg], False)))"

definition deleteNetwork_begin :: "string \<Rightarrow> adm \<Rightarrow> adm \<Rightarrow> adm option" where
  "deleteNetwork_begin i r s =
     (if deletingNetworkId r \<noteq> None then None else Some (s\<lparr>deletingNetworkId := Some i\<rparr>))"

definition deleteNetwork_end :: "unit rpc \<Rightarrow> adm \<Rightarrow> adm \<times> toast_call list" where
  "deleteNetwork_end res s =
     (let s1 = s\<lparr>deletingNetworkId := None\<rparr>
      in case res of
           Inl e \<Rightarrow> (s1, [toast_error (''Failed to delete network: '' @ err_text e)])
         | Inr _ \<Rightarrow> (refresh s1, [toast_success ''Network deleted successfully.'']))"

definition pruneNetworks_begin :: "adm \<Rightarrow> adm \<Rightarrow> adm option" where
  "pruneNetworks_begin r s =
     (if pruning r then None else Some (s\<lparr>pruning := True, pruningScope := Some NetworksScope\<rparr>))"

definition pruneNetworks_end :: "pruneNetworksResponse rpc \<Rightarrow> adm \<Rightarrow> adm \<times> toast_call list" where
  "pruneNetworks_end res s =
     (let s1 = s\<lparr>pruning := False, pruningScope := None\<rparr>
      in case res of
           Inl e \<Rightarrow> (s1, [toast_error (''Failed to prune networks: '' @ err_text e)])
         | Inr resp \<Rightarrow>
             (let count = pn_networksDeleted resp; noun = (if count = 1 then ''network'' else ''networks'')
              in (refresh s1,
                  [toast_success (''Deleted '' @ string_of_nat count @ '' unused '' @ noun
                     @ names_suffix count (pn_names resp) @ ''.'')])))"

lemmas [op_defs] =
  deleteImage_begin_def deleteImage_end_def pruneImages_begin_def pruneImages_end_def
  pruneBuildCache_begin_def pruneBuildCache_end_def pruneBuildCacheRecord_begin_def
  pruneBuildCacheRecord_end_def measureVolumeUsage_begin_def measureVolumeUsage_end_def
  pruneVolumes_begin_def pruneVolumes_end_def deleteNetwork_begin_def deleteNetwork_end_def
  pruneNetworks_begin_def pruneNetworks_end_def refresh_def

section \<open>The fetch effect as a request counter\<close>

interpretation resources: ticketed fetchRun adm_result fetchResources_begin fetchResources_end
  by unfold_locales (simp_all add: fetchResources_begin_def fetchResources_end_def Let_def split: sum.splits)

interpretation records: ticketed recordsRun builderRecords fetchRecords_begin fetchRecords_end
  by unfold_locales (simp_all add: fetchRecords_begin_def fetchRecords_end_def Let_def split: sum.splits)

section \<open>Properties\<close>



text \<open>The seven mutations with the outcome of their call.\<close>

datatype mutation =
    ImageDeleted "unit rpc"
  | NetworkDeleted "unit rpc"
  | ImagesPruned bool "pruneImagesResponse rpc"
  | CachePruned "pruneBuildCacheResponse rpc"
  | RecordPruned "pruneBuildCacheRecordResponse rpc"
  | VolumesPruned "pruneVolumesResponse rpc"
  | NetworksPruned "pruneNetworksResponse rpc"

definition error_of :: "'a rpc \<Rightarrow> js_error option" where
  "error_of r = (case r of Inl e \<Rightarrow> Some e | Inr _ \<Rightarrow> None)"

fun failure :: "mutation \<Rightarrow> js_error option" where
  "failure (ImageDeleted r) = error_of r"
| "failure (NetworkDeleted r) = error_of r"
| "failure (ImagesPruned b r) = error_of r"
| "failure (CachePruned r) = error_of r"
| "failure (RecordPruned r) = error_of r"
| "failure (VolumesPruned r) = error_of r"
| "failure (NetworksPruned r) = error_of r"

text \<open>\<open>r\<close> is the render the handler was called in; the flag says that a measurement was started.\<close>

fun mutation_end :: "mutation \<Rightarrow> adm \<Rightarrow> adm \<Rightarrow> adm \<times> toast_call list \<times> bool" where
  "mutation_end (ImageDeleted x) r s = (case deleteImage_end x s of (s', ts) \<Rightarrow> (s', ts, False))"
| "mutation_end (NetworkDeleted x) r s = (case deleteNetwork_end x s of (s', ts) \<Rightarrow> (s', ts, False))"
| "mutation_end (ImagesPruned b x) r s = (case pruneImages_end b x s of (s', ts) \<Rightarrow> (s', ts, False))"
| "mutation_end (CachePruned x) r s = (case pruneBuildCache_end x s of (s', ts) \<Rightarrow> (s', ts, False))"
| "mutation_end (RecordPruned x) r s = (case pruneBuildCacheRecord_end x s of (s', ts) \<Rightarrow> (s', ts, False))"
| "mutation_end (VolumesPruned x) r s = pruneVolumes_end x r s"
| "mutation_end (NetworksPruned x) r s = (case pruneNetworks_end x s of (s', ts) \<Rightarrow> (s', ts, False))"

text \<open>The lock a mutation holds.\<close>

fun lock_free :: "mutation \<Rightarrow> adm \<Rightarrow> bool" where
  "lock_free (ImageDeleted x) s \<longleftrightarrow> deletingId s = None"
| "lock_free (NetworkDeleted x) s \<longleftrightarrow> deletingNetworkId s = None"
| "lock_free (RecordPruned x) s \<longleftrightarrow> \<not> pruning s \<and> pruningRecordId s = None"
| "lock_free _ s \<longleftrightarrow> \<not> pruning s \<and> pruningScope s = None"

lemma ends_with_text: "m = p @ q \<Longrightarrow> \<exists>p. m @ t = p @ q @ t"
  by auto

text \<open>
  Every mutation settles with exactly one toast and releases its lock. A success is
  reported as a success and re-fetches the list; a failure is reported with the error's text
  and does not re-fetch. The list, the other locks and the loaded data are not touched by it.
\<close>

lemma mutations_settle:
  "case mutation_end m r s of (s', ts, started) \<Rightarrow>
     lock_free m s' \<and> adm_result s' = adm_result s \<and> volumeUsage s' = volumeUsage s
     \<and> (case failure m of
          Some e \<Rightarrow> refreshNonce s' = refreshNonce s \<and> \<not> started
            \<and> (\<exists>p. ts = [toast_error (p @ err_text e)])
        | None \<Rightarrow> refreshNonce s' = Suc (refreshNonce s) \<and> (\<exists>msg. ts = [toast_success msg]))"
  by (cases m) (auto simp: op_defs Let_def error_of_def split: sum.splits)

section \<open>The measurement after a prune\<close>

text \<open>
  A prune of volumes re-runs the measurement when there was one, except when it was confirmed
  while a measurement was still running: the handler then holds the render in which the flag
  \<open>measuring\<close> was set, and the guard of the second measurement returns, even if the first one
  has settled meanwhile. The sizes on display then are those from before the prune.
\<close>

lemma measurement_rerun:
  "snd (snd (pruneVolumes_end (Inr resp) r s)) \<longleftrightarrow> volumeUsage r \<noteq> None \<and> \<not> measuring r"
  by (simp add: op_defs Let_def)

end
