(* ===== verification/Dialogs.thy ===== *)
theory Dialogs
  imports Dm_Prelude
begin

text \<open>
  The modal dialog (\<open>components/Dialog.tsx\<close>) and its confirmation variant
  (\<open>components/ConfirmDialog.tsx\<close>): what the keyboard does while it is open, where the focus goes
  when it opens and closes, and which of its buttons are enabled.

  Elements are numbered; \<open>cardRef\<close> is the dialog's card, \<open>focusables\<close> are the elements inside it
  that the selector finds, in document order. Where the handler does not prevent the default,
  the browser moves the focus (\<open>browser\<close>, an argument).
\<close>

section \<open>The dialog\<close>

datatype key = EscapeKey | TabKey bool | OtherKey string

datatype dialog_effect = CallsOnClose | FocusTo nat | BrowserDefault

text \<open>
  The keydown handler. \<open>contains\<close> says whether the card contains the active element (none is
  active when nothing has the focus).
\<close>

definition onKeyDown :: "nat option \<Rightarrow> nat list \<Rightarrow> (nat option \<Rightarrow> bool) \<Rightarrow> nat option \<Rightarrow> key \<Rightarrow> dialog_effect" where
  "onKeyDown cardRef focusables contains active k =
     (case k of
        EscapeKey \<Rightarrow> CallsOnClose
      | OtherKey s \<Rightarrow> BrowserDefault
      | TabKey shift \<Rightarrow>
          (case cardRef of
             None \<Rightarrow> BrowserDefault
           | Some c \<Rightarrow>
               if focusables = [] then FocusTo c
               else if shift
                 then (if active = Some (hd focusables) \<or> \<not> contains active
                       then FocusTo (last focusables) else BrowserDefault)
               else if active = Some (last focusables) \<or> \<not> contains active
                 then FocusTo (hd focusables)
               else BrowserDefault))"

record page_focus =
  pf_active :: "nat option"
  pf_restore :: "nat option"
  pf_scrollLock :: bool

text \<open>On open: remember the opener, lock the scroll, focus the marked button (or the first one).\<close>

definition dialog_open :: "nat option \<Rightarrow> nat list \<Rightarrow> nat \<Rightarrow> page_focus \<Rightarrow> page_focus" where
  "dialog_open marked focusables cardRef f =
     f\<lparr>pf_restore := pf_active f, pf_scrollLock := True,
       pf_active := Some (case marked of
          Some m \<Rightarrow> m
        | None \<Rightarrow> (case focusables of x # xs \<Rightarrow> x | [] \<Rightarrow> cardRef))\<rparr>"

text \<open>On close: unlock and give the focus back; without an opener it is left where it is.\<close>

definition dialog_close :: "page_focus \<Rightarrow> page_focus" where
  "dialog_close f =
     f\<lparr>pf_scrollLock := False,
       pf_active := (case pf_restore f of Some x \<Rightarrow> Some x | None \<Rightarrow> pf_active f)\<rparr>"

text \<open>One key while the dialog is open.\<close>

definition press ::
  "(bool \<Rightarrow> nat option \<Rightarrow> nat option) \<Rightarrow> nat \<Rightarrow> nat list \<Rightarrow> bool \<Rightarrow> page_focus \<Rightarrow> page_focus" where
  "press browser cardRef focusables shift f =
     (case onKeyDown (Some cardRef) focusables (\<lambda>a. case a of None \<Rightarrow> False | Some x \<Rightarrow> x = cardRef \<or> x \<in> set focusables)
             (pf_active f) (TabKey shift) of
        FocusTo x \<Rightarrow> f\<lparr>pf_active := Some x\<rparr>
      | BrowserDefault \<Rightarrow> f\<lparr>pf_active := browser shift (pf_active f)\<rparr>
      | CallsOnClose \<Rightarrow> f)"

text \<open>A press on the backdrop dismisses, one that bubbles up from the card does not.\<close>

definition onMouseDown :: "nat \<Rightarrow> nat \<Rightarrow> dialog_effect" where
  "onMouseDown currentTarget clicked = (if clicked = currentTarget then CallsOnClose else BrowserDefault)"

datatype focus_mark = ConfirmFocus | CancelFocus

record 'm dialogProps =
  dp_open :: bool
  dp_onClose :: 'm
  dp_title :: string
  dp_description :: string
  dp_children :: "'m node list"
  dp_footer :: "'m node list"
  dp_initialFocus :: focus_mark

text \<open>Nothing while closed; otherwise the card with title, description, children and footer.\<close>

definition dialog :: "'m dialogProps \<Rightarrow> 'm node list" where
  "dialog props =
     (if \<not> dp_open props then []
      else [Box ''dialog-card''
        ([Text (dp_title props)] @ show_if (dp_description props \<noteq> []) [Text (dp_description props)]
         @ dp_children props @ dp_footer props)])"

section \<open>The confirmation\<close>

definition requestClose :: "bool \<Rightarrow> ('s \<Rightarrow> 's) \<Rightarrow> 's \<Rightarrow> 's" where
  "requestClose busy onClose s = (if \<not> busy then onClose s else s)"

text \<open>
  A confirmation dialog: a dialog with the message and two buttons. The backdrop dismisses like the
  cancel button. Every one in the pages is of the dangerous variant, which opens with the focus on
  cancel (\<open>initialFocus\<close>).
\<close>

definition confirmDialog ::
  "bool \<Rightarrow> 'm \<Rightarrow> 'm \<Rightarrow> string \<Rightarrow> string \<Rightarrow> string \<Rightarrow> bool \<Rightarrow> 'm node list" where
  "confirmDialog isOpen onClose onConfirm title message confirmLabel busy =
     dialog \<lparr>dp_open = isOpen, dp_onClose = onClose, dp_title = title, dp_description = message, dp_children = [],
             dp_footer = [Button onClose busy None [Text ''Cancel''], Button onConfirm busy None [Text confirmLabel]],
             dp_initialFocus = CancelFocus\<rparr>"

definition initialFocus :: "bool \<Rightarrow> nat \<Rightarrow> nat \<Rightarrow> nat" where
  "initialFocus danger cancel confirm = (if danger then cancel else confirm)"

section \<open>Lemmas\<close>

lemma offered_confirmDialog:
  "offered (confirmDialog isOpen a b t m l busy) = (if isOpen \<and> \<not> busy then [a, b] else [])"
  by (simp add: confirmDialog_def dialog_def)

text \<open>A browser's own Tab: from an element that is not the last it goes to the next one.\<close>

definition sequential :: "(bool \<Rightarrow> nat option \<Rightarrow> nat option) \<Rightarrow> nat \<Rightarrow> nat list \<Rightarrow> bool" where
  "sequential browser cardRef fs \<longleftrightarrow>
     (\<forall>i. Suc i < length fs \<longrightarrow>
        browser False (Some (fs ! i)) = Some (fs ! Suc i) \<and> browser True (Some (fs ! Suc i)) = Some (fs ! i))
     \<and> browser False (Some cardRef) = Some (hd fs)"

lemma press_stays:
  assumes "sequential browser cardRef fs" "fs \<noteq> []" "pf_active f \<noteq> Some cardRef \<or> \<not> shift"
  shows "\<exists>x \<in> set fs. pf_active (press browser cardRef fs shift f) = Some x"
proof (cases "pf_active f")
  case None
  then show ?thesis using assms(2) by (auto simp: press_def onKeyDown_def)
next
  case (Some a)
  show ?thesis
  proof (cases "a \<in> set fs")
    case False
    then show ?thesis using Some assms
      by (auto simp: press_def onKeyDown_def sequential_def hd_in_set last_in_set)
  next
    case True
    then obtain i where i: "i < length fs" "a = fs ! i" by (metis in_set_conv_nth)
    show ?thesis
    proof (cases shift)
      case True
      show ?thesis
      proof (cases i)
        case 0
        then show ?thesis using Some i True assms(2) by (auto simp: press_def onKeyDown_def hd_conv_nth)
      next
        case (Suc j)
        then have "browser True (Some a) = Some (fs ! j)" "j < length fs"
          using assms(1) i by (auto simp: sequential_def)
        then show ?thesis using Some True assms(2) \<open>a \<in> set fs\<close> by (auto simp: press_def onKeyDown_def)
      qed
    next
      case False
      show ?thesis
      proof (cases "Suc i = length fs")
        case True
        then have "a = last fs" using i assms(2) by (metis diff_Suc_1 last_conv_nth)
        then show ?thesis using Some False assms(2) by (auto simp: press_def onKeyDown_def)
      next
        case more: False
        then have "browser False (Some a) = Some (fs ! Suc i)" "Suc i < length fs"
          using assms(1) i by (auto simp: sequential_def)
        then show ?thesis using Some False assms(2) \<open>a \<in> set fs\<close> by (auto simp: press_def onKeyDown_def)
      qed
    qed
  qed
qed

lemma presses_stay:
  assumes "sequential browser cardRef fs" "fs \<noteq> []" "cardRef \<notin> set fs" "pf_active f \<noteq> Some cardRef"
  shows "pf_active (fold (press browser cardRef fs) shifts f) \<noteq> Some cardRef"
  using assms(4)
proof (induction shifts arbitrary: f)
  case (Cons b shifts)
  obtain x where "x \<in> set fs" "pf_active (press browser cardRef fs b f) = Some x"
    using press_stays [OF assms(1,2), of f b] Cons.prems by blast
  with assms(3) have "pf_active (press browser cardRef fs b f) \<noteq> Some cardRef" by auto
  then show ?case using Cons.IH by simp
qed simp

section \<open>Properties\<close>



text \<open>
  The trap has one gap. The card itself can get the focus (it has \<open>tabIndex\<close> -1, so a click on
  its text focuses it); it contains itself and is not the first control, so Shift-Tab is then
  left to the browser, which goes back to what precedes the dialog in the document.
\<close>

lemma shift_tab_on_card_is_not_trapped:
  assumes "fs \<noteq> []" "cardRef \<notin> set fs" "pf_active f = Some cardRef"
  shows "pf_active (press browser cardRef fs True f) = browser True (Some cardRef)"
  using assms by (auto simp: press_def onKeyDown_def)

end
