(* ===== verification/Admin_Views.thy ===== *)
theory Admin_Views
  imports Admin_Resources Dialogs Status_Poll Status_Poll
begin

text \<open>
  The Administration page (\<open>components/Administration.tsx\<close>) with its tables
  (\<open>ImageTable.tsx\<close>, \<open>NetworkTable.tsx\<close>, \<open>VolumeTable.tsx\<close>, \<open>BuilderRecords.tsx\<close>), the builder panel
  (\<open>Builder.tsx\<close>), the tab bar (\<open>PageTabs.tsx\<close>) and the sort buttons (\<open>SortButton.tsx\<close>): what they
  render, which controls they enable, and the page as a step relation in which a click needs an
  enabled control of the last rendered view.

  Arguments of the views: the current time, the locale's date text, and the row order of the
  third-party table library.
\<close>

section \<open>Messages\<close>

datatype sortDir = Asc | Desc

datatype adm_msg =
    RefreshClick
  | TabClick string
  | SortClick string bool
  | ArmPrune pruneScope
  | ConfirmPrune
  | CancelPrune
  | ArmRecord buildCacheRecord
  | ConfirmRecord
  | CancelRecord
  | MeasureClick
  | ArmImage image
  | ConfirmImage
  | CancelImage
  | ArmNetwork network
  | ConfirmNetwork
  | CancelNetwork

text \<open>The sort button toggles: \<open>toggleSorting(desc)\<close> with \<open>desc\<close> when the column is ascending.\<close>

definition sortButton :: "string \<Rightarrow> sortDir option \<Rightarrow> string \<Rightarrow> adm_msg node" where
  "sortButton col isSorted label = Button (SortClick col (isSorted = Some Asc)) False None [Text label]"

text \<open>A sorting state: at most one column, with its direction.\<close>

type_synonym sorting = "(string \<times> sortDir) option"

definition getIsSorted :: "sorting \<Rightarrow> string \<Rightarrow> sortDir option" where
  "getIsSorted st col = (case st of None \<Rightarrow> None | Some (c, d) \<Rightarrow> if c = col then Some d else None)"

definition headers :: "sorting \<Rightarrow> (string \<times> string) list \<Rightarrow> adm_msg node list" where
  "headers st cols = map (\<lambda>(c, l). sortButton c (getIsSorted st c) l) cols"

section \<open>The image table\<close>

definition firstTag :: "image \<Rightarrow> string option" where
  "firstTag i = (case img_repoTags i of [] \<Rightarrow> None | t # ts \<Rightarrow> Some t)"

definition repoTagLabel :: "image \<Rightarrow> string" where
  "repoTagLabel i = (case splitRepoTag (firstTag i) of (repository, tag) \<Rightarrow> repository @ '':'' @ tag)"

definition countCell :: "int \<Rightarrow> string" where
  "countCell n = (if n < 0 then em_dash else string_of_int n)"

definition imageActions :: "bool \<Rightarrow> string option \<Rightarrow> image \<Rightarrow> adm_msg node" where
  "imageActions isAdmin deleting i =
     (if img_containersCount i \<noteq> 0 then Text em_dash
      else Button (ArmImage i) (\<not> isAdmin \<or> deleting \<noteq> None)
             (Some (if isAdmin then ''Delete image'' else ''Admin required'')) [])"

definition imageRow :: "int \<Rightarrow> bool \<Rightarrow> string option \<Rightarrow> image \<Rightarrow> adm_msg node" where
  "imageRow now isAdmin deleting i =
     (case splitRepoTag (firstTag i) of (repository, tag) \<Rightarrow>
        Box ''container-table-row''
          [Text repository, Text tag, Text (formatShortId (img_id i)), Text (formatBytes (img_sizeBytes i) False),
           Text (formatRelativeUnix now (img_createdUnix i)), Text (countCell (img_containersCount i)),
           imageActions isAdmin deleting i])"

definition imageDialogMessage :: "image \<Rightarrow> string" where
  "imageDialogMessage i =
     ''Image '' @ repoTagLabel i @ '' ('' @ formatShortId (img_id i)
     @ '') will be permanently removed from the host. This cannot be undone.''"

definition imageTable ::
  "int \<Rightarrow> (image list \<Rightarrow> image list) \<Rightarrow> sorting \<Rightarrow> bool \<Rightarrow> string option \<Rightarrow> image option \<Rightarrow>
     image list \<Rightarrow> adm_msg node list" where
  "imageTable now order st isAdmin deleting pendingDelete images =
     headers st [(''repository'', ''Repository''), (''tag'', ''Tag'')] @ [Text ''Image ID'']
     @ headers st [(''size'', ''Size''), (''created'', ''Created''), (''inUse'', ''In Use'')] @ [Text ''Actions'']
     @ map (imageRow now isAdmin deleting) (order images)
     @ show_if (images = [])
         [Text ''No Images Found'', Text ''No Docker images present on the host system.'']
     @ (case pendingDelete of
          None \<Rightarrow> []
        | Some i \<Rightarrow> confirmDialog True CancelImage ConfirmImage ''Delete image?'' (imageDialogMessage i) ''Delete''
                     (deleting = Some (img_id i)))"

section \<open>The network table\<close>

definition networkActions :: "bool \<Rightarrow> string option \<Rightarrow> network \<Rightarrow> adm_msg node" where
  "networkActions isAdmin deleting n =
     (if \<not> isAdmin \<or> net_containersCount n \<noteq> 0 \<or> net_predefined n then Text em_dash
      else Button (ArmNetwork n) (\<not> isAdmin \<or> deleting \<noteq> None) (Some ''Delete network'') [])"

definition inUseCell :: "int \<Rightarrow> string" where
  "inUseCell c = (if c < 0 then em_dash else if c > 0 then ''Yes'' else ''No'')"

definition networkRow :: "(int \<Rightarrow> string) \<Rightarrow> bool \<Rightarrow> string option \<Rightarrow> network \<Rightarrow> adm_msg node" where
  "networkRow fmt isAdmin deleting n =
     Box ''container-table-row''
       ([Text (net_name n)] @ show_if (isDefaultNetwork (net_name n)) [Text ''system'']
        @ [Text (formatShortId (net_id n)), Text (net_driver n), Text (net_scope n),
           Text (if net_internal n then ''Yes'' else ''No''), Text (inUseCell (net_containersCount n)),
           Text (formatTimestamp fmt (net_createdAt n)), networkActions isAdmin deleting n])"

definition networkDialogMessage :: "network \<Rightarrow> string" where
  "networkDialogMessage n =
     ''Network '' @ net_name n @ '' ('' @ net_driver n
     @ '') will be permanently removed from the host. This cannot be undone.''"

definition networkTable ::
  "(int \<Rightarrow> string) \<Rightarrow> (network list \<Rightarrow> network list) \<Rightarrow> sorting \<Rightarrow> bool \<Rightarrow> string option \<Rightarrow> network option \<Rightarrow>
     network list \<Rightarrow> adm_msg node list" where
  "networkTable fmt order st isAdmin deleting pendingDelete networks =
     headers st [(''name'', ''Network'')] @ [Text ''ID'']
     @ headers st [(''driver'', ''Driver''), (''scope'', ''Scope''), (''internal'', ''Internal''),
                   (''inUse'', ''In Use''), (''createdAt'', ''Created'')] @ [Text ''Actions'']
     @ map (networkRow fmt isAdmin deleting) (order networks)
     @ show_if (networks = [])
         [Text ''No Networks Found'', Text ''No Docker networks present on the host system.'']
     @ (case pendingDelete of
          None \<Rightarrow> []
        | Some n \<Rightarrow> confirmDialog True CancelNetwork ConfirmNetwork ''Delete network?'' (networkDialogMessage n)
                     ''Delete'' (deleting = Some (net_id n)))"

section \<open>The volume table\<close>

text \<open>The index of measured sizes: a later entry of the same name replaces an earlier one.\<close>

definition volumeUsageIndex :: "getVolumeUsageResponse option \<Rightarrow> (string \<Rightarrow> volumeUsageRow option) option" where
  "volumeUsageIndex u = map_option (\<lambda>r. map_of (rev (map (\<lambda>v. (vu_name v, v)) (gvu_volumes r)))) u"

definition sizeCell :: "(string \<Rightarrow> volumeUsageRow option) option \<Rightarrow> volume \<Rightarrow> string" where
  "sizeCell usage v =
     (case usage of
        None \<Rightarrow> em_dash
      | Some m \<Rightarrow> (case m (vol_name v) of
                     None \<Rightarrow> em_dash
                   | Some x \<Rightarrow> if vu_sizeBytes x < 0 then em_dash else formatBytes (vu_sizeBytes x) False))"

definition labelCells :: "volume \<Rightarrow> string list" where
  "labelCells v = (if vol_labels v = [] then [em_dash] else map (\<lambda>(k, x). k @ ''='' @ x) (vol_labels v))"

definition volumeRow :: "(int \<Rightarrow> string) \<Rightarrow> (string \<Rightarrow> volumeUsageRow option) option \<Rightarrow> volume \<Rightarrow> adm_msg node" where
  "volumeRow fmt usage v =
     Box ''container-table-row''
       ([Text (vol_name v), Text (vol_driver v), Text (vol_mountpoint v),
         Text (formatTimestamp fmt (vol_createdAt v)), Text (sizeCell usage v)] @ map Text (labelCells v))"

definition volumeTable ::
  "(int \<Rightarrow> string) \<Rightarrow> (volume list \<Rightarrow> volume list) \<Rightarrow> sorting \<Rightarrow> (string \<Rightarrow> volumeUsageRow option) option \<Rightarrow>
     volume list \<Rightarrow> adm_msg node list" where
  "volumeTable fmt order st usage volumes =
     headers st [(''name'', ''Volume''), (''driver'', ''Driver''), (''mountpoint'', ''Mountpoint''),
                 (''createdAt'', ''Created'')] @ [Text ''Size'', Text ''Labels'']
     @ map (volumeRow fmt usage) (order volumes)
     @ show_if (volumes = [])
         [Text ''No Volumes Found'', Text ''No Docker volumes present on the host system.'']"

section \<open>The builder tab\<close>

definition statCard :: "string option \<Rightarrow> string \<Rightarrow> adm_msg node" where
  "statCard v label = Box ''stat-card'' [Text (case v of None \<Rightarrow> ''--'' | Some t \<Rightarrow> t), Text label]"

definition builderPanel :: "getBuildCacheStatsResponse option \<Rightarrow> bool \<Rightarrow> bool \<Rightarrow> bool \<Rightarrow> adm_msg node list" where
  "builderPanel stats isAdmin busy builderPruning =
     [statCard (map_option (\<lambda>s. formatBytes (int (bcs_totalBytes s)) True) stats) ''Build Cache'',
      statCard (map_option (\<lambda>s. formatBytes (int (bcs_reclaimableBytes s)) True) stats) ''Reclaimable'',
      statCard (map_option (\<lambda>s. string_of_nat (bcs_recordCount s)) stats) ''Records'',
      Button (ArmPrune BuilderScope)
        (busy \<or> \<not> isAdmin \<or> (case stats of None \<Rightarrow> True | Some s \<Rightarrow> bcs_reclaimableBytes s = 0))
        (if \<not> isAdmin then Some ''Admin role required''
         else case stats of
                Some s \<Rightarrow> if bcs_reclaimableBytes s = 0 then Some ''No build cache to prune'' else None
              | None \<Rightarrow> None)
        [Text (if builderPruning then ''Pruning'' @ ellipsis else ''Prune Build Cache'')]]"

definition relativeLastUsed :: "int \<Rightarrow> timestamp option \<Rightarrow> string" where
  "relativeLastUsed now t = (case t of None \<Rightarrow> ''never'' | Some x \<Rightarrow> formatRelativeUnix now (ts_seconds x))"

definition recordRow :: "int \<Rightarrow> bool \<Rightarrow> bool \<Rightarrow> buildCacheRecord \<Rightarrow> adm_msg node" where
  "recordRow now isAdmin busy x =
     Box ''container-table-row''
       ([Text (formatBytes (int (bcr_sizeBytes x)) False), Text (str_or (bcr_type x) ''unknown''),
         Text (str_or (bcr_description x) em_dash)]
        @ show_if (bcr_inUse x) [Text ''In use''] @ show_if (bcr_shared x) [Text ''Shared'']
        @ [Text (relativeLastUsed now (bcr_lastUsedAt x)), Text (string_of_nat (bcr_usageCount x)),
           Button (ArmRecord x) (\<not> isAdmin \<or> busy \<or> bcr_inUse x)
             (Some (if \<not> isAdmin then ''Admin role required''
                    else if bcr_inUse x then ''Record is in use'' else ''Delete cache record'')) []])"

definition builderRecordsView ::
  "int \<Rightarrow> buildCacheRecord list \<Rightarrow> bool \<Rightarrow> bool \<Rightarrow> bool \<Rightarrow> bool \<Rightarrow> adm_msg node list" where
  "builderRecordsView now records loading err isAdmin busy =
     (if loading
      then [Text (''Loading Records'' @ ellipsis), Text ''Fetching the daemon's build cache records.'']
      else if err
      then [Text ''Unable to Load Records'',
            Text ''The build cache records could not be read. The stats above remain accurate.'']
      else map (recordRow now isAdmin busy) records
           @ show_if (records = []) [Text ''No Build Cache Records'', Text ''The builder's cache is empty.''])"

section \<open>The page\<close>

text \<open>
  The page's own state, the two tables' pending deletions, and the render in which the prune that
  is in flight was started (the values its continuation has in its closure).
\<close>

record adm_page =
  pg :: adm
  pendingPrune :: "pruneScope option"
  pendingRecord :: "buildCacheRecord option"
  imagePending :: "image option"
  networkPending :: "network option"
  pruneClosure :: "adm option"

definition page_init :: adm_page where
  "page_init =
     \<lparr>pg = adm_init, pendingPrune = None, pendingRecord = None, imagePending = None, networkPending = None,
      pruneClosure = None\<rparr>"

definition tab_of :: "string option \<Rightarrow> adminResourceKind" where
  "tab_of routeTab =
     (if routeTab = Some ''volumes'' then VolumesKind
      else if routeTab = Some ''networks'' then NetworksKind
      else if routeTab = Some ''builder'' then BuilderKind
      else ImagesKind)"

definition pageTabs :: "adm_msg node list" where
  "pageTabs =
     [Link ''/administration/$tab'' (Some (TabClick ''images'')) [Text ''Images''],
      Link ''/administration/$tab'' (Some (TabClick ''builder'')) [Text ''Builder''],
      Link ''/administration/$tab'' (Some (TabClick ''volumes'')) [Text ''Volumes''],
      Link ''/administration/$tab'' (Some (TabClick ''networks'')) [Text ''Networks'']]"

definition page_imageStats :: "adm \<Rightarrow> imageStats option" where
  "page_imageStats s = (case adm_result s of Some (ImagesResult imgs) \<Rightarrow> Some (deriveImageStats imgs) | _ \<Rightarrow> None)"

definition page_buildStats :: "adm \<Rightarrow> getBuildCacheStatsResponse option" where
  "page_buildStats s = (case adm_result s of Some (BuilderResult b) \<Rightarrow> Some b | _ \<Rightarrow> None)"

definition unusedNetworks :: "adm \<Rightarrow> network list" where
  "unusedNetworks s =
     (case adm_result s of
        Some (NetworksResult ns) \<Rightarrow> filter (\<lambda>n. net_containersCount n = 0 \<and> \<not> net_predefined n) ns
      | _ \<Rightarrow> [])"

definition hasUnknownNetworkUsage :: "adm \<Rightarrow> bool" where
  "hasUnknownNetworkUsage s =
     (case adm_result s of Some (NetworksResult ns) \<Rightarrow> list_ex (\<lambda>n. net_containersCount n < 0) ns | _ \<Rightarrow> False)"

definition pruneButton ::
  "pruneScope \<Rightarrow> bool \<Rightarrow> bool \<Rightarrow> string \<Rightarrow> string \<Rightarrow> adm \<Rightarrow> bool \<Rightarrow> adm_msg node" where
  "pruneButton scope isAdmin emptyScope emptyTitle label s noData =
     Button (ArmPrune scope) (pruning s \<or> \<not> isAdmin \<or> noData \<or> emptyScope)
       (if \<not> isAdmin then Some ''Admin role required'' else if emptyScope then Some emptyTitle else None)
       [Text (if pruningScope s = Some scope then ''Pruning'' @ ellipsis else label)]"

definition imagesHeader :: "bool \<Rightarrow> adm \<Rightarrow> adm_msg node list" where
  "imagesHeader isAdmin s =
     (let st = page_imageStats s;
          none = (st = None);
          zero = (\<lambda>f. case st of None \<Rightarrow> False | Some x \<Rightarrow> f x = (0::int))
      in [statCard (map_option (\<lambda>x. formatBytes (st_totalBytes x) True) st) ''Total Space Used'',
          statCard (map_option (\<lambda>x. formatBytes (st_freeableBytes x) True) st) ''Freeable Space'',
          statCard (map_option (\<lambda>x. string_of_nat (st_imageCount x)) st) ''Images'',
          statCard (map_option (\<lambda>x. string_of_nat (st_unusedCount x)) st) ''Unused'',
          statCard (map_option (\<lambda>x. string_of_nat (st_danglingCount x)) st) ''Dangling'',
          pruneButton UnusedScope isAdmin (zero st_freeableBytes) ''No unused images to prune'' ''Prune Unused'' s none,
          pruneButton DanglingScope isAdmin (zero st_danglingFreeableBytes) ''No dangling images to prune''
            ''Prune Dangling'' s none])"

definition volumesHeader :: "bool \<Rightarrow> adm \<Rightarrow> adm_msg node list" where
  "volumesHeader isAdmin s =
     [statCard (case adm_result s of Some (VolumesResult vs) \<Rightarrow> Some (string_of_nat (length vs)) | _ \<Rightarrow> None) ''Volumes'',
      Button MeasureClick (measuring s \<or> pruning s)
        (Some (if measuring s then ''Measuring volume sizes'' @ ellipsis
               else ''Walks every volume on the daemon and may take a while''))
        [Text (if measuring s then ''Measuring'' @ ellipsis else ''Calculate Sizes'')],
      Button (ArmPrune VolumesScope) (pruning s \<or> \<not> isAdmin)
        (if \<not> isAdmin then Some ''Admin role required'' else None)
        [Text (if pruningScope s = Some VolumesScope then ''Pruning'' @ ellipsis else ''Reclaim Space'')]]"

definition networksHeader :: "bool \<Rightarrow> adm \<Rightarrow> adm_msg node list" where
  "networksHeader isAdmin s =
     [pruneButton NetworksScope isAdmin (unusedNetworks s = [] \<and> \<not> hasUnknownNetworkUsage s)
        ''No unused networks to prune'' ''Prune Unused'' s False]"

definition pruneTitle :: "pruneScope option \<Rightarrow> string" where
  "pruneTitle p =
     (case p of
        Some DanglingScope \<Rightarrow> ''Prune dangling images?''
      | Some BuilderScope \<Rightarrow> ''Prune build cache?''
      | Some VolumesScope \<Rightarrow> ''Delete unused volumes?''
      | Some NetworksScope \<Rightarrow> ''Prune unused networks?''
      | _ \<Rightarrow> ''Prune unused images?'')"

definition volumeRule :: string where
  "volumeRule =
     ''A volume is unused only when no container '' @ em_dash @ '' running or stopped '' @ em_dash
     @ '' references it. This cannot be undone.''"

definition plural_s :: "nat \<Rightarrow> string" where
  "plural_s n = (if n = 1 then '''' else ''s'')"

definition pruneMessage :: "pruneScope option \<Rightarrow> adm \<Rightarrow> string" where
  "pruneMessage p s =
     (let st = page_imageStats s; cnt = (\<lambda>f. case st of None \<Rightarrow> 0 | Some x \<Rightarrow> f x);
          bytes = (\<lambda>f. case st of None \<Rightarrow> ''0 B'' | Some x \<Rightarrow> formatBytes (f x) True)
      in case p of
           Some DanglingScope \<Rightarrow>
             ''Deletes all '' @ string_of_nat (cnt st_danglingCount) @ '' dangling images, reclaiming up to ''
             @ bytes st_danglingFreeableBytes @ ''. Tagged images are never touched.''
         | Some BuilderScope \<Rightarrow>
             ''Deletes '' @ string_of_nat (case page_buildStats s of None \<Rightarrow> 0 | Some b \<Rightarrow> bcs_recordCount b)
             @ '' build cache records, reclaiming up to ''
             @ (case page_buildStats s of None \<Rightarrow> ''0 B'' | Some b \<Rightarrow> formatBytes (int (bcs_reclaimableBytes b)) True)
             @ ''. Future image builds will be slower until the cache is rebuilt.''
         | Some VolumesScope \<Rightarrow>
             (case volumeUsage s of
                Some u \<Rightarrow> ''Deletes '' @ string_of_nat (gvu_unusedCount u) @ '' unused volume''
                  @ plural_s (gvu_unusedCount u) @ '', reclaiming up to ''
                  @ formatBytes (gvu_reclaimableBytes u) True @ ''. '' @ volumeRule
              | None \<Rightarrow> ''Size has not been calculated yet '' @ em_dash
                  @ '' use Calculate Sizes for a preview. Deletes all unused volumes. '' @ volumeRule)
         | Some NetworksScope \<Rightarrow>
             (let ns = unusedNetworks s in
              ''Deletes '' @ string_of_nat (length ns) @ '' unused network'' @ plural_s (length ns)
              @ (if ns \<noteq> [] then '' ('' @ join '', '' (map net_name ns) @ '')'' else '''')
              @ ''. In-use, pre-defined and swarm-ingress networks are never touched. This cannot be undone.'')
         | _ \<Rightarrow>
             ''Deletes all '' @ string_of_nat (cnt st_unusedCount) @ '' unused images, reclaiming up to ''
             @ bytes st_freeableBytes @ ''. Images in use are never touched.'')"

definition recordMessage :: "buildCacheRecord option \<Rightarrow> string" where
  "recordMessage p =
     (case p of
        None \<Rightarrow> ''''
      | Some x \<Rightarrow> ''Deletes build cache record '' @ formatShortId (bcr_id x) @ '' (''
          @ formatBytes (int (bcr_sizeBytes x)) True
          @ ''). Shared blob content may free less. Rebuilding this step will be slower until the cache is rebuilt.'')"

text \<open>What the views take from outside the page.\<close>

record adm_env =
  e_now :: int
  e_fmt :: "int \<Rightarrow> string"
  e_images :: "image list \<Rightarrow> image list"
  e_volumes :: "volume list \<Rightarrow> volume list"
  e_networks :: "network list \<Rightarrow> network list"
  e_sorting :: sorting
  e_tailscale :: tailscaleStatusState

definition pageBody :: "adm_env \<Rightarrow> bool \<Rightarrow> adminResourceKind \<Rightarrow> adm_page \<Rightarrow> adm_msg node list" where
  "pageBody e isAdmin tab p =
     (let s = pg p in
      if adm_isLoading s \<and> adm_result s = None then [Text ''Loading resources...'']
      else (case adm_result s of
              Some (ImagesResult imgs) \<Rightarrow>
                imageTable (e_now e) (e_images e) (e_sorting e) isAdmin (deletingId s) (imagePending p) imgs
            | Some (VolumesResult vs) \<Rightarrow>
                volumeTable (e_fmt e) (e_volumes e) (e_sorting e) (volumeUsageIndex (volumeUsage s)) vs
            | Some (NetworksResult ns) \<Rightarrow>
                networkTable (e_fmt e) (e_networks e) (e_sorting e) isAdmin (deletingNetworkId s) (networkPending p) ns
            | _ \<Rightarrow> [])
           @ show_if (tab = BuilderKind)
               (builderPanel (page_buildStats s) isAdmin (pruning s) (pruningScope s = Some BuilderScope)
                @ builderRecordsView (e_now e) (builderRecords s) (recordsLoading s) (recordsError s) isAdmin (pruning s)))"

definition administration :: "adm_env \<Rightarrow> bool \<Rightarrow> adminResourceKind \<Rightarrow> adm_page \<Rightarrow> adm_msg node list" where
  "administration e isAdmin tab p =
     (let s = pg p in
      [Text ''Administration'', Button RefreshClick (adm_isLoading s) None [Text ''Sync Now'']]
      @ tailscaleStatusCard (e_now e) (e_tailscale e)
      @ pageTabs
      @ show_if (tab = ImagesKind) (imagesHeader isAdmin s)
      @ show_if (tab = VolumesKind) (volumesHeader isAdmin s)
      @ show_if (tab = NetworksKind) (networksHeader isAdmin s)
      @ (case adm_error s of None \<Rightarrow> [] | Some x \<Rightarrow> show_if (x \<noteq> []) [Text x])
      @ pageBody e isAdmin tab p
      @ confirmDialog (pendingPrune p \<noteq> None) CancelPrune ConfirmPrune (pruneTitle (pendingPrune p))
          (pruneMessage (pendingPrune p) s) (if pendingPrune p = Some VolumesScope then ''Delete'' else ''Prune'')
          (pruning s)
      @ confirmDialog (pendingRecord p \<noteq> None) CancelRecord ConfirmRecord ''Delete cache record?''
          (recordMessage (pendingRecord p)) ''Delete'' (pruningRecordId s \<noteq> None))"

section \<open>The page at work\<close>

datatype adm_key = KPrune | KImage | KNetwork | KMeasure

text \<open>
  A handler called from the rendered state \<open>r\<close>, in the current state \<open>s\<close>: the new state, and the
  operation whose call was made.
\<close>

definition started :: "adm_key \<Rightarrow> (adm_page \<Rightarrow> adm_page) \<Rightarrow> adm_page \<Rightarrow> adm option \<Rightarrow> adm_page \<times> adm_key list" where
  "started k f s next = (case next of None \<Rightarrow> (s, []) | Some a \<Rightarrow> (f (s\<lparr>pg := a\<rparr>), [k]))"

definition onConfirmPrune :: "adm_page \<Rightarrow> adm_page \<Rightarrow> adm_page \<times> adm_key list" where
  "onConfirmPrune r s =
     (let scope = pendingPrune r; s1 = s\<lparr>pendingPrune := None\<rparr>
      in started KPrune (\<lambda>p. p\<lparr>pruneClosure := Some (pg r)\<rparr>) s1
           (if scope = Some BuilderScope then pruneBuildCache_begin (pg r) (pg s1)
            else if scope = Some VolumesScope then pruneVolumes_begin (pg r) (pg s1)
            else if scope = Some NetworksScope then pruneNetworks_begin (pg r) (pg s1)
            else pruneImages_begin (scope = Some DanglingScope) (pg r) (pg s1)))"

definition onConfirmRecord :: "adm_page \<Rightarrow> adm_page \<Rightarrow> adm_page \<times> adm_key list" where
  "onConfirmRecord r s =
     (let s1 = s\<lparr>pendingRecord := None\<rparr>
      in case pendingRecord r of
           None \<Rightarrow> (s1, [])
         | Some x \<Rightarrow> started KPrune (\<lambda>p. p\<lparr>pruneClosure := Some (pg r)\<rparr>) s1
                        (pruneBuildCacheRecord_begin (bcr_id x) (pg r) (pg s1)))"

text \<open>The tables' \<open>handleConfirm\<close>: a deletion that is refused at once closes the dialog.\<close>

definition handleConfirmImage :: "adm_page \<Rightarrow> adm_page \<Rightarrow> adm_page \<times> adm_key list" where
  "handleConfirmImage r s =
     (case imagePending r of
        None \<Rightarrow> (s, [])
      | Some i \<Rightarrow>
          (case deleteImage_begin (img_id i) (pg r) (pg s) of
             None \<Rightarrow> (s\<lparr>imagePending := None\<rparr>, [])
           | Some a \<Rightarrow> (s\<lparr>pg := a\<rparr>, [KImage])))"

definition handleConfirmNetwork :: "adm_page \<Rightarrow> adm_page \<Rightarrow> adm_page \<times> adm_key list" where
  "handleConfirmNetwork r s =
     (case networkPending r of
        None \<Rightarrow> (s, [])
      | Some n \<Rightarrow>
          (case deleteNetwork_begin (net_id n) (pg r) (pg s) of
             None \<Rightarrow> (s\<lparr>networkPending := None\<rparr>, [])
           | Some a \<Rightarrow> (s\<lparr>pg := a\<rparr>, [KNetwork])))"

fun page_click :: "adm_msg \<Rightarrow> adm_page \<Rightarrow> adm_page \<Rightarrow> adm_page \<times> adm_key list" where
  "page_click RefreshClick r s = (s\<lparr>pg := refresh (pg s)\<rparr>, [])"
| "page_click (TabClick t) r s = (s, [])"
| "page_click (SortClick c d) r s = (s, [])"
| "page_click (ArmPrune sc) r s = (s\<lparr>pendingPrune := Some sc\<rparr>, [])"
| "page_click ConfirmPrune r s = onConfirmPrune r s"
| "page_click CancelPrune r s = (requestClose (pruning (pg r)) (\<lambda>s. s\<lparr>pendingPrune := None\<rparr>) s, [])"
| "page_click (ArmRecord x) r s = (s\<lparr>pendingRecord := Some x\<rparr>, [])"
| "page_click ConfirmRecord r s = onConfirmRecord r s"
| "page_click CancelRecord r s = (requestClose (pruningRecordId (pg r) \<noteq> None) (\<lambda>s. s\<lparr>pendingRecord := None\<rparr>) s, [])"
| "page_click MeasureClick r s = started KMeasure id s (measureVolumeUsage_begin (pg r) (pg s))"
| "page_click (ArmImage i) r s = (s\<lparr>imagePending := Some i\<rparr>, [])"
| "page_click ConfirmImage r s = handleConfirmImage r s"
| "page_click CancelImage r s =
     (requestClose (case imagePending r of None \<Rightarrow> False | Some i \<Rightarrow> deletingId (pg r) = Some (img_id i)) (\<lambda>s. s\<lparr>imagePending := None\<rparr>) s, [])"
| "page_click (ArmNetwork n) r s = (s\<lparr>networkPending := Some n\<rparr>, [])"
| "page_click ConfirmNetwork r s = handleConfirmNetwork r s"
| "page_click CancelNetwork r s =
     (requestClose (case networkPending r of None \<Rightarrow> False | Some n \<Rightarrow> deletingNetworkId (pg r) = Some (net_id n)) (\<lambda>s. s\<lparr>networkPending := None\<rparr>) s, [])"

text \<open>A render runs the fetch effects; a table that is no longer shown loses its pending deletion.\<close>

definition page_render :: "adminResourceKind \<Rightarrow> adm_page \<Rightarrow> adm_page" where
  "page_render tab s =
     (let a = adm_effects tab (pg s)
      in s\<lparr>pg := a,
           imagePending := (case adm_result a of Some (ImagesResult imgs) \<Rightarrow> imagePending s | _ \<Rightarrow> None),
           networkPending := (case adm_result a of Some (NetworksResult ns) \<Rightarrow> networkPending s | _ \<Rightarrow> None)\<rparr>)"

fun is_prune :: "mutation \<Rightarrow> bool" where
  "is_prune (ImageDeleted r) = False"
| "is_prune (NetworkDeleted r) = False"
| "is_prune _ = True"

definition settle_prune :: "mutation \<Rightarrow> adm \<Rightarrow> adm_page \<Rightarrow> adm_page \<times> adm_key list" where
  "settle_prune m r0 s =
     (case mutation_end m r0 (pg s) of
        (a, ts, again) \<Rightarrow> (s\<lparr>pg := a, pruneClosure := None\<rparr>, if again then [KMeasure] else []))"

definition settle_image :: "unit rpc \<Rightarrow> adm_page \<Rightarrow> adm_page" where
  "settle_image res s = s\<lparr>pg := fst (deleteImage_end res (pg s)), imagePending := None\<rparr>"

definition settle_network :: "unit rpc \<Rightarrow> adm_page \<Rightarrow> adm_page" where
  "settle_network res s = s\<lparr>pg := fst (deleteNetwork_end res (pg s)), networkPending := None\<rparr>"

definition settle_measure :: "getVolumeUsageResponse rpc \<Rightarrow> adm_page \<Rightarrow> adm_page" where
  "settle_measure res s = s\<lparr>pg := fst (measureVolumeUsage_end res (pg s))\<rparr>"

text \<open>
  \<open>adm_step isAdmin\<close>: the page of a user with or without the admin role. The tab may change at
  any time, which only the renders and the offered controls depend on.
\<close>

inductive adm_step :: "bool \<Rightarrow> (adm_page, adm_key) flight \<Rightarrow> (adm_page, adm_key) flight \<Rightarrow> bool"
  for isAdmin :: bool where
  click: "\<lbrakk>m \<in> set (offered (administration e isAdmin tab r)); page_click m r s = (s', ks)\<rbrakk>
     \<Longrightarrow> adm_step isAdmin (s, r, fl) (s', s', ks @ fl)"
| pruned: "\<lbrakk>KPrune \<in> set fl; pruneClosure s = Some r0; is_prune m; settle_prune m r0 s = (s', ks); r' = r \<or> r' = s'\<rbrakk>
     \<Longrightarrow> adm_step isAdmin (s, r, fl) (s', r', ks @ remove1 KPrune fl)"
| imaged: "\<lbrakk>KImage \<in> set fl; s' = settle_image res s; r' = r \<or> r' = s'\<rbrakk>
     \<Longrightarrow> adm_step isAdmin (s, r, fl) (s', r', remove1 KImage fl)"
| networked: "\<lbrakk>KNetwork \<in> set fl; s' = settle_network res s; r' = r \<or> r' = s'\<rbrakk>
     \<Longrightarrow> adm_step isAdmin (s, r, fl) (s', r', remove1 KNetwork fl)"
| measured: "\<lbrakk>KMeasure \<in> set fl; s' = settle_measure res s; r' = r \<or> r' = s'\<rbrakk>
     \<Longrightarrow> adm_step isAdmin (s, r, fl) (s', r', remove1 KMeasure fl)"
| fetched: "\<lbrakk>s' = s\<lparr>pg := fetchResources_end run res (pg s)\<rparr>; r' = r \<or> r' = s'\<rbrakk>
     \<Longrightarrow> adm_step isAdmin (s, r, fl) (s', r', fl)"
| recorded: "\<lbrakk>s' = s\<lparr>pg := fetchRecords_end run recs (pg s)\<rparr>; r' = r \<or> r' = s'\<rbrakk>
     \<Longrightarrow> adm_step isAdmin (s, r, fl) (s', r', fl)"
| render: "s' = page_render tab s \<Longrightarrow> adm_step isAdmin (s, r, fl) (s', s', fl)"

inductive_cases adm_stepE [consumes 1, case_names click pruned imaged networked measured fetched recorded render]:
  "adm_step isAdmin (s, r, fl) (s', r', fl')"

section \<open>Lemmas\<close>

fun busy_key :: "adm_page \<Rightarrow> adm_key \<Rightarrow> bool" where
  "busy_key s KPrune \<longleftrightarrow> pruning (pg s)"
| "busy_key s KImage \<longleftrightarrow> deletingId (pg s) \<noteq> None"
| "busy_key s KNetwork \<longleftrightarrow> deletingNetworkId (pg s) \<noteq> None"
| "busy_key s KMeasure \<longleftrightarrow> measuring (pg s)"

fun free_key :: "adm_page \<Rightarrow> adm_key \<Rightarrow> bool" where
  "free_key s KMeasure \<longleftrightarrow> \<not> measuring (pg s) \<and> \<not> pruning (pg s)"
| "free_key s k \<longleftrightarrow> \<not> busy_key s k"

lemma busy_key_eqI:
  "pruning (pg s) = pruning (pg t) \<Longrightarrow> (deletingId (pg s) = None) = (deletingId (pg t) = None) \<Longrightarrow>
   (deletingNetworkId (pg s) = None) = (deletingNetworkId (pg t) = None) \<Longrightarrow> measuring (pg s) = measuring (pg t) \<Longrightarrow>
   busy_key s = busy_key t"
proof (rule ext)
  fix k
  assume "pruning (pg s) = pruning (pg t)" "(deletingId (pg s) = None) = (deletingId (pg t) = None)"
    "(deletingNetworkId (pg s) = None) = (deletingNetworkId (pg t) = None)" "measuring (pg s) = measuring (pg t)"
  then show "busy_key s k = busy_key t k" by (cases k) auto
qed

text \<open>What an offered control tells about the rendered state.\<close>

fun permitted :: "bool \<Rightarrow> adm_page \<Rightarrow> adm_msg \<Rightarrow> bool" where
  "permitted isAdmin p (ArmPrune sc) \<longleftrightarrow> isAdmin \<and> \<not> pruning (pg p)"
| "permitted isAdmin p ConfirmPrune \<longleftrightarrow> pendingPrune p \<noteq> None \<and> \<not> pruning (pg p)"
| "permitted isAdmin p (ArmRecord x) \<longleftrightarrow> isAdmin \<and> \<not> pruning (pg p) \<and> \<not> bcr_inUse x"
| "permitted isAdmin p ConfirmRecord \<longleftrightarrow> pendingRecord p \<noteq> None \<and> pruningRecordId (pg p) = None"
| "permitted isAdmin p MeasureClick \<longleftrightarrow> \<not> measuring (pg p) \<and> \<not> pruning (pg p)"
| "permitted isAdmin p (ArmImage i) \<longleftrightarrow> isAdmin \<and> deletingId (pg p) = None \<and> img_containersCount i = 0"
| "permitted isAdmin p ConfirmImage \<longleftrightarrow> (\<exists>i. imagePending p = Some i \<and> deletingId (pg p) \<noteq> Some (img_id i))"
| "permitted isAdmin p (ArmNetwork n) \<longleftrightarrow>
     isAdmin \<and> deletingNetworkId (pg p) = None \<and> net_containersCount n = 0 \<and> \<not> net_predefined n"
| "permitted isAdmin p ConfirmNetwork \<longleftrightarrow> (\<exists>n. networkPending p = Some n \<and> deletingNetworkId (pg p) \<noteq> Some (net_id n))"
| "permitted isAdmin p _ \<longleftrightarrow> True"

definition safe_view :: "bool \<Rightarrow> adm_page \<Rightarrow> adm_msg node list \<Rightarrow> bool" where
  "safe_view isAdmin p ns \<longleftrightarrow> (\<forall>m \<in> set (offered ns). permitted isAdmin p m)"

lemma safe_view_simps [simp]:
  "safe_view isAdmin p []"
  "safe_view isAdmin p (ms @ ns) \<longleftrightarrow> safe_view isAdmin p ms \<and> safe_view isAdmin p ns"
  "safe_view isAdmin p (n # ns) \<longleftrightarrow> (\<forall>m \<in> set (clicks n). permitted isAdmin p m) \<and> safe_view isAdmin p ns"
  "safe_view isAdmin p (show_if b ns) \<longleftrightarrow> (b \<longrightarrow> safe_view isAdmin p ns)"
  by (auto simp: safe_view_def)

lemma safe_card [simp]: "safe_view isAdmin p (tailscaleStatusCard now st)"
  by (simp add: safe_view_def)

lemma safe_map: "(\<And>x. \<forall>m \<in> set (clicks (f x)). permitted isAdmin p m) \<Longrightarrow> safe_view isAdmin p (map f xs)"
  by (auto simp: safe_view_def offered_map)

lemma safe_headers [simp]: "safe_view isAdmin p (headers st cols)"
  unfolding headers_def by (rule safe_map) (auto simp: sortButton_def)

lemma safe_dialog:
  "safe_view isAdmin p (confirmDialog isOpen a b t m l busy) \<longleftrightarrow>
     (isOpen \<and> \<not> busy \<longrightarrow> permitted isAdmin p a \<and> permitted isAdmin p b)"
  by (auto simp: safe_view_def offered_confirmDialog)

lemma clicks_rows:
  "clicks (imageRow now isAdmin deleting i) =
     (if isAdmin \<and> deleting = None \<and> img_containersCount i = 0 then [ArmImage i] else [])"
  "clicks (networkRow fmt isAdmin deleting n) =
     (if isAdmin \<and> deleting = None \<and> net_containersCount n = 0 \<and> \<not> net_predefined n then [ArmNetwork n] else [])"
  "clicks (volumeRow fmt usage v) = []"
  "clicks (recordRow now isAdmin busy x) = (if isAdmin \<and> \<not> busy \<and> \<not> bcr_inUse x then [ArmRecord x] else [])"
  "clicks (statCard t l) = []"
  by (simp_all add: imageRow_def imageActions_def networkRow_def networkActions_def volumeRow_def recordRow_def
      statCard_def offered_map split: prod.splits)

lemma safe_tables [simp]:
  "safe_view isAdmin p (imageTable now order st isAdmin (deletingId (pg p)) (imagePending p) imgs)"
  "safe_view isAdmin p (networkTable fmt order' st isAdmin (deletingNetworkId (pg p)) (networkPending p) ns)"
  "safe_view isAdmin p (volumeTable fmt order'' st usage vs)"
  by (simp_all add: imageTable_def networkTable_def volumeTable_def clicks_rows safe_map safe_dialog split: option.splits)

lemma safe_builder [simp]:
  "safe_view isAdmin p (builderPanel stats isAdmin (pruning (pg p)) b)"
  "safe_view isAdmin p (builderRecordsView now recs l err isAdmin (pruning (pg p)))"
  by (simp_all add: builderPanel_def builderRecordsView_def clicks_rows safe_map)

lemma safe_tab_headers [simp]:
  "safe_view isAdmin p (imagesHeader isAdmin (pg p))"
  "safe_view isAdmin p (volumesHeader isAdmin (pg p))"
  "safe_view isAdmin p (networksHeader isAdmin (pg p))"
  by (simp_all add: imagesHeader_def volumesHeader_def networksHeader_def pruneButton_def clicks_rows Let_def)

lemma safe_body [simp]: "safe_view isAdmin p (pageBody e isAdmin tab p)"
  by (simp add: pageBody_def Let_def split: option.splits adminResourcesResult.splits)

lemma offered_permitted:
  assumes "m \<in> set (offered (administration e isAdmin tab p))"
  shows "permitted isAdmin p m"
proof -
  have "safe_view isAdmin p (administration e isAdmin tab p)"
    by (simp add: administration_def Let_def pageTabs_def safe_dialog split: option.splits)
  then show ?thesis using assms by (simp add: safe_view_def)
qed

text \<open>A click on an offered control either starts one free operation or leaves the flags alone.\<close>

lemma busy_key_upd:
  "busy_key t k \<Longrightarrow> (\<And>j. j \<noteq> k \<Longrightarrow> busy_key t j = busy_key s j) \<Longrightarrow> busy_key t = (busy_key s)(k := True)"
  by (rule ext) auto

definition click_ok :: "adm_page \<Rightarrow> adm_page \<Rightarrow> adm_page \<times> adm_key list \<Rightarrow> bool" where
  "click_ok r s x \<longleftrightarrow>
     (case x of (s', ks) \<Rightarrow>
       (\<exists>k. ks = [k] \<and> free_key r k \<and> busy_key s' = (busy_key s)(k := True)
            \<and> pruneClosure s' = (if k = KPrune then Some (pg r) else pruneClosure s))
     \<or> (ks = [] \<and> busy_key s' = busy_key s \<and> pruneClosure s' = pruneClosure s))"

lemma click_ok_same:
  assumes "pg s' = pg s \<or> pg s' = refresh (pg s)" "pruneClosure s' = pruneClosure s"
  shows "click_ok r s (s', [])"
proof -
  have "busy_key s' = busy_key s"
    using assms(1) by (intro busy_key_eqI) (auto simp: refresh_def)
  then show ?thesis using assms(2) by (simp add: click_ok_def)
qed

lemma click_ok_start:
  assumes "free_key r k" "busy_key s' k" "\<And>j. j \<noteq> k \<Longrightarrow> busy_key s' j = busy_key s j"
    and "pruneClosure s' = (if k = KPrune then Some (pg r) else pruneClosure s)"
  shows "click_ok r s (s', [k])"
  using assms busy_key_upd [of s' k s] by (simp add: click_ok_def)

lemma click_ok_prune:
  assumes "case next of None \<Rightarrow> True
     | Some a \<Rightarrow> \<not> pruning (pg r) \<and> pruning a \<and> deletingId a = deletingId (pg s)
         \<and> deletingNetworkId a = deletingNetworkId (pg s) \<and> measuring a = measuring (pg s)"
    and "pg s1 = pg s" "pruneClosure s1 = pruneClosure s"
  shows "click_ok r s (started KPrune (\<lambda>p. p\<lparr>pruneClosure := Some (pg r)\<rparr>) s1 next)"
proof (cases "next")
  case None
  then show ?thesis using assms(2,3) click_ok_same [of s1 s r] by (simp add: started_def)
next
  case (Some a)
  have "busy_key (s1\<lparr>pg := a, pruneClosure := Some (pg r)\<rparr>) j = busy_key s j" if "j \<noteq> KPrune" for j
    using that assms(1) Some by (cases j) auto
  then show ?thesis using assms(1) Some by (simp add: started_def click_ok_start)
qed

lemma click_kind:
  assumes "permitted isAdmin r m"
  shows "click_ok r s (page_click m r s)"
proof (cases m)
  case ConfirmPrune
  show ?thesis
    unfolding ConfirmPrune page_click.simps onConfirmPrune_def Let_def
    by (rule click_ok_prune)
      (simp_all add: pruneBuildCache_begin_def pruneVolumes_begin_def pruneNetworks_begin_def pruneImages_begin_def)
next
  case ConfirmRecord
  show ?thesis
  proof (cases "pendingRecord r")
    case None
    then show ?thesis using ConfirmRecord by (simp add: onConfirmRecord_def click_ok_same)
  next
    case (Some x)
    then show ?thesis unfolding ConfirmRecord page_click.simps onConfirmRecord_def Let_def
      by simp (rule click_ok_prune, simp_all add: pruneBuildCacheRecord_begin_def)
  qed
next
  case MeasureClick
  have "busy_key (s\<lparr>pg := (pg s)\<lparr>measuring := True\<rparr>\<rparr>) j = busy_key s j" if "j \<noteq> KMeasure" for j
    using that by (cases j) auto
  then show ?thesis
    using assms MeasureClick by (simp add: started_def measureVolumeUsage_begin_def click_ok_start)
next
  case ConfirmImage
  have "busy_key (s\<lparr>pg := (pg s)\<lparr>deletingId := Some i\<rparr>\<rparr>) j = busy_key s j" if "j \<noteq> KImage" for j i
    using that by (cases j) auto
  then show ?thesis
    using ConfirmImage
    by (auto simp: handleConfirmImage_def deleteImage_begin_def click_ok_same click_ok_start split: option.splits)
next
  case ConfirmNetwork
  have "busy_key (s\<lparr>pg := (pg s)\<lparr>deletingNetworkId := Some i\<rparr>\<rparr>) j = busy_key s j" if "j \<noteq> KNetwork" for j i
    using that by (cases j) auto
  then show ?thesis
    using ConfirmNetwork
    by (auto simp: handleConfirmNetwork_def deleteNetwork_begin_def click_ok_same click_ok_start split: option.splits)
qed (simp_all add: requestClose_def click_ok_same)

lemma settle_prune_parts:
  assumes "settle_prune m r0 s = (s', ks)" "is_prune m"
  shows "\<not> pruning (pg s')" "pruneClosure s' = None" "deletingId (pg s') = deletingId (pg s)"
    "deletingNetworkId (pg s') = deletingNetworkId (pg s)"
    "ks = [] \<and> measuring (pg s') = measuring (pg s) \<or> ks = [KMeasure] \<and> measuring (pg s') \<and> \<not> measuring r0"
  using assms
  by (cases m; auto simp: settle_prune_def pruneImages_end_def pruneBuildCache_end_def pruneBuildCacheRecord_end_def
      pruneVolumes_end_def pruneNetworks_end_def measureVolumeUsage_begin_def refresh_def Let_def
      split: sum.splits if_splits)+

lemma settle_parts:
  "deletingId (pg (settle_image res s)) = None" "deletingNetworkId (pg (settle_image res s)) = deletingNetworkId (pg s)"
  "pruning (pg (settle_image res s)) = pruning (pg s)" "measuring (pg (settle_image res s)) = measuring (pg s)"
  "pruneClosure (settle_image res s) = pruneClosure s"
  "deletingNetworkId (pg (settle_network res s)) = None" "deletingId (pg (settle_network res s)) = deletingId (pg s)"
  "pruning (pg (settle_network res s)) = pruning (pg s)" "measuring (pg (settle_network res s)) = measuring (pg s)"
  "pruneClosure (settle_network res s) = pruneClosure s"
  by (simp_all add: settle_image_def settle_network_def deleteImage_end_def deleteNetwork_end_def refresh_def Let_def
      split: sum.splits)

lemma settle_measure_parts:
  "\<not> measuring (pg (settle_measure mres s))" "pruning (pg (settle_measure mres s)) = pruning (pg s)"
  "deletingId (pg (settle_measure mres s)) = deletingId (pg s)"
  "deletingNetworkId (pg (settle_measure mres s)) = deletingNetworkId (pg s)"
  "pruneClosure (settle_measure mres s) = pruneClosure s"
  by (simp_all add: settle_measure_def measureVolumeUsage_end_def split: sum.splits)

text \<open>The fetches and the renders leave every flag alone.\<close>

lemma flags_fetch [simp]:
  "pruning (fetchResources_end run res a) = pruning a" "measuring (fetchResources_end run res a) = measuring a"
  "deletingId (fetchResources_end run res a) = deletingId a"
  "deletingNetworkId (fetchResources_end run res a) = deletingNetworkId a"
  "pruning (fetchRecords_end run recs a) = pruning a" "measuring (fetchRecords_end run recs a) = measuring a"
  "deletingId (fetchRecords_end run recs a) = deletingId a"
  "deletingNetworkId (fetchRecords_end run recs a) = deletingNetworkId a"
  "pruning (adm_effects tab a) = pruning a" "measuring (adm_effects tab a) = measuring a"
  "deletingId (adm_effects tab a) = deletingId a" "deletingNetworkId (adm_effects tab a) = deletingNetworkId a"
  by (simp_all add: fetchResources_end_def fetchRecords_end_def adm_effects_def fetchResources_begin_def
      fetchRecords_begin_def Let_def split: sum.splits)

lemma page_render_parts [simp]: "pg (page_render tab s) = adm_effects tab (pg s)" "pruneClosure (page_render tab s) = pruneClosure s"
  by (simp_all add: page_render_def Let_def)

text \<open>
  While a prune is in flight the rendered view knows it, and a prune started when no measurement
  ran still sees none; a view that would let a measurement start is right that none runs.
\<close>

definition adm_ok :: "(adm_page, adm_key) flight \<Rightarrow> bool" where
  "adm_ok c \<longleftrightarrow>
     (case c of (s, r, fl) \<Rightarrow>
        (\<forall>r0. pruneClosure s = Some r0 \<longrightarrow>
           pruning (pg s) \<and> pruning (pg r) \<and> (\<not> measuring r0 \<longrightarrow> \<not> measuring (pg s)))
        \<and> (\<not> pruning (pg r) \<and> \<not> measuring (pg r) \<longrightarrow> \<not> measuring (pg s)))"

lemma adm_ok_click:
  assumes "click_ok r s (s', ks)" "adm_ok (s, r, fl)"
  shows "adm_ok (s', s', ks @ fl)"
proof -
  have m: "measuring (pg s') \<longleftrightarrow> busy_key s' KMeasure" "pruning (pg s') \<longleftrightarrow> busy_key s' KPrune" by simp_all
  from assms(1) consider k where "ks = [k]" "free_key r k" "busy_key s' = (busy_key s)(k := True)"
      "pruneClosure s' = (if k = KPrune then Some (pg r) else pruneClosure s)"
    | "ks = []" "busy_key s' = busy_key s" "pruneClosure s' = pruneClosure s"
    by (auto simp: click_ok_def)
  then show ?thesis
  proof cases
    case 1
    then show ?thesis using assms(2) by (cases k) (auto simp: adm_ok_def m)
  next
    case 2
    then show ?thesis using assms(2) by (auto simp: adm_ok_def m)
  qed
qed

lemma adm_ok_step: "adm_step isAdmin c c' \<Longrightarrow> adm_ok c \<Longrightarrow> adm_ok c'"
proof (induction rule: adm_step.induct)
  case (click m e tab r s s' ks fl)
  have "permitted isAdmin r m" by (rule offered_permitted [OF click(1)])
  then have "click_ok r s (s', ks)" using click_kind [of isAdmin r m s] click(2) by simp
  then show ?case using click.prems adm_ok_click by blast
next
  case (pruned fl s r0 m s' ks r' r)
  note p = settle_prune_parts [OF pruned(4,3)]
  show ?case using pruned(2,5) pruned.prems p by (auto simp: adm_ok_def)
qed (auto simp: adm_ok_def settle_parts settle_measure_parts)

lemma click_step_kind:
  assumes "click_ok r s (s', ks)"
  shows "(\<exists>k. free_key r k \<and> ks @ fl = k # fl \<and> busy_key s' = (busy_key s)(k := True))
     \<or> (ks @ fl = fl \<and> busy_key s' = busy_key s)"
  using assms by (auto simp: click_ok_def)

lemma finish_kind:
  assumes "k \<in> set fl" "\<not> busy_key s' k" "\<And>j. j \<noteq> k \<Longrightarrow> busy_key s' j = busy_key s j" "r' = r \<or> r' = s'"
  shows "\<exists>k' ks. k' \<in> set fl \<and> \<not> busy_key s' k' \<and> remove1 k fl = ks @ remove1 k' fl \<and> distinct ks
            \<and> (\<forall>j \<in> set ks. \<not> busy_key s j \<and> j \<noteq> k' \<and> busy_key s' j)
            \<and> (\<forall>j. j \<noteq> k' \<longrightarrow> j \<notin> set ks \<longrightarrow> busy_key s' j = busy_key s j)
            \<and> (r' = r \<and> (\<forall>j \<in> set ks. \<not> free_key r j) \<or> r' = s')"
  using assms by (intro exI [of _ k] exI [of _ "[]"]) auto

lemma pruned_kind:
  assumes "KPrune \<in> set fl" "pruneClosure s = Some r0" "is_prune m" "settle_prune m r0 s = (s', ks)"
    "r' = r \<or> r' = s'" "adm_ok (s, r, fl)"
  shows "\<exists>k ks'. k \<in> set fl \<and> \<not> busy_key s' k \<and> ks @ remove1 KPrune fl = ks' @ remove1 k fl \<and> distinct ks'
            \<and> (\<forall>j \<in> set ks'. \<not> busy_key s j \<and> j \<noteq> k \<and> busy_key s' j)
            \<and> (\<forall>j. j \<noteq> k \<longrightarrow> j \<notin> set ks' \<longrightarrow> busy_key s' j = busy_key s j)
            \<and> (r' = r \<and> (\<forall>j \<in> set ks'. \<not> free_key r j) \<or> r' = s')"
proof -
  note p = settle_prune_parts [OF assms(4,3)]
  have "busy_key s' j = busy_key s j" if "j \<noteq> KPrune" "j \<notin> set ks" for j
    using that p by (cases j) auto
  then show ?thesis
    using p assms by (intro exI [of _ KPrune] exI [of _ ks]) (auto simp: adm_ok_def)
qed

interpretation adm_flight: single_flight busy_key free_key adm_ok "adm_step isAdmin"
proof
  show "\<not> free_key s k" if "busy_key s k" for s k
    using that by (cases k) auto
next
  show "adm_step isAdmin c c' \<Longrightarrow> adm_ok c \<Longrightarrow> adm_ok c'" for c c' by (rule adm_ok_step)
next
  fix s r :: adm_page and fl s' r' fl'
  assume st: "adm_step isAdmin (s, r, fl) (s', r', fl')" and ok: "adm_ok (s, r, fl)"
  from st show "(\<exists>k. free_key r k \<and> fl' = k # fl \<and> busy_key s' = (busy_key s)(k := True) \<and> r' = s')
     \<or> (\<exists>k ks. k \<in> set fl \<and> \<not> busy_key s' k \<and> fl' = ks @ remove1 k fl \<and> distinct ks
            \<and> (\<forall>j \<in> set ks. \<not> busy_key s j \<and> j \<noteq> k \<and> busy_key s' j)
            \<and> (\<forall>j. j \<noteq> k \<longrightarrow> j \<notin> set ks \<longrightarrow> busy_key s' j = busy_key s j)
            \<and> (r' = r \<and> (\<forall>j \<in> set ks. \<not> free_key r j) \<or> r' = s'))
     \<or> (fl' = fl \<and> busy_key s' = busy_key s \<and> (r' = r \<or> r' = s'))"
  proof (cases rule: adm_stepE)
    case (click m e tab ks)
    have "permitted isAdmin r m" using click offered_permitted by blast
    then have "click_ok r s (s', ks)" using click_kind [of isAdmin r m s] click by simp
    from click_step_kind [OF this, of fl] show ?thesis using click by auto
  next
    case (pruned r0 m ks)
    then have "KPrune \<in> set fl" "pruneClosure s = Some r0" "is_prune m" "settle_prune m r0 s = (s', ks)"
      "r' = r \<or> r' = s'" "fl' = ks @ remove1 KPrune fl" by blast+
    with pruned_kind [OF this(1-5) ok] show ?thesis by simp
  next
    case (imaged res)
    have "busy_key s' j = busy_key s j" if "j \<noteq> KImage" for j using that imaged by (cases j) (auto simp: settle_parts)
    then show ?thesis using finish_kind [of KImage fl s' s r' r] imaged by (auto simp: settle_parts)
  next
    case (networked res)
    have "busy_key s' j = busy_key s j" if "j \<noteq> KNetwork" for j using that networked by (cases j) (auto simp: settle_parts)
    then show ?thesis using finish_kind [of KNetwork fl s' s r' r] networked by (auto simp: settle_parts)
  next
    case (measured res)
    have "busy_key s' j = busy_key s j" if "j \<noteq> KMeasure" for j using that measured by (cases j) (auto simp: settle_measure_parts)
    then show ?thesis using finish_kind [of KMeasure fl s' s r' r] measured by (auto simp: settle_measure_parts)
  next
    case (fetched run res)
    then have "busy_key s' = busy_key s" by (intro busy_key_eqI) auto
    then show ?thesis using fetched by auto
  next
    case (recorded run recs)
    then have "busy_key s' = busy_key s" by (intro busy_key_eqI) auto
    then show ?thesis using recorded by auto
  next
    case (render tab)
    then have "busy_key s' = busy_key s" by (intro busy_key_eqI) auto
    then show ?thesis using render by auto
  qed
qed

section \<open>Properties\<close>

text \<open>
  C26: One operation of each sort at a time. In every run of the page (clicks on enabled
  controls of a view that may lag behind, calls settling in any order, fetches, renders, tab
  changes), at most one prune, one image deletion, one network deletion and one volume
  measurement are in flight, and the flags of the state say exactly which.
\<close>

theorem one_operation_each:
  assumes "rtranclp (adm_step isAdmin) (page_init, page_init, []) (s, r, fl)"
  shows "distinct fl \<and> (KPrune \<in> set fl \<longleftrightarrow> pruning (pg s)) \<and> (KImage \<in> set fl \<longleftrightarrow> deletingId (pg s) \<noteq> None)
     \<and> (KNetwork \<in> set fl \<longleftrightarrow> deletingNetworkId (pg s) \<noteq> None) \<and> (KMeasure \<in> set fl \<longleftrightarrow> measuring (pg s))"
proof -
  have idle: "\<not> busy_key page_init k" for k by (cases k) (simp_all add: page_init_def adm_init_def)
  have "adm_ok (page_init, page_init, [])" by (simp add: adm_ok_def page_init_def adm_init_def)
  from adm_flight.at_most_one [OF assms this idle]
  have "distinct fl" "\<And>k. busy_key s k \<longleftrightarrow> k \<in> set fl" by blast+
  then show ?thesis by (metis busy_key.simps)
qed

text \<open>A run for witnesses: the image list arrives, an image deletion is armed and confirmed.\<close>

definition env0 :: adm_env where
  "env0 = \<lparr>e_now = 0, e_fmt = (\<lambda>_. []), e_images = id, e_volumes = id, e_networks = id, e_sorting = None, e_tailscale = tailscale_initial\<rparr>"

definition img0 :: image where
  "img0 = \<lparr>img_id = ''i1'', img_repoTags = [], img_createdUnix = 0, img_sizeBytes = 0, img_containersCount = 0\<rparr>"

theorem one_operation_each_witness:
  "KMeasure \<in> set [KMeasure] \<longleftrightarrow> measuring (pg (fst (page_click MeasureClick (page_render VolumesKind page_init)
      (page_render VolumesKind page_init))))"
proof -
  let ?s = "page_render VolumesKind page_init"
  have "adm_step False (page_init, page_init, []) (?s, ?s, [])" by (rule adm_step.render) simp
  moreover have "MeasureClick \<in> set (offered (administration env0 False VolumesKind ?s))"
    by (simp add: administration_def volumesHeader_def page_render_def page_init_def adm_init_def adm_effects_def
        fetchResources_begin_def Let_def pageTabs_def statCard_def)
  moreover have "page_click MeasureClick ?s ?s = (fst (page_click MeasureClick ?s ?s), [KMeasure])"
    by (simp add: started_def measureVolumeUsage_begin_def page_render_def page_init_def adm_init_def Let_def)
  ultimately have "rtranclp (adm_step False) (page_init, page_init, [])
      (fst (page_click MeasureClick ?s ?s), fst (page_click MeasureClick ?s ?s), [KMeasure] @ [])"
    by (meson adm_step.click converse_rtranclp_into_rtranclp r_into_rtranclp)
  from one_operation_each [OF this] show ?thesis by simp
qed

text \<open>Without the admin role no dialog is ever armed.\<close>

definition unarmed :: "adm_page \<Rightarrow> bool" where
  "unarmed s \<longleftrightarrow> pendingPrune s = None \<and> pendingRecord s = None \<and> imagePending s = None
     \<and> networkPending s = None \<and> pruneClosure s = None"

lemma unarmed_click:
  assumes "permitted False r m" "unarmed r" "unarmed s" "page_click m r s = (s', ks)"
  shows "unarmed s' \<and> set ks \<subseteq> {KMeasure}"
  using assms
  by (cases m) (auto simp: unarmed_def requestClose_def started_def measureVolumeUsage_begin_def split: if_splits)

lemma unarmed_step:
  "adm_step False c c' \<Longrightarrow> (case c of (s, r, fl) \<Rightarrow> unarmed s \<and> unarmed r \<and> set fl \<subseteq> {KMeasure}) \<Longrightarrow>
     (case c' of (s, r, fl) \<Rightarrow> unarmed s \<and> unarmed r \<and> set fl \<subseteq> {KMeasure})"
proof (induction rule: adm_step.induct)
  case (click m e tab r s s' ks fl)
  then show ?case using unarmed_click [of r m s s' ks] offered_permitted by auto
next
  case (measured fl s' res s r' r)
  have "unarmed s'" using measured by (simp add: unarmed_def settle_measure_def)
  then show ?case using measured set_remove1_subset [of KMeasure fl] by auto
qed (auto simp: unarmed_def page_render_def Let_def split: option.splits adminResourcesResult.splits)

text \<open>
  A user without the admin role can destroy nothing from this page: in every run, whatever
  the server answers and whatever enabled control is clicked, no prune and no deletion is ever
  in flight and no confirmation is ever open. All such a user can start is the measurement.
\<close>

lemma unarmed_reach:
  assumes "rtranclp (adm_step False) (page_init, page_init, []) (s, r, fl)"
  shows "unarmed s \<and> unarmed r \<and> set fl \<subseteq> {KMeasure}"
proof -
  have "case (s, r, fl) of (s, r, fl) \<Rightarrow> unarmed s \<and> unarmed r \<and> set fl \<subseteq> {KMeasure}"
    using assms
    by (induction rule: rtranclp_induct) (simp add: unarmed_def page_init_def, rule unarmed_step)
  then show ?thesis by simp
qed

text \<open>
  C28: An administrator is offered to delete exactly the images and networks that the list says
  are unused: those with a known count of zero containers (never those in use, nor those whose
  use is unknown), networks only if the daemon does not own them, and nothing while a deletion
  of that sort runs.
\<close>

theorem delete_controls_exact:
  assumes "\<And>xs. set (e_images e xs) = set xs" and "\<And>xs. set (e_networks e xs) = set xs"
  shows "(case adm_result (pg p) of
      Some (ImagesResult imgs) \<Rightarrow>
        {i. ArmImage i \<in> set (offered (administration e isAdmin tab p))} =
        (if isAdmin \<and> deletingId (pg p) = None then {i \<in> set imgs. img_containersCount i = 0} else {})
    | Some (NetworksResult ns) \<Rightarrow>
        {n. ArmNetwork n \<in> set (offered (administration e isAdmin tab p))} =
        (if isAdmin \<and> deletingNetworkId (pg p) = None
         then {n \<in> set ns. net_containersCount n = 0 \<and> \<not> net_predefined n} else {})
    | _ \<Rightarrow> (\<forall>i n. ArmImage i \<notin> set (offered (administration e isAdmin tab p))
              \<and> ArmNetwork n \<notin> set (offered (administration e isAdmin tab p))))"
proof -
  have h: "ArmImage i \<notin> set (offered (headers st cols))" "ArmNetwork n \<notin> set (offered (headers st cols))" for i n st cols
    by (auto simp: headers_def sortButton_def offered_map)
  have b: "ArmImage i \<notin> set (offered (builderPanel x y z w))" "ArmNetwork n \<notin> set (offered (builderPanel x y z w))"
       "ArmImage i \<notin> set (offered (builderRecordsView x1 x2 x3 x4 x5 x6))"
       "ArmNetwork n \<notin> set (offered (builderRecordsView x1 x2 x3 x4 x5 x6))" for i n x y z w x1 x2 x3 x4 x5 x6
    by (auto simp: builderPanel_def builderRecordsView_def statCard_def clicks_rows offered_map)
  have t: "ArmImage i \<notin> set (offered (imagesHeader a s) @ offered (volumesHeader a s) @ offered (networksHeader a s))"
       "ArmNetwork n \<notin> set (offered (imagesHeader a s) @ offered (volumesHeader a s) @ offered (networksHeader a s))" for i n a s
    by (auto simp: imagesHeader_def volumesHeader_def networksHeader_def pruneButton_def statCard_def Let_def)
  have body: "ArmImage i \<in> set (offered (administration e isAdmin tab p)) \<longleftrightarrow> ArmImage i \<in> set (offered (pageBody e isAdmin tab p))"
      "ArmNetwork n \<in> set (offered (administration e isAdmin tab p)) \<longleftrightarrow> ArmNetwork n \<in> set (offered (pageBody e isAdmin tab p))"
    for i n
    using t by (auto simp: administration_def Let_def pageTabs_def offered_confirmDialog split: option.splits)
  show ?thesis
    unfolding body
    by (auto simp: pageBody_def Let_def imageTable_def networkTable_def volumeTable_def offered_map clicks_rows
        offered_confirmDialog h b assms split: option.splits adminResourcesResult.splits if_splits)
qed

theorem delete_controls_exact_witness:
  "{i. ArmImage i \<in> set (offered (administration env0 True ImagesKind
      (page_init\<lparr>pg := adm_init\<lparr>adm_result := Some (ImagesResult [img0])\<rparr>\<rparr>)))} = {i \<in> set [img0]. img_containersCount i = 0}"
  using delete_controls_exact [where e = env0 and isAdmin = True and tab = ImagesKind
      and p = "page_init\<lparr>pg := adm_init\<lparr>adm_result := Some (ImagesResult [img0])\<rparr>\<rparr>"]
  by (simp add: env0_def adm_init_def)

end
