(* ===== verification/Client_Logs.thy ===== *)
theory Client_Logs
  imports Wire_Messages "HOL-Library.Multiset"
begin

text \<open>
  Client logging: the interceptors that turn browser events into log entries
  (\<open>services/logger.ts\<close>), and the syncer that sends the stored entries to the server in batches
  (\<open>services/syncer.ts\<close>), both started by \<open>main.tsx\<close>.

  The table that stores the entries is Dexie's and is an argument: a record of its operations,
  with \<open>dexie_laws\<close> stating the documented behaviour the code relies on (primary keys that grow,
  reading in key order, deletion by key, clearing). Entries may be added between any two steps of
  a synchronisation, so the syncer is a machine whose steps are the code between two awaits.
\<close>

section \<open>Entries and the table\<close>

datatype level = DEBUG | INFO | WARN | ERROR

record dBClientLogEntry =
  db_level :: level
  db_message :: string
  db_timestamp :: string
  db_component :: string
  db_metadata :: string

type_synonym row = "nat \<times> dBClientLogEntry"

record 'd dexie =
  dx_add :: "dBClientLogEntry \<Rightarrow> 'd \<Rightarrow> 'd"
  dx_limit :: "nat \<Rightarrow> 'd \<Rightarrow> row list"
  dx_bulkDelete :: "nat list \<Rightarrow> 'd \<Rightarrow> 'd"
  dx_clear :: "'d \<Rightarrow> 'd"

definition dexie_laws :: "'d dexie \<Rightarrow> ('d \<Rightarrow> row list) \<Rightarrow> bool" where
  "dexie_laws T content \<longleftrightarrow>
     (\<forall>d e. \<exists>i. content (dx_add T e d) = content d @ [(i, e)] \<and> i \<notin> fst ` set (content d))
     \<and> (\<forall>d n. dx_limit T n d = take n (content d))
     \<and> (\<forall>d ks. content (dx_bulkDelete T ks d) = filter (\<lambda>r. fst r \<notin> set ks) (content d))
     \<and> (\<forall>d. content (dx_clear T d) = [])"

section \<open>The logger\<close>

record 'd logger =
  lg_db :: 'd
  isIntercepting :: bool
  isUnloading :: bool

text \<open>
  \<open>addLogEntry\<close>; \<open>now\<close> is the ISO time. A failing write is reported on the console and otherwise
  ignored (\<open>ok\<close> says whether the write succeeds).
\<close>

definition addLogEntry ::
  "'d dexie \<Rightarrow> string \<Rightarrow> bool \<Rightarrow> level \<Rightarrow> string \<Rightarrow> string \<Rightarrow> string \<Rightarrow> 'd logger \<Rightarrow> 'd logger" where
  "addLogEntry T now ok lv msg cmpnt meta s =
     (if isUnloading s then s
      else if ok
      then s\<lparr>lg_db := dx_add T \<lparr>db_level = lv, db_message = msg, db_timestamp = now, db_component = cmpnt,
                                 db_metadata = meta\<rparr> (lg_db s)\<rparr>
      else s)"

text \<open>
  An argument of a console call: an object, with its JSON text (\<open>None\<close> when \<open>JSON.stringify\<close>
  throws, as for a cyclic object), or any other value, with its \<open>String\<close> text.
\<close>

datatype console_arg = ObjectArg "string option" | OtherArg string

text \<open>\<open>None\<close> is an exception.\<close>

fun arg_text :: "console_arg \<Rightarrow> string option" where
  "arg_text (ObjectArg j) = j"
| "arg_text (OtherArg s) = Some s"

definition console_message :: "console_arg list \<Rightarrow> string option" where
  "console_message args =
     (if list_all (\<lambda>a. arg_text a \<noteq> None) args
      then Some (join '' '' (map (\<lambda>a. case arg_text a of Some t \<Rightarrow> t | None \<Rightarrow> []) args)) else None)"

text \<open>
  The wrapped console functions: the flag returned says that the call returned normally (an
  exception of the message's construction reaches the caller).
\<close>

definition console_warn ::
  "'d dexie \<Rightarrow> string \<Rightarrow> bool \<Rightarrow> string \<Rightarrow> console_arg list \<Rightarrow> 'd logger \<Rightarrow> 'd logger \<times> bool" where
  "console_warn T now ok emptyMeta args s =
     (if isIntercepting s then (s, True)
      else let s1 = s\<lparr>isIntercepting := True\<rparr>
           in case console_message args of
                None \<Rightarrow> (s1\<lparr>isIntercepting := False\<rparr>, False)
              | Some m \<Rightarrow> ((addLogEntry T now ok WARN m ''Console'' emptyMeta s1)\<lparr>isIntercepting := False\<rparr>, True))"

definition console_error ::
  "'d dexie \<Rightarrow> string \<Rightarrow> bool \<Rightarrow> string \<Rightarrow> console_arg list \<Rightarrow> 'd logger \<Rightarrow> 'd logger \<times> bool" where
  "console_error T now ok stackMeta args s =
     (if isIntercepting s then (s, True)
      else let s1 = s\<lparr>isIntercepting := True\<rparr>
           in case console_message args of
                None \<Rightarrow> (s1\<lparr>isIntercepting := False\<rparr>, False)
              | Some m \<Rightarrow> ((addLogEntry T now ok ERROR m ''Console'' stackMeta s1)\<lparr>isIntercepting := False\<rparr>, True))"

definition onWindowError ::
  "'d dexie \<Rightarrow> string \<Rightarrow> bool \<Rightarrow> string \<Rightarrow> string \<Rightarrow> 'd logger \<Rightarrow> 'd logger" where
  "onWindowError T now ok eventMessage meta s =
     (if isIntercepting s then s
      else (addLogEntry T now ok ERROR (str_or eventMessage ''Unknown error'') ''WindowOnError'' meta
              (s\<lparr>isIntercepting := True\<rparr>))\<lparr>isIntercepting := False\<rparr>)"

text \<open>\<open>reasonMessage\<close> is \<open>event.reason?.message\<close>, \<open>reasonText\<close> is \<open>String(event.reason)\<close>.\<close>

definition onUnhandledRejection ::
  "'d dexie \<Rightarrow> string \<Rightarrow> bool \<Rightarrow> string option \<Rightarrow> string \<Rightarrow> string \<Rightarrow> 'd logger \<Rightarrow> 'd logger" where
  "onUnhandledRejection T now ok reasonMessage reasonText meta s =
     (if isIntercepting s then s
      else (addLogEntry T now ok ERROR
              (''Unhandled Rejection: '' @ (case reasonMessage of None \<Rightarrow> reasonText | Some m \<Rightarrow> str_or m reasonText))
              ''WindowOnUnhandledRejection'' meta (s\<lparr>isIntercepting := True\<rparr>))\<lparr>isIntercepting := False\<rparr>)"

text \<open>A click on a button or link, described by tag, id and classes and the first 50 characters.\<close>

record clicked =
  ck_tag :: string
  ck_text :: string
  ck_id :: string
  ck_className :: string
  ck_classList :: "string list"

definition click_identifier :: "clicked \<Rightarrow> string" where
  "click_identifier c =
     toLowerCase (ck_tag c) @ (if ck_id c \<noteq> [] then ''#'' @ ck_id c else '''')
     @ (if ck_className c \<noteq> [] then ''.'' @ join ''.'' (filter (\<lambda>x. trim x \<noteq> []) (ck_classList c)) else '''')"

definition onClick ::
  "'d dexie \<Rightarrow> string \<Rightarrow> bool \<Rightarrow> string \<Rightarrow> clicked option \<Rightarrow> 'd logger \<Rightarrow> 'd logger" where
  "onClick T now ok meta target s =
     (case target of
        None \<Rightarrow> s
      | Some c \<Rightarrow>
          addLogEntry T now ok INFO
            (''User clicked: '' @ click_identifier c @ '' ('' @ quoted (take 50 (trim (ck_text c))) @ '')'')
            ''UserAction'' meta s)"

definition logUserAction ::
  "'d dexie \<Rightarrow> string \<Rightarrow> bool \<Rightarrow> string \<Rightarrow> string \<Rightarrow> string \<Rightarrow> 'd logger \<Rightarrow> 'd logger" where
  "logUserAction T now ok action cmpnt meta s = addLogEntry T now ok INFO action cmpnt meta s"

definition setIsUnloading :: "bool \<Rightarrow> 'd logger \<Rightarrow> 'd logger" where
  "setIsUnloading b s = s\<lparr>isUnloading := b\<rparr>"

section \<open>The syncer\<close>

definition batchSize :: nat where
  "batchSize = 50"

datatype sync_phase = Idle | Reading | Sending "row list" | Deleting "row list" | Clearing

record 'd syncer =
  sy_db :: 'd
  isSyncing :: bool
  sy_phase :: sync_phase

definition level_text :: "level \<Rightarrow> string" where
  "level_text l = (case l of DEBUG \<Rightarrow> ''DEBUG'' | INFO \<Rightarrow> ''INFO'' | WARN \<Rightarrow> ''WARN'' | ERROR \<Rightarrow> ''ERROR'')"

definition protoEntry :: "dBClientLogEntry \<Rightarrow> clientLogEntry" where
  "protoEntry e = \<lparr>cle_level = level_text (db_level e), cle_message = db_message e,
     cle_timestamp = db_timestamp e, cle_component = db_component e, cle_metadata = db_metadata e\<rparr>"

definition sync_done :: "'d syncer \<Rightarrow> 'd syncer" where
  "sync_done s = s\<lparr>isSyncing := False, sy_phase := Idle\<rparr>"

text \<open>
  \<open>syncPendingLogs\<close>, cut at its awaits: the call, the batch read, the server's answer, the
  deletion done, the clearing done; any of the table's operations may fail, which the outer
  \<open>catch\<close> swallows. \<open>Logged\<close> is a log entry added meanwhile.
\<close>

datatype sync_event =
    SyncCalled
  | BatchRead
  | Answered "syncLogsResponse rpc"
  | BatchDeleted
  | Cleared
  | TableFails
  | Logged dBClientLogEntry

fun sync_step :: "'d dexie \<Rightarrow> sync_event \<Rightarrow> 'd syncer \<Rightarrow> 'd syncer" where
  "sync_step T SyncCalled s =
     (if isSyncing s then s else s\<lparr>isSyncing := True, sy_phase := Reading\<rparr>)"
| "sync_step T BatchRead s =
     (if sy_phase s = Reading
      then (let entries = dx_limit T batchSize (sy_db s)
            in if entries = [] then sync_done s else s\<lparr>sy_phase := Sending entries\<rparr>)
      else s)"
| "sync_step T (Answered r) s =
     (case sy_phase s of
        Sending entries \<Rightarrow>
          (case r of
             Inr resp \<Rightarrow> if sl_processedCount resp > 0 then s\<lparr>sy_phase := Deleting entries\<rparr> else sync_done s
           | Inl e \<Rightarrow> if is_unauthenticated e then s\<lparr>sy_phase := Clearing\<rparr> else sync_done s)
      | _ \<Rightarrow> s)"
| "sync_step T BatchDeleted s =
     (case sy_phase s of
        Deleting entries \<Rightarrow>
          (let s1 = s\<lparr>sy_db := dx_bulkDelete T (map fst entries) (sy_db s)\<rparr>
           in if length entries < batchSize then sync_done s1 else s1\<lparr>sy_phase := Reading\<rparr>)
      | _ \<Rightarrow> s)"
| "sync_step T Cleared s =
     (if sy_phase s = Clearing then sync_done (s\<lparr>sy_db := dx_clear T (sy_db s)\<rparr>) else s)"
| "sync_step T TableFails s = 
     (case sy_phase s of
        Reading \<Rightarrow> sync_done s
      | Deleting entries \<Rightarrow> sync_done s
      | Clearing \<Rightarrow> sync_done s
      | _ \<Rightarrow> s)"
| "sync_step T (Logged e) s = s\<lparr>sy_db := dx_add T e (sy_db s)\<rparr>"

text \<open>What the server has acknowledged, in order, and what was logged.\<close>

fun acked_by :: "sync_event \<Rightarrow> 'd syncer \<Rightarrow> dBClientLogEntry list" where
  "acked_by (Answered (Inr resp)) s =
     (case sy_phase s of Sending entries \<Rightarrow> if sl_processedCount resp > 0 then map snd entries else [] | _ \<Rightarrow> [])"
| "acked_by _ s = []"

fun delivered :: "'d dexie \<Rightarrow> sync_event list \<Rightarrow> 'd syncer \<Rightarrow> dBClientLogEntry list" where
  "delivered T [] s = []"
| "delivered T (e # es) s = acked_by e s @ delivered T es (sync_step T e s)"

fun logged :: "sync_event list \<Rightarrow> dBClientLogEntry list" where
  "logged [] = []"
| "logged (Logged e # es) = e # logged es"
| "logged (_ # es) = logged es"

text \<open>One whole synchronisation with nothing logged meanwhile, by fuel on the number of batches.\<close>

fun sync_all :: "nat \<Rightarrow> 'd dexie \<Rightarrow> (clientLogEntry list \<Rightarrow> syncLogsResponse rpc) \<Rightarrow> 'd \<Rightarrow> ('d \<times> clientLogEntry list list) option" where
  "sync_all 0 T server d = None"
| "sync_all (Suc n) T server d =
     (let entries = dx_limit T batchSize d; protoEntries = map (protoEntry \<circ> snd) entries
      in if entries = [] then Some (d, [])
         else case server protoEntries of
                Inl e \<Rightarrow> Some (if is_unauthenticated e then dx_clear T d else d, [protoEntries])
              | Inr resp \<Rightarrow>
                  if sl_processedCount resp > 0
                  then (let d' = dx_bulkDelete T (map fst entries) d
                        in if length entries < batchSize then Some (d', [protoEntries])
                           else map_option (\<lambda>(d'', ps). (d'', protoEntries # ps)) (sync_all n T server d'))
                  else Some (d, [protoEntries]))"

section \<open>The timer that restarts it\<close>

text \<open>
  \<open>st_id\<close> is \<open>syncTimeoutId\<close>; \<open>st_armed\<close> are the timeouts that have not fired, \<open>st_running\<close> counts
  the runs that wait for an idle moment or are synchronising.
\<close>

record sync_timer =
  st_id :: "nat option"
  st_armed :: "nat list"
  st_running :: nat
  st_next :: nat

definition timer_init :: sync_timer where
  "timer_init = \<lparr>st_id = None, st_armed = [], st_running = 0, st_next = 1\<rparr>"

definition startSyncer :: "sync_timer \<Rightarrow> sync_timer" where
  "startSyncer t = (if st_id t \<noteq> None then t else t\<lparr>st_running := Suc (st_running t)\<rparr>)"

definition runFinished :: "sync_timer \<Rightarrow> sync_timer" where
  "runFinished t =
     (if st_running t = 0 then t
      else t\<lparr>st_running := st_running t - 1, st_id := Some (st_next t), st_armed := st_next t # st_armed t,
             st_next := Suc (st_next t)\<rparr>)"

definition timeoutFires :: "nat \<Rightarrow> sync_timer \<Rightarrow> sync_timer" where
  "timeoutFires h t =
     (if h \<in> set (st_armed t) then t\<lparr>st_armed := remove1 h (st_armed t), st_running := Suc (st_running t)\<rparr> else t)"

definition stopSyncer :: "sync_timer \<Rightarrow> sync_timer" where
  "stopSyncer t =
     (case st_id t of Some h \<Rightarrow> t\<lparr>st_id := None, st_armed := removeAll h (st_armed t)\<rparr> | None \<Rightarrow> t)"

datatype timer_event = Finished | Fires nat

fun timer_step :: "timer_event \<Rightarrow> sync_timer \<Rightarrow> sync_timer" where
  "timer_step Finished t = runFinished t"
| "timer_step (Fires h) t = timeoutFires h t"

section \<open>Exactly once, in order\<close>

lemma dexie_lawsD:
  assumes "dexie_laws T content"
  shows "\<exists>i. content (dx_add T e d) = content d @ [(i, e)] \<and> i \<notin> fst ` set (content d)"
    and "dx_limit T n d = take n (content d)"
    and "content (dx_bulkDelete T ks d) = filter (\<lambda>r. fst r \<notin> set ks) (content d)"
    and "content (dx_clear T d) = []"
  using assms unfolding dexie_laws_def by blast+

text \<open>Deleting the keys of a leading batch leaves what follows it.\<close>

lemma delete_batch:
  assumes "distinct (map fst (es @ rest))"
  shows "filter (\<lambda>r. fst r \<notin> set (map fst es)) (es @ rest) = rest"
  using assms by (fastforce simp: filter_empty_conv filter_id_conv)

lemma content_bulkDelete:
  assumes "dexie_laws T content" "distinct (map fst (content d))" "content d = es @ rest"
  shows "content (dx_bulkDelete T (map fst es) d) = rest"
  using delete_batch [of es rest] assms by (simp add: dexie_lawsD)

text \<open>
  A batch being sent or deleted is the front of the table, whatever was logged meanwhile; the
  backlog is what the server has not acknowledged.
\<close>

definition in_flight :: "sync_phase \<Rightarrow> row list" where
  "in_flight p = (case p of Sending es \<Rightarrow> es | Deleting es \<Rightarrow> es | _ \<Rightarrow> [])"

definition sync_inv :: "('d \<Rightarrow> row list) \<Rightarrow> 'd syncer \<Rightarrow> bool" where
  "sync_inv content s \<longleftrightarrow>
     distinct (map fst (content (sy_db s))) \<and> prefix (in_flight (sy_phase s)) (content (sy_db s))
     \<and> isSyncing s = (sy_phase s \<noteq> Idle)"

definition backlog :: "('d \<Rightarrow> row list) \<Rightarrow> 'd syncer \<Rightarrow> dBClientLogEntry list" where
  "backlog content s =
     map snd (case sy_phase s of Deleting es \<Rightarrow> drop (length es) (content (sy_db s)) | _ \<Rightarrow> content (sy_db s))"

lemma sync_inv_step:
  assumes laws: "dexie_laws T content" and inv: "sync_inv content s"
  shows "sync_inv content (sync_step T e s)"
proof (cases e)
  case (Logged x)
  obtain i where "content (dx_add T x (sy_db s)) = content (sy_db s) @ [(i, x)]" "i \<notin> fst ` set (content (sy_db s))"
    using dexie_lawsD(1) [OF laws] by blast
  then show ?thesis using inv Logged by (auto simp: sync_inv_def prefix_def)
next
  case BatchDeleted
  show ?thesis
  proof (cases "sy_phase s")
    case (Deleting es)
    then obtain rest where c: "content (sy_db s) = es @ rest" and d: "distinct (map fst (content (sy_db s)))"
      using inv by (auto simp: sync_inv_def in_flight_def prefix_def)
    have "content (dx_bulkDelete T (map fst es) (sy_db s)) = rest" by (rule content_bulkDelete [OF laws d c])
    then show ?thesis using inv c Deleting BatchDeleted
      by (simp add: sync_inv_def sync_done_def in_flight_def Let_def)
  qed (use inv BatchDeleted in simp_all)
qed (use laws inv in \<open>auto simp: sync_inv_def sync_done_def in_flight_def dexie_lawsD Let_def take_is_prefix
       split: sync_phase.splits sum.splits\<close>)

lemma backlog_step:
  assumes laws: "dexie_laws T content" and inv: "sync_inv content s" and e: "e \<noteq> Cleared" "e \<noteq> TableFails"
  shows "acked_by e s @ backlog content (sync_step T e s) = backlog content s @ logged [e]"
proof (cases e)
  case (Logged x)
  obtain i where "content (dx_add T x (sy_db s)) = content (sy_db s) @ [(i, x)]"
    using dexie_lawsD(1) [OF laws] by blast
  then show ?thesis using inv Logged
    by (auto simp: sync_inv_def in_flight_def backlog_def prefix_def split: sync_phase.splits)
next
  case BatchDeleted
  show ?thesis
  proof (cases "sy_phase s")
    case (Deleting es)
    then obtain rest where c: "content (sy_db s) = es @ rest" and d: "distinct (map fst (content (sy_db s)))"
      using inv by (auto simp: sync_inv_def in_flight_def prefix_def)
    have "content (dx_bulkDelete T (map fst es) (sy_db s)) = rest" by (rule content_bulkDelete [OF laws d c])
    then show ?thesis using c Deleting BatchDeleted by (simp add: backlog_def sync_done_def Let_def)
  qed (use BatchDeleted in \<open>simp_all add: backlog_def\<close>)
next
  case (Answered r)
  then show ?thesis using inv
    by (cases r; cases "sy_phase s")
       (auto simp: sync_inv_def in_flight_def backlog_def sync_done_def prefix_def)
qed (use e inv in \<open>auto simp: backlog_def sync_done_def sync_inv_def Let_def\<close>)

lemma backlog_never_lost:
  assumes laws: "dexie_laws T content" and inv: "sync_inv content s" and e: "e \<noteq> Cleared"
  shows "mset (backlog content s @ logged [e]) \<subseteq># mset (acked_by e s @ backlog content (sync_step T e s))"
proof (cases "e = TableFails")
  case True
  have "mset (map snd (drop n xs)) \<subseteq># mset (map snd xs)" for n and xs :: "row list"
    by (metis append_take_drop_id map_append mset_append mset_subset_eq_add_right)
  then show ?thesis using True by (auto simp: backlog_def sync_done_def split: sync_phase.splits)
qed (use backlog_step [OF laws inv e] in simp)

lemma logged_append [simp]: "logged (xs @ ys) = logged xs @ logged ys"
  by (induction xs rule: logged.induct) auto

lemma logged_Cons: "logged (e # es) = logged [e] @ logged es"
  using logged_append [of "[e]" es] by simp

lemma sync_seq:
  assumes laws: "dexie_laws T content"
  shows "sync_inv content s \<Longrightarrow> Cleared \<notin> set es \<Longrightarrow> TableFails \<notin> set es \<Longrightarrow>
         delivered T es s @ backlog content (fold (sync_step T) es s) = backlog content s @ logged es"
proof (induction es arbitrary: s)
  case (Cons e es)
  have "delivered T es (sync_step T e s) @ backlog content (fold (sync_step T) es (sync_step T e s))
        = backlog content (sync_step T e s) @ logged es"
    by (rule Cons.IH) (use Cons.prems sync_inv_step [OF laws] in auto)
  with backlog_step [OF laws Cons.prems(1), of e] show ?case
    using Cons.prems by (simp add: logged_Cons [of e es] del: logged.simps) (metis append.assoc)
qed simp

lemma mset_chain:
  fixes L :: "'a multiset"
  assumes "L + B \<subseteq># X" "S \<subseteq># A + B"
  shows "L + S \<subseteq># A + X"
proof -
  have "L + S \<subseteq># A + (L + B)" using subset_mset.add_left_mono [OF assms(2), of L] by (simp add: ac_simps)
  also have "\<dots> \<subseteq># A + X" by (rule subset_mset.add_left_mono [OF assms(1)])
  finally show ?thesis .
qed

lemma sync_seq_mset:
  assumes laws: "dexie_laws T content"
  shows "sync_inv content s \<Longrightarrow> Cleared \<notin> set es \<Longrightarrow>
         mset (backlog content s @ logged es) \<subseteq># mset (delivered T es s @ backlog content (fold (sync_step T) es s))"
proof (induction es arbitrary: s)
  case (Cons e es)
  have "mset (backlog content (sync_step T e s) @ logged es)
        \<subseteq># mset (delivered T es (sync_step T e s) @ backlog content (fold (sync_step T) es (sync_step T e s)))"
    by (rule Cons.IH) (use Cons.prems sync_inv_step [OF laws] in auto)
  moreover have "mset (backlog content s @ logged [e]) \<subseteq># mset (acked_by e s @ backlog content (sync_step T e s))"
    by (rule backlog_never_lost [OF laws Cons.prems(1)]) (use Cons.prems in auto)
  ultimately show ?case
    by (simp add: logged_Cons [of e es] ac_simps del: logged.simps) (rule mset_chain)
qed simp

text \<open>A table kept as a list of rows, in which the laws hold.\<close>

definition list_table :: "row list dexie" where
  "list_table =
     \<lparr>dx_add = \<lambda>e rs. rs @ [(Suc (foldr max (map fst rs) 0), e)],
      dx_limit = \<lambda>n rs. take n rs,
      dx_bulkDelete = \<lambda>ks rs. filter (\<lambda>r. fst r \<notin> set ks) rs,
      dx_clear = \<lambda>rs. []\<rparr>"

lemma foldr_max_upper: "x \<in> set ks \<Longrightarrow> x \<le> foldr max ks (0::nat)"
  by (induction ks) auto

lemma list_table_laws: "dexie_laws list_table (\<lambda>rs. rs)"
proof -
  have "Suc (foldr max (map fst rs) 0) \<notin> fst ` set rs" for rs :: "row list"
    using foldr_max_upper [of "Suc (foldr max (map fst rs) 0)" "map fst rs"] by auto
  then show ?thesis by (simp add: dexie_laws_def list_table_def)
qed

lemma backlog_of_content:
  "mset (backlog content s) \<subseteq># mset (map snd (content (sy_db s)))"
proof -
  have "mset (map snd (drop n xs)) \<subseteq># mset (map snd xs)" for n and xs :: "row list"
    by (metis append_take_drop_id map_append mset_append mset_subset_eq_add_right)
  then show ?thesis by (auto simp: backlog_def split: sync_phase.splits)
qed


definition sample_entry :: "string \<Rightarrow> dBClientLogEntry" where
  "sample_entry m = \<lparr>db_level = INFO, db_message = m, db_timestamp = ''t'', db_component = ''c'', db_metadata = ''{}''\<rparr>"

definition sample_sync :: "sync_event list" where
  "sample_sync =
     [Logged (sample_entry ''a''), SyncCalled, BatchRead, Logged (sample_entry ''b''),
      Answered (Inr \<lparr>sl_processedCount = 1\<rparr>), BatchDeleted]"

lemma sample_sync_runs:
  "fold (sync_step list_table) sample_sync \<lparr>sy_db = [], isSyncing = False, sy_phase = Idle\<rparr>
   = \<lparr>sy_db = [(2, sample_entry ''b'')], isSyncing = False, sy_phase = Idle\<rparr>"
  by (simp add: sample_sync_def list_table_def batchSize_def sync_done_def Let_def)


section \<open>A synchronisation ends\<close>

definition acks_all :: "(clientLogEntry list \<Rightarrow> syncLogsResponse rpc) \<Rightarrow> bool" where
  "acks_all server \<longleftrightarrow>
     (\<forall>b. b \<noteq> [] \<and> length b \<le> batchSize \<longrightarrow> (case server b of Inl e \<Rightarrow> False | Inr r \<Rightarrow> sl_processedCount r > 0))"

lemma acks_allD:
  assumes "acks_all server" "b \<noteq> []" "length b \<le> batchSize"
  shows "server b \<noteq> Inl e" and "server b = Inr r \<Longrightarrow> sl_processedCount r > 0"
  using assms unfolding acks_all_def by (auto dest: spec [of _ b])

definition batches_ok :: "clientLogEntry list list \<Rightarrow> bool" where
  "batches_ok ps \<longleftrightarrow> list_all (\<lambda>p. p \<noteq> [] \<and> length p \<le> batchSize) ps"

definition sync_result ::
  "('d \<Rightarrow> row list) \<Rightarrow> (clientLogEntry list \<Rightarrow> syncLogsResponse rpc) \<Rightarrow> row list \<Rightarrow> 'd \<times> clientLogEntry list list \<Rightarrow> bool" where
  "sync_result content server rows r \<longleftrightarrow>
     suffix (content (fst r)) rows \<and> batches_ok (snd r)
     \<and> (acks_all server \<longrightarrow> content (fst r) = [] \<and> concat (snd r) = map (protoEntry \<circ> snd) rows)"

lemma sync_result_stop:
  assumes "suffix (content d') rows" "p \<noteq> []" "length p \<le> batchSize" "\<not> acks_all server"
  shows "sync_result content server rows (d', [p])"
  using assms by (simp add: sync_result_def batches_ok_def)

lemma sync_result_last:
  assumes "content d' = []" "es \<noteq> []" "length es \<le> batchSize"
  shows "sync_result content server es (d', [map (protoEntry \<circ> snd) es])"
  using assms by (simp add: sync_result_def batches_ok_def)

lemma sync_result_more:
  assumes "sync_result content server rest (d', ps)" "es \<noteq> []" "length es \<le> batchSize"
  shows "sync_result content server (es @ rest) (d', map (protoEntry \<circ> snd) es # ps)"
  using assms by (auto simp: sync_result_def batches_ok_def suffix_def)

lemma sync_all_terminates:
  assumes laws: "dexie_laws T content"
  shows "distinct (map fst (content d)) \<Longrightarrow> length (content d) div batchSize < n \<Longrightarrow>
         \<exists>r. sync_all n T server d = Some r \<and> sync_result content server (content d) r"
proof (induction n arbitrary: d)
  case (Suc n)
  define es where "es = take batchSize (content d)"
  define rest where "rest = drop batchSize (content d)"
  define d' where "d' = dx_bulkDelete T (map fst es) d"
  define p where "p = map (protoEntry \<circ> snd) es"
  have c: "content d = es @ rest" by (simp add: es_def rest_def)
  have lim: "dx_limit T batchSize d = es" by (simp add: es_def dexie_lawsD [OF laws])
  have len: "length es \<le> batchSize" by (simp add: es_def)
  have cd': "content d' = rest" unfolding d'_def by (rule content_bulkDelete [OF laws Suc.prems(1) c])
  note unf = lim Let_def d'_def [symmetric] p_def [symmetric]
  consider (none) "es = []" | (some) e where "es \<noteq> []" "server p = Inl e"
    | (zero) r where "es \<noteq> []" "server p = Inr r" "\<not> sl_processedCount r > 0"
    | (last) r where "es \<noteq> []" "server p = Inr r" "sl_processedCount r > 0" "length es < batchSize"
    | (more) r where "es \<noteq> []" "server p = Inr r" "sl_processedCount r > 0" "length es = batchSize"
    using len by (metis le_neq_implies_less old.sum.exhaust)
  then show ?case
  proof cases
    case none
    then have "content d = []" by (simp add: es_def batchSize_def)
    then show ?thesis using none by (simp add: unf sync_result_def batches_ok_def)
  next
    case (some e)
    then have "\<not> acks_all server" using acks_allD(1) [of server p e] len by (auto simp: p_def)
    then have "sync_result content server (content d) (if is_unauthenticated e then dx_clear T d else d, [p])"
      by (rule sync_result_stop [rotated 3]) (use some len dexie_lawsD(4) [OF laws] in \<open>auto simp: p_def\<close>)
    then show ?thesis using some by (simp add: unf)
  next
    case (zero r)
    then have "\<not> acks_all server" using acks_allD(2) [of server p r] len by (auto simp: p_def)
    then have "sync_result content server (content d) (d, [p])"
      by (rule sync_result_stop [rotated 3]) (use zero len in \<open>auto simp: p_def\<close>)
    then show ?thesis using zero by (simp add: unf)
  next
    case (last r)
    then have "rest = []" by (simp add: es_def rest_def)
    then have "sync_result content server (content d) (d', [p])"
      using sync_result_last [of content d' es server] last len cd' by (simp add: c p_def)
    then show ?thesis using last by (simp add: unf)
  next
    case (more r)
    then have "length rest div batchSize < n"
      using Suc.prems(2) unfolding c by (simp add: batchSize_def)
    then obtain d'' ps where IH: "sync_all n T server d' = Some (d'', ps)" "sync_result content server rest (d'', ps)"
      using Suc.IH [of d'] Suc.prems(1) by (auto simp: cd' c)
    then have "sync_result content server (content d) (d'', p # ps)"
      unfolding c p_def by (intro sync_result_more more(1) len)
    then show ?thesis using more IH(1) by (simp add: unf)
  qed
qed simp

text \<open>The whole call is a run of the step machine in which nothing is logged meanwhile.\<close>

lemma sync_all_is_run:
  "sync_all n T server d = Some (d', ps) \<Longrightarrow>
   \<exists>es. logged es = [] \<and>
     fold (sync_step T) es \<lparr>sy_db = d, isSyncing = True, sy_phase = Reading\<rparr>
       = \<lparr>sy_db = d', isSyncing = False, sy_phase = Idle\<rparr>"
proof (induction n arbitrary: d ps)
  case (Suc n)
  define es where "es = dx_limit T batchSize d"
  define p where "p = map (protoEntry \<circ> snd) es"
  note unf = es_def [symmetric] p_def [symmetric] Let_def sync_done_def
  note run = Suc.prems [unfolded sync_all.simps Let_def, folded es_def, folded p_def]
  show ?case
  proof (cases "es = []")
    case True
    then show ?thesis using run by (intro exI [of _ "[BatchRead]"]) (auto simp: es_def Let_def sync_done_def)
  next
    case False
    show ?thesis
    proof (cases "server p")
      case (Inl e)
      then show ?thesis using run False
        by (intro exI [of _ "[BatchRead, Answered (Inl e)] @ (if is_unauthenticated e then [Cleared] else [])"])
           (auto simp: unf)
    next
      case (Inr r)
      show ?thesis
      proof (cases "sl_processedCount r > 0 \<and> \<not> length es < batchSize")
        case True
        then obtain ps' where IH: "sync_all n T server (dx_bulkDelete T (map fst es) d) = Some (d', ps')"
          using run False Inr by auto
        then obtain more where "logged more = []"
          "fold (sync_step T) more \<lparr>sy_db = dx_bulkDelete T (map fst es) d, isSyncing = True, sy_phase = Reading\<rparr>
           = \<lparr>sy_db = d', isSyncing = False, sy_phase = Idle\<rparr>"
          using Suc.IH by blast
        then show ?thesis using True False Inr
          by (intro exI [of _ "[BatchRead, Answered (Inr r), BatchDeleted] @ more"]) (simp add: unf)
      next
        case stop: False
        then show ?thesis using run False Inr
          by (intro exI [of _ "[BatchRead, Answered (Inr r)] @ (if sl_processedCount r > 0 then [BatchDeleted] else [])"])
             (auto simp: unf split: if_splits)
      qed
    qed
  qed
qed simp

text \<open>
  C30: a synchronisation ends. Whatever the server answers, the loop of \<open>syncPendingLogs\<close> over a
  table of \<open>n\<close> entries returns after at most \<open>n div 50 + 1\<close> rounds, having sent non-empty batches
  of at most 50 entries and left a final segment of the table; if the server acknowledges every
  batch, the table is empty and the batches put together are all its entries, in order. The call
  is a run of the step machine from \<open>isSyncing\<close> to rest.
\<close>

theorem syncPendingLogs_drains:
  assumes laws: "dexie_laws T content" and keys: "distinct (map fst (content d))"
  shows "\<exists>d' ps. sync_all (Suc (length (content d) div batchSize)) T server d = Some (d', ps)
    \<and> suffix (content d') (content d) \<and> list_all (\<lambda>p. p \<noteq> [] \<and> length p \<le> batchSize) ps
    \<and> (acks_all server \<longrightarrow> content d' = [] \<and> concat ps = map (protoEntry \<circ> snd) (content d))
    \<and> (\<exists>es. logged es = [] \<and> fold (sync_step T) es \<lparr>sy_db = d, isSyncing = True, sy_phase = Reading\<rparr>
             = \<lparr>sy_db = d', isSyncing = False, sy_phase = Idle\<rparr>)"
proof -
  obtain d' ps where r: "sync_all (Suc (length (content d) div batchSize)) T server d = Some (d', ps)"
    "sync_result content server (content d) (d', ps)"
    using sync_all_terminates [OF laws keys lessI] by (metis surj_pair)
  from sync_all_is_run [OF r(1)] r show ?thesis
    by (simp add: sync_result_def batches_ok_def)
qed

lemma syncPendingLogs_drains_witness:
  "\<exists>d' ps. sync_all 1 list_table (\<lambda>b. Inr \<lparr>sl_processedCount = 1\<rparr>) [(1, sample_entry ''a''), (4, sample_entry ''b'')]
     = Some (d', ps) \<and> d' = [] \<and> concat ps = [protoEntry (sample_entry ''a''), protoEntry (sample_entry ''b'')]"
  using syncPendingLogs_drains [OF list_table_laws,
      of "[(1, sample_entry ''a''), (4, sample_entry ''b'')]" "\<lambda>b. Inr \<lparr>sl_processedCount = 1\<rparr>"]
  by (auto simp: acks_all_def batchSize_def simp del: sync_all.simps)

section \<open>The loop that keeps synchronising\<close>

definition one_loop :: "sync_timer \<Rightarrow> bool" where
  "one_loop t \<longleftrightarrow> st_running t + length (st_armed t) = 1 \<and> (st_armed t = [] \<or> (\<exists>h. st_armed t = [h] \<and> st_id t = Some h))"

lemma one_loop_step: "one_loop t \<Longrightarrow> one_loop (timer_step e t)"
  by (cases e) (auto simp: one_loop_def runFinished_def timeoutFires_def)

lemma one_loop_seq: "one_loop t \<Longrightarrow> one_loop (fold timer_step es t)"
  by (induction es arbitrary: t) (auto simp: one_loop_step)

text \<open>
  After one \<open>startSyncer\<close>, however runs end and timeouts fire, there is always
  exactly one run in progress or one timeout armed, never both and never neither, so the
  synchronisation goes on and never doubles. The armed timeout is the one \<open>syncTimeoutId\<close> holds:
  stopping between two runs ends the loop for good.
\<close>

lemma syncer_one_loop:
  fixes es es' :: "timer_event list"
  defines "t \<equiv> fold timer_step es (startSyncer timer_init)"
  shows "st_running t + length (st_armed t) = 1
    \<and> (if st_running t = 0
       then st_running (fold timer_step es' (stopSyncer t)) = 0 \<and> st_armed (fold timer_step es' (stopSyncer t)) = []
       else st_armed t = [])"
proof
  have "one_loop (startSyncer timer_init)" by (simp add: one_loop_def startSyncer_def timer_init_def)
  then have l: "one_loop t" unfolding t_def by (rule one_loop_seq)
  then show "st_running t + length (st_armed t) = 1" by (simp add: one_loop_def)
  have quiet: "st_running u = 0 \<and> st_armed u = [] \<Longrightarrow>
      st_running (fold timer_step xs u) = 0 \<and> st_armed (fold timer_step xs u) = []" for u xs
  proof (induction xs arbitrary: u)
    case (Cons x xs)
    then have "timer_step x u = u" by (cases x) (auto simp: runFinished_def timeoutFires_def)
    then show ?case using Cons by simp
  qed simp
  have "st_running t = 0 \<Longrightarrow> st_running (stopSyncer t) = 0 \<and> st_armed (stopSyncer t) = []"
    using l by (auto simp: one_loop_def stopSyncer_def)
  moreover have "st_running t \<noteq> 0 \<Longrightarrow> st_armed t = []" using l by (auto simp: one_loop_def)
  ultimately show "if st_running t = 0
       then st_running (fold timer_step es' (stopSyncer t)) = 0 \<and> st_armed (fold timer_step es' (stopSyncer t)) = []
       else st_armed t = []"
    using quiet by simp
qed

text \<open>
  While a run is in progress the timeout that \<open>syncTimeoutId\<close> names has fired, so stopping then
  does not end the loop; and a second start before the first run has ended starts a second loop.
\<close>

lemma stop_during_run:
  "st_armed (runFinished (stopSyncer (startSyncer timer_init))) \<noteq> []"
  by (simp add: runFinished_def stopSyncer_def startSyncer_def timer_init_def)

lemma start_twice_two_loops:
  "length (st_armed (runFinished (runFinished (startSyncer (startSyncer timer_init))))) = 2"
  by (simp add: runFinished_def startSyncer_def timer_init_def)

text \<open>A batch is deleted whole as soon as the server has processed some of it.\<close>

lemma partial_ack_deletes_batch:
  "sync_all 1 list_table (\<lambda>b. Inr \<lparr>sl_processedCount = 1\<rparr>) [(1, sample_entry ''a''), (2, sample_entry ''b'')]
   = Some ([], [[protoEntry (sample_entry ''a''), protoEntry (sample_entry ''b'')]])"
  by (simp add: list_table_def batchSize_def Let_def)

section \<open>What the interceptors record\<close>

text \<open>
  The events \<open>initLogger\<close> listens to, and the calls other modules make. Each carries the time, and
  whether the write it causes succeeds.
\<close>

datatype logger_event =
    ConsoleWarn string bool string "console_arg list"
  | ConsoleError string bool string "console_arg list"
  | WindowError string bool string string
  | Rejection string bool "string option" string string
  | Click string bool string "clicked option"
  | UserAction string bool string string string
  | Unload

fun logger_step :: "'d dexie \<Rightarrow> logger_event \<Rightarrow> 'd logger \<Rightarrow> 'd logger" where
  "logger_step T (ConsoleWarn now ok meta args) s = fst (console_warn T now ok meta args s)"
| "logger_step T (ConsoleError now ok meta args) s = fst (console_error T now ok meta args s)"
| "logger_step T (WindowError now ok msg meta) s = onWindowError T now ok msg meta s"
| "logger_step T (Rejection now ok msg txt meta) s = onUnhandledRejection T now ok msg txt meta s"
| "logger_step T (Click now ok meta target) s = onClick T now ok meta target s"
| "logger_step T (UserAction now ok action cmpnt meta) s = logUserAction T now ok action cmpnt meta s"
| "logger_step T Unload s = setIsUnloading True s"

text \<open>The severity and origin each event has to be recorded with, if it is recorded.\<close>

fun severity :: "logger_event \<Rightarrow> (level \<times> string) list" where
  "severity (ConsoleWarn now ok meta args) =
     (if ok \<and> list_all (\<lambda>a. a \<noteq> ObjectArg None) args then [(WARN, ''Console'')] else [])"
| "severity (ConsoleError now ok meta args) =
     (if ok \<and> list_all (\<lambda>a. a \<noteq> ObjectArg None) args then [(ERROR, ''Console'')] else [])"
| "severity (WindowError now ok msg meta) = (if ok then [(ERROR, ''WindowOnError'')] else [])"
| "severity (Rejection now ok msg txt meta) = (if ok then [(ERROR, ''WindowOnUnhandledRejection'')] else [])"
| "severity (Click now ok meta target) = (if ok \<and> target \<noteq> None then [(INFO, ''UserAction'')] else [])"
| "severity (UserAction now ok action cmpnt meta) = (if ok then [(INFO, cmpnt)] else [])"
| "severity Unload = []"

definition kind_of :: "dBClientLogEntry \<Rightarrow> level \<times> string" where
  "kind_of e = (db_level e, db_component e)"

definition kinds :: "('d \<Rightarrow> row list) \<Rightarrow> 'd logger \<Rightarrow> (level \<times> string) list" where
  "kinds content s = map (kind_of \<circ> snd) (content (lg_db s))"

lemma arg_text_None [simp]: "arg_text a = None \<longleftrightarrow> a = ObjectArg None"
  by (cases a) auto

lemma kinds_addLogEntry:
  assumes "dexie_laws T content"
  shows "kinds content (addLogEntry T now ok lv msg c meta s)
         = kinds content s @ (if ok \<and> \<not> isUnloading s then [(lv, c)] else [])"
proof -
  obtain i where "content (dx_add T \<lparr>db_level = lv, db_message = msg, db_timestamp = now, db_component = c,
      db_metadata = meta\<rparr> (lg_db s)) = content (lg_db s) @ [(i, \<lparr>db_level = lv, db_message = msg,
      db_timestamp = now, db_component = c, db_metadata = meta\<rparr>)]"
    using dexie_lawsD(1) [OF assms] by blast
  then show ?thesis by (simp add: kinds_def addLogEntry_def kind_of_def)
qed

lemma kinds_flag [simp]:
  "kinds content (s\<lparr>isIntercepting := b\<rparr>) = kinds content s"
  "kinds content (s\<lparr>isUnloading := b\<rparr>) = kinds content s"
  by (simp_all add: kinds_def)

lemma addLogEntry_flags [simp]:
  "isIntercepting (addLogEntry T now ok lv msg c meta s) = isIntercepting s"
  "isUnloading (addLogEntry T now ok lv msg c meta s) = isUnloading s"
  by (simp_all add: addLogEntry_def)

lemmas logger_defs = console_warn_def console_error_def console_message_def onWindowError_def
  onUnhandledRejection_def onClick_def logUserAction_def setIsUnloading_def

lemma logger_step_effect:
  assumes "dexie_laws T content" "\<not> isIntercepting s"
  shows "\<not> isIntercepting (logger_step T e s)"
    and "isUnloading (logger_step T e s) \<longleftrightarrow> isUnloading s \<or> e = Unload"
    and "kinds content (logger_step T e s) = kinds content s @ (if isUnloading s then [] else severity e)"
  using assms(2)
  by (cases e; simp add: logger_defs kinds_addLogEntry [OF assms(1)] Let_def split: option.split)+



text \<open>
  The text of a console call is built outside the handler's \<open>try ... catch\<close>: a cyclic object makes
  the wrapped \<open>console.error\<close> itself throw, which the unwrapped one never does.
\<close>

lemma console_error_may_throw:
  "\<not> snd (console_error list_table ''t'' True ''{}'' [ObjectArg None] \<lparr>lg_db = [], isIntercepting = False, isUnloading = False\<rparr>)"
  by (simp add: console_error_def console_message_def)

end
