(* ===== verification/Audit_Logs.thy ===== *)
theory Audit_Logs
  imports Admin_Format
begin

text \<open>
  The audit trail: the hook that holds the search box, the filters, the page and the entries
  (\<open>hooks/useAuditLogs.ts\<close>), and the page that shows them (\<open>components/AuditLogsPage.tsx\<close>).

  The state is the hook's \<open>useState\<close> values with the debounce timer (there is at most one, since
  the effect's cleanup clears the previous). A fetch is split at its await: \<open>fetchLogs_begin\<close> sends
  a request, \<open>fetchLogs_end\<close> receives its outcome. Requests in flight are kept in the order they
  were sent; nothing in the code ties an answer to the latest of them. \<open>Number(resp.total)\<close> is
  exact for totals below \<open>2 ^ 53\<close>.
\<close>

section \<open>The hook\<close>

definition AUDIT_PAGE_SIZE :: nat where
  "AUDIT_PAGE_SIZE = 50"

definition source_ALL :: int where "source_ALL = 0"
definition source_USER :: int where "source_USER = 1"
definition source_SYSTEM :: int where "source_SYSTEM = 2"

definition outcome_ALL :: int where "outcome_ALL = 0"
definition outcome_SUCCESS :: int where "outcome_SUCCESS = 1"
definition outcome_FAILURE :: int where "outcome_FAILURE = 2"
definition outcome_DENIED :: int where "outcome_DENIED = 3"

record audit =
  au_queryInput :: string
  au_query :: string
  au_source :: int
  au_outcome :: int
  au_page :: nat
  au_entries :: "auditLogEntry list"
  au_total :: nat
  au_loading :: bool
  au_error :: "string option"
  au_timer :: bool
  au_flight :: "listAuditLogsRequest list"

text \<open>The values the fetch callback depends on, and the request it sends for them.\<close>

definition audit_request :: "audit \<Rightarrow> listAuditLogsRequest" where
  "audit_request s =
     \<lparr>lar_query = au_query s, lar_source = au_source s, lar_outcome = au_outcome s,
      lar_limit = AUDIT_PAGE_SIZE, lar_offset = au_page s * AUDIT_PAGE_SIZE\<rparr>"

definition fetchLogs_begin :: "audit \<Rightarrow> audit" where
  "fetchLogs_begin s = s\<lparr>au_loading := True, au_error := None, au_flight := au_flight s @ [audit_request s]\<rparr>"

definition fetchLogs_end :: "nat \<Rightarrow> listAuditLogsResponse rpc \<Rightarrow> audit \<Rightarrow> audit" where
  "fetchLogs_end i r s =
     (if i < length (au_flight s)
      then (let s1 = s\<lparr>au_flight := take i (au_flight s) @ drop (Suc i) (au_flight s), au_loading := False\<rparr>
            in case r of
                 Inr resp \<Rightarrow> s1\<lparr>au_entries := las_entries resp, au_total := las_total resp\<rparr>
               | Inl e \<Rightarrow> s1\<lparr>au_error := Some (err_text e)\<rparr>)
      else s)"

text \<open>
  The effects after a render: the fetch effect runs again when the callback's dependencies have
  changed, the debounce effect when the input has.
\<close>

definition audit_effects :: "audit \<Rightarrow> audit \<Rightarrow> audit" where
  "audit_effects old s =
     (let s1 = (if au_queryInput s \<noteq> au_queryInput old then s\<lparr>au_timer := True\<rparr> else s)
      in if (au_query s, au_source s, au_outcome s, au_page s) \<noteq> (au_query old, au_source old, au_outcome old, au_page old)
         then fetchLogs_begin s1 else s1)"

definition debounced :: "audit \<Rightarrow> audit" where
  "debounced s =
     (if au_timer s then s\<lparr>au_timer := False, au_query := au_queryInput s, au_page := 0\<rparr> else s)"

definition setQueryInput :: "string \<Rightarrow> audit \<Rightarrow> audit" where
  "setQueryInput q s = s\<lparr>au_queryInput := q\<rparr>"

definition updateSource :: "int \<Rightarrow> audit \<Rightarrow> audit" where
  "updateSource v s = s\<lparr>au_source := v, au_page := 0\<rparr>"

definition updateOutcome :: "int \<Rightarrow> audit \<Rightarrow> audit" where
  "updateOutcome v s = s\<lparr>au_outcome := v, au_page := 0\<rparr>"

definition prevPage :: "audit \<Rightarrow> audit" where
  "prevPage s = s\<lparr>au_page := au_page s - 1\<rparr>"

definition nextPage :: "audit \<Rightarrow> audit" where
  "nextPage s = s\<lparr>au_page := Suc (au_page s)\<rparr>"

text \<open>\<open>Math.max(1, Math.ceil(total / AUDIT_PAGE_SIZE))\<close>.\<close>

definition audit_pages :: "audit \<Rightarrow> nat" where
  "audit_pages s = max 1 (nat \<lceil>real (au_total s) / real AUDIT_PAGE_SIZE\<rceil>)"

definition useAuditLogs :: audit where
  "useAuditLogs =
     fetchLogs_begin
       \<lparr>au_queryInput = [], au_query = [], au_source = source_ALL, au_outcome = outcome_ALL, au_page = 0,
        au_entries = [], au_total = 0, au_loading = True, au_error = None, au_timer = True, au_flight = []\<rparr>"

section \<open>The page\<close>

datatype audit_msg = Prev | Next | Refresh

definition sourceLabel :: "auditLogEntry \<Rightarrow> string" where
  "sourceLabel e =
     (if ale_source e = source_SYSTEM then ''System''
      else if ale_actorRole e \<noteq> [] then ale_actor e @ '' ('' @ ale_actorRole e @ '')'' else ale_actor e)"

record badge =
  bd_className :: string
  bd_label :: string
  bd_title :: string

definition outcomeBadge :: "auditLogEntry \<Rightarrow> badge" where
  "outcomeBadge e =
     (if ale_outcome e = outcome_FAILURE
      then \<lparr>bd_className = ''logs-row-level error'', bd_label = ''Failure'', bd_title = ''The action failed''\<rparr>
      else if ale_outcome e = outcome_DENIED
      then \<lparr>bd_className = ''logs-row-level warn'', bd_label = ''Denied'', bd_title = ''Not authorized''\<rparr>
      else \<lparr>bd_className = ''logs-row-level info'', bd_label = ''Success'', bd_title = ''The action succeeded''\<rparr>)"

definition resourceLabel :: "auditLogEntry \<Rightarrow> string" where
  "resourceLabel e =
     (if ale_resourceId e = [] then str_or (ale_resourceType e) em_dash
      else ale_resourceType e @ '' '' @ [CHR 0xB7] @ '' '' @ take 12 (ale_resourceId e))"

definition rangeStart :: "audit \<Rightarrow> nat" where
  "rangeStart s = (if au_total s = 0 then 0 else au_page s * AUDIT_PAGE_SIZE + 1)"

definition rangeEnd :: "audit \<Rightarrow> nat" where
  "rangeEnd s = min (au_total s) ((au_page s + 1) * AUDIT_PAGE_SIZE)"

definition auditRow :: "(int \<Rightarrow> string) \<Rightarrow> auditLogEntry \<Rightarrow> audit_msg node" where
  "auditRow fmt e =
     Box ''tr''
       [Text (formatTimestamp fmt (ale_createdAt e)), Text (sourceLabel e), Text (ale_action e),
        Text (resourceLabel e), Box (bd_className (outcomeBadge e)) [Text (bd_label (outcomeBadge e))],
        Text (str_or (ale_detail e) em_dash)]"

definition auditFilters :: "audit \<Rightarrow> audit_msg node list" where
  "auditFilters s =
     [Field ''Search audit logs'' (au_queryInput s) False,
      Select ''Filter by source'' (string_of_int (au_source s))
        (map string_of_int [source_ALL, source_USER, source_SYSTEM]) False,
      Select ''Filter by outcome'' (string_of_int (au_outcome s))
        (map string_of_int [outcome_ALL, outcome_SUCCESS, outcome_FAILURE, outcome_DENIED]) False,
      Button Refresh (au_loading s) None [Text ''Refresh'']]"

definition auditTable :: "(int \<Rightarrow> string) \<Rightarrow> audit \<Rightarrow> audit_msg node list" where
  "auditTable fmt s =
     (if au_entries s = []
      then [Text (if au_loading s then ''Loading audit trail...'' else ''No Audit Entries Found''),
            Text (if au_loading s then ''Fetching recorded mutations and system actions.''
                  else ''No recorded actions match the current search and filters.'')]
      else map Text [''Time'', ''Actor'', ''Action'', ''Resource'', ''Outcome'', ''Details'']
           @ map (auditRow fmt) (au_entries s))"

definition auditPager :: "audit \<Rightarrow> audit_msg node list" where
  "auditPager s =
     [Text (if au_total s = 0 then ''No entries''
            else string_of_nat (rangeStart s) @ en_dash @ string_of_nat (rangeEnd s) @ '' of '' @ string_of_nat (au_total s)),
      Button Prev (au_page s = 0 \<or> au_loading s) None [Text ''Prev''],
      Text (''Page '' @ string_of_nat (au_page s + 1) @ '' of '' @ string_of_nat (audit_pages s)),
      Button Next (au_page s + 1 \<ge> audit_pages s \<or> au_loading s) None [Text ''Next'']]"

definition auditLogsPage :: "(int \<Rightarrow> string) \<Rightarrow> audit \<Rightarrow> audit_msg node list" where
  "auditLogsPage fmt s =
     [Text ''Audit Logs''] @ auditFilters s
     @ (case au_error s of Some e \<Rightarrow> show_if (e \<noteq> []) [Box ''alert'' [Text e]] | None \<Rightarrow> [])
     @ auditTable fmt s @ auditPager s"

section \<open>Events\<close>

datatype audit_event =
    Typed string
  | DebounceFires
  | SourceSelected int
  | OutcomeSelected int
  | Clicked audit_msg
  | Answer nat "listAuditLogsResponse rpc"

text \<open>What the handler of an event sets, before the effects of the next render.\<close>

fun audit_handler :: "(int \<Rightarrow> string) \<Rightarrow> audit_event \<Rightarrow> audit \<Rightarrow> audit" where
  "audit_handler fmt (Typed q) s = setQueryInput q s"
| "audit_handler fmt DebounceFires s = debounced s"
| "audit_handler fmt (SourceSelected v) s = updateSource v s"
| "audit_handler fmt (OutcomeSelected v) s = updateOutcome v s"
| "audit_handler fmt (Clicked m) s =
     (if m \<in> set (offered (auditLogsPage fmt s))
      then (case m of Prev \<Rightarrow> prevPage s | Next \<Rightarrow> nextPage s | Refresh \<Rightarrow> fetchLogs_begin s) else s)"
| "audit_handler fmt (Answer i r) s = fetchLogs_end i r s"

definition audit_step :: "(int \<Rightarrow> string) \<Rightarrow> audit_event \<Rightarrow> audit \<Rightarrow> audit" where
  "audit_step fmt e s = audit_effects s (audit_handler fmt e s)"

section \<open>Pagination\<close>

lemma audit_pages_nat: "audit_pages s = max 1 ((au_total s + 49) div 50)"
proof -
  have "nat \<lceil>real (au_total s) / 50\<rceil> = (au_total s + 49) div 50"
  proof -
    define q where "q = (au_total s + 49) div 50"
    have "50 * q \<le> au_total s + 49" "au_total s + 49 < 50 * q + 50" unfolding q_def by auto
    then have "\<lceil>real (au_total s) / 50\<rceil> = int q" by (intro ceiling_unique) (simp_all add: field_simps)
    then show ?thesis by (simp add: q_def)
  qed
  then show ?thesis by (simp add: audit_pages_def AUDIT_PAGE_SIZE_def)
qed

lemma page_below_pages: "au_page s + 1 < audit_pages s \<longleftrightarrow> (au_page s + 1) * AUDIT_PAGE_SIZE < au_total s"
  by (auto simp: audit_pages_nat AUDIT_PAGE_SIZE_def)

lemma offered_auditRow [simp]: "offered (map (auditRow fmt) es) = []"
  by (induction es) (simp_all add: auditRow_def)

lemma offered_texts [simp]: "offered (map Text ts) = []"
  by (induction ts) simp_all

lemma offered_auditLogsPage:
  "set (offered (auditLogsPage fmt s)) =
     (if au_loading s then {}
      else {Refresh} \<union> (if au_page s = 0 then {} else {Prev})
           \<union> (if (au_page s + 1) * AUDIT_PAGE_SIZE < au_total s then {Next} else {}))"
proof -
  have t: "offered (auditTable fmt s) = []" by (simp add: auditTable_def)
  define more where "more = ((au_page s + 1) * AUDIT_PAGE_SIZE < au_total s)"
  have p: "(au_page s + 1 \<ge> audit_pages s) = (\<not> more)"
    using page_below_pages [of s] unfolding more_def by linarith
  show ?thesis
    unfolding more_def [symmetric] auditLogsPage_def auditFilters_def auditPager_def p
    by (auto simp: t split: option.split)
qed

text \<open>
  C34: pagination. A user who is not waiting for an answer can go back exactly when not on the
  first page and forward exactly when entries remain after this page; the pages from the first to
  the last shown one split the entries: every entry number from 1 to the total lies in the range
  printed for exactly one page, and that page's request asks for the entries from the one before
  its range on, a full page at most. Changing a filter returns to the first page.
\<close>

theorem audit_pagination:
  assumes k: "1 \<le> k" "k \<le> au_total s"
  shows "set (offered (auditLogsPage fmt s)) =
     (if au_loading s then {}
      else {Refresh} \<union> (if au_page s = 0 then {} else {Prev})
           \<union> (if (au_page s + 1) * AUDIT_PAGE_SIZE < au_total s then {Next} else {}))
    \<and> (\<exists>!p. p < audit_pages s \<and> rangeStart (s\<lparr>au_page := p\<rparr>) \<le> k \<and> k \<le> rangeEnd (s\<lparr>au_page := p\<rparr>))
    \<and> lar_offset (audit_request s) + 1 = rangeStart s
    \<and> rangeEnd s \<le> lar_offset (audit_request s) + lar_limit (audit_request s)
    \<and> au_page (updateSource v s) = 0 \<and> au_page (updateOutcome w s) = 0"
proof -
  have in_page: "rangeStart (s\<lparr>au_page := p\<rparr>) \<le> k \<and> k \<le> rangeEnd (s\<lparr>au_page := p\<rparr>) \<longleftrightarrow> p = (k - 1) div 50" for p
    using k by (auto simp: rangeStart_def rangeEnd_def AUDIT_PAGE_SIZE_def)
  have "(k - 1) div 50 < audit_pages s"
    using k by (auto simp: audit_pages_nat less_max_iff_disj)
  with in_page have "\<exists>!p. p < audit_pages s \<and> rangeStart (s\<lparr>au_page := p\<rparr>) \<le> k \<and> k \<le> rangeEnd (s\<lparr>au_page := p\<rparr>)"
    by metis
  then show ?thesis using k
    by (auto simp: offered_auditLogsPage audit_request_def rangeStart_def rangeEnd_def updateSource_def updateOutcome_def)
qed

definition sample_audit :: audit where
  "sample_audit = useAuditLogs\<lparr>au_total := 120, au_page := 1, au_loading := False\<rparr>"

lemma audit_pagination_witness:
  "set (offered (auditLogsPage (\<lambda>_. ''d'') sample_audit)) = {Refresh, Prev, Next}
   \<and> lar_offset (audit_request sample_audit) + 1 = rangeStart sample_audit"
  using audit_pagination [of 75 sample_audit]
  by (simp add: sample_audit_def useAuditLogs_def fetchLogs_begin_def AUDIT_PAGE_SIZE_def insert_commute)

section \<open>The entries follow the filters\<close>

text \<open>
  Runs in which requests are answered in the order they were sent: \<open>None\<close> answers the oldest one,
  by the server \<open>srv\<close>; \<open>Some e\<close> is an event of the user or the timer.
\<close>

fun ordered_step ::
  "(int \<Rightarrow> string) \<Rightarrow> (listAuditLogsRequest \<Rightarrow> listAuditLogsResponse rpc) \<Rightarrow> audit_event option \<Rightarrow> audit \<Rightarrow> audit" where
  "ordered_step fmt srv None s =
     (case au_flight s of [] \<Rightarrow> s | q # qs \<Rightarrow> audit_step fmt (Answer 0 (srv q)) s)"
| "ordered_step fmt srv (Some (Answer i r)) s = s"
| "ordered_step fmt srv (Some e) s = audit_step fmt e s"

definition follows :: "(listAuditLogsRequest \<Rightarrow> listAuditLogsResponse rpc) \<Rightarrow> audit \<Rightarrow> bool" where
  "follows srv s \<longleftrightarrow>
     (if au_flight s = []
      then \<not> au_loading s \<and> (case srv (audit_request s) of
             Inr resp \<Rightarrow> au_entries s = las_entries resp \<and> au_total s = las_total resp
           | Inl e \<Rightarrow> au_error s = Some (err_text e))
      else last (au_flight s) = audit_request s)"

definition same_key :: "audit \<Rightarrow> audit \<Rightarrow> bool" where
  "same_key s t \<longleftrightarrow> au_query s = au_query t \<and> au_source s = au_source t \<and> au_outcome s = au_outcome t \<and> au_page s = au_page t"

lemma audit_request_cong: "same_key s t \<Longrightarrow> audit_request s = audit_request t"
  by (simp add: same_key_def audit_request_def)

lemma audit_effects_cases:
  "audit_effects old s =
     (let s1 = (if au_queryInput s \<noteq> au_queryInput old then s\<lparr>au_timer := True\<rparr> else s)
      in if same_key s old then s1 else fetchLogs_begin s1)"
  by (simp add: audit_effects_def same_key_def Let_def)

lemma follows_begin: "follows srv (fetchLogs_begin s)"
  by (simp add: follows_def fetchLogs_begin_def audit_request_def)

lemma follows_timer [simp]: "follows srv (s\<lparr>au_timer := b\<rparr>) = follows srv s"
  by (simp add: follows_def audit_request_def split: sum.split)

text \<open>Effects after a handler that leaves what is shown alone.\<close>

lemma follows_effects:
  assumes "same_key s old \<Longrightarrow> follows srv s"
  shows "follows srv (audit_effects old s)"
  using assms by (simp add: audit_effects_cases Let_def follows_begin)

lemma follows_answer:
  assumes "follows srv s" "au_flight s = q # qs"
  shows "follows srv (fetchLogs_end 0 (srv q) s)"
proof (cases "qs = []")
  case True
  then have "q = audit_request s" using assms by (simp add: follows_def)
  then show ?thesis using True assms(2)
    by (auto simp: follows_def fetchLogs_end_def audit_request_def Let_def split: sum.splits)
next
  case False
  then show ?thesis using assms
    by (auto simp: follows_def fetchLogs_end_def audit_request_def Let_def split: sum.splits)
qed

lemma follows_handler:
  assumes "follows srv s" "\<And>i r. e \<noteq> Answer i r" "same_key (audit_handler fmt e s) s"
  shows "follows srv (audit_handler fmt e s)"
proof (cases e)
  case (Clicked m)
  show ?thesis
  proof (cases "m \<in> set (offered (auditLogsPage fmt s))")
    case True
    have "m = Refresh"
      using assms(3) True Clicked unfolding offered_auditLogsPage same_key_def
      by (cases m rule: audit_msg.exhaust) (auto simp: offered_auditLogsPage prevPage_def nextPage_def split: if_splits)
    then show ?thesis using True Clicked by (simp add: follows_begin)
  qed (use assms Clicked in simp)
next
  case (Answer i r)
  then show ?thesis using assms(2) by blast
qed (use assms in \<open>auto simp: setQueryInput_def debounced_def updateSource_def updateOutcome_def
       same_key_def follows_def audit_request_def split: if_splits sum.splits\<close>)

lemma follows_step: "follows srv s \<Longrightarrow> follows srv (ordered_step fmt srv e s)"
proof (cases "(fmt, srv, e, s)" rule: ordered_step.cases)
  case 1
  assume "follows srv s"
  with 1 show ?thesis
    by (auto simp: audit_step_def intro!: follows_effects follows_answer split: list.split)
qed (auto simp: audit_step_def simp del: audit_handler.simps intro!: follows_effects follows_handler)

text \<open>
  C33: the entries follow the filters. From the page's first render on, through any sequence of
  typing, pauses, filter and page changes and refreshes, with the answers arriving in the order
  the requests were sent: while a request is out, the last one carries exactly the committed
  search, filters and page; and once none is out, the page is no longer loading and shows what
  the server answers for exactly those values, or that answer's error.
\<close>

theorem audit_shows_current:
  "let s = fold (ordered_step fmt srv) es useAuditLogs
   in if au_flight s = []
      then \<not> au_loading s \<and> (case srv (audit_request s) of
             Inr resp \<Rightarrow> au_entries s = las_entries resp \<and> au_total s = las_total resp
           | Inl e \<Rightarrow> au_error s = Some (err_text e))
      else last (au_flight s) = audit_request s"
proof -
  have "follows srv s \<Longrightarrow> follows srv (fold (ordered_step fmt srv) es s)" for s
    by (induction es arbitrary: s) (simp_all add: follows_step)
  then have "follows srv (fold (ordered_step fmt srv) es useAuditLogs)"
    by (simp add: useAuditLogs_def follows_begin)
  then show ?thesis by (simp add: follows_def Let_def)
qed

text \<open>
  Nothing ties an answer to the latest request, so the order matters: a slow answer for an old
  filter replaces the entries of the new one, and a failure of an overtaken request stays on
  the page although the latest request succeeded. The debounce timer armed by the first render
  returns a user who pages forward within 300 ms to the first page.
\<close>

definition answer_for :: "nat \<Rightarrow> listAuditLogsResponse rpc" where
  "answer_for n = Inr \<lparr>las_entries = [], las_total = n\<rparr>"

lemma overtaken_answer_shown:
  "au_total (fold (audit_step fmt) [SourceSelected 1, Answer 1 (answer_for 7), Answer 0 (answer_for 99)] useAuditLogs) = 99"
  by (simp add: audit_step_def audit_effects_def updateSource_def fetchLogs_end_def fetchLogs_begin_def
      useAuditLogs_def source_ALL_def answer_for_def Let_def)

lemma overtaken_error_stays:
  "au_error (fold (audit_step fmt) [SourceSelected 1, Answer 0 (Inl (PlainError ''down'')), Answer 0 (answer_for 7)] useAuditLogs)
   = Some ''down''"
  by (simp add: audit_step_def audit_effects_def updateSource_def fetchLogs_end_def fetchLogs_begin_def
      useAuditLogs_def source_ALL_def answer_for_def Let_def)

lemma first_timer_resets_page:
  "au_page (fold (audit_step fmt) [Answer 0 (answer_for 99), Clicked Next] useAuditLogs) = 1"
  "au_page (fold (audit_step fmt) [Answer 0 (answer_for 99), Clicked Next, DebounceFires] useAuditLogs) = 0"
  by (simp_all add: audit_step_def audit_effects_def fetchLogs_end_def fetchLogs_begin_def offered_auditLogsPage
      nextPage_def debounced_def useAuditLogs_def answer_for_def AUDIT_PAGE_SIZE_def Let_def)

end
