(* ===== verification/Log_Views.thy ===== *)
theory Log_Views
  imports Wire_Messages
begin

text \<open>
  The two log viewers: the page of system logs with its filters, its refresh interval and its
  expandable rows (\<open>components/SystemLogs.tsx\<close>), and the drawer that streams one container's log
  into a terminal (\<open>components/LogsDrawer.tsx\<close>).

  The terminal is xterm's and is seen only through the commands the drawer gives it: each command
  is recorded with the number of the terminal it goes to, since the drawer makes a new terminal
  every time it opens. Requests in flight and streams are numbered in the order they were made.
\<close>

section \<open>System logs\<close>

record sysLogs =
  sy_logs :: "logEntry list"
  sy_loading :: bool
  sy_error :: "string option"
  sy_searchQuery :: string
  sy_levelFilter :: string
  sy_limit :: int
  sy_autoRefreshInterval :: int
  sy_expanded :: "nat \<Rightarrow> bool"
  sy_intervalRef :: "nat option"
  sy_intervals :: "(nat \<times> int \<times> getSystemLogsRequest) list"
  sy_nextInterval :: nat
  sy_flight :: "(bool \<times> getSystemLogsRequest) list"

definition toggleExpandLog :: "nat \<Rightarrow> sysLogs \<Rightarrow> sysLogs" where
  "toggleExpandLog i s = s\<lparr>sy_expanded := (sy_expanded s)(i := \<not> sy_expanded s i)\<rparr>"

definition sys_request :: "sysLogs \<Rightarrow> getSystemLogsRequest" where
  "sys_request s =
     \<lparr>gsl_limit = sy_limit s, gsl_levelFilter = sy_levelFilter s, gsl_searchQuery = sy_searchQuery s\<rparr>"

text \<open>A visible fetch (\<open>False\<close>) and a silent one made by the interval (\<open>True\<close>).\<close>

definition sysFetch_begin :: "sysLogs \<Rightarrow> sysLogs" where
  "sysFetch_begin s = s\<lparr>sy_loading := True, sy_error := None, sy_flight := sy_flight s @ [(False, sys_request s)]\<rparr>"

text \<open>The interval's callback sends the request of the render that armed the interval.\<close>

definition sysInterval_fires :: "nat \<Rightarrow> sysLogs \<Rightarrow> sysLogs" where
  "sysInterval_fires h s =
     (case map_of (sy_intervals s) h of
        None \<Rightarrow> s
      | Some (period, req) \<Rightarrow> s\<lparr>sy_flight := sy_flight s @ [(True, req)]\<rparr>)"

definition sysFetch_end :: "nat \<Rightarrow> logEntry list rpc \<Rightarrow> sysLogs \<Rightarrow> sysLogs" where
  "sysFetch_end i r s =
     (if i < length (sy_flight s)
      then (let silent = fst (sy_flight s ! i);
                s1 = s\<lparr>sy_flight := take i (sy_flight s) @ drop (Suc i) (sy_flight s)\<rparr>;
                s2 = (case r of Inr entries \<Rightarrow> s1\<lparr>sy_logs := entries\<rparr>
                      | Inl e \<Rightarrow> if silent then s1 else s1\<lparr>sy_error := Some (err_text e)\<rparr>)
            in if silent then s2 else s2\<lparr>sy_loading := False\<rparr>)
      else s)"

text \<open>The interval effect: its cleanup, and its body.\<close>

definition clearSysInterval :: "sysLogs \<Rightarrow> sysLogs" where
  "clearSysInterval s =
     (case sy_intervalRef s of None \<Rightarrow> s
      | Some h \<Rightarrow> s\<lparr>sy_intervals := filter (\<lambda>iv. fst iv \<noteq> h) (sy_intervals s)\<rparr>)"

definition armSysInterval :: "sysLogs \<Rightarrow> sysLogs" where
  "armSysInterval s =
     (let s1 = (clearSysInterval s)\<lparr>sy_intervalRef := None\<rparr>
      in if sy_autoRefreshInterval s1 > 0
         then s1\<lparr>sy_intervalRef := Some (sy_nextInterval s1), sy_nextInterval := Suc (sy_nextInterval s1),
                 sy_intervals := (sy_nextInterval s1, sy_autoRefreshInterval s1, sys_request s1) # sy_intervals s1\<rparr>
         else s1)"

definition sys_mount :: sysLogs where
  "sys_mount =
     armSysInterval (sysFetch_begin
       \<lparr>sy_logs = [], sy_loading = True, sy_error = None, sy_searchQuery = [], sy_levelFilter = [], sy_limit = 100,
        sy_autoRefreshInterval = 10000, sy_expanded = (\<lambda>_. False), sy_intervalRef = None, sy_intervals = [],
        sy_nextInterval = 1, sy_flight = []\<rparr>)"

definition sys_effects :: "sysLogs \<Rightarrow> sysLogs \<Rightarrow> sysLogs" where
  "sys_effects old s =
     (let s1 = (if sys_request s \<noteq> sys_request old then sysFetch_begin s else s)
      in if (sy_autoRefreshInterval s, sys_request s) \<noteq> (sy_autoRefreshInterval old, sys_request old)
         then armSysInterval (clearSysInterval s1) else s1)"

definition sys_unmount :: "sysLogs \<Rightarrow> sysLogs" where
  "sys_unmount s = clearSysInterval s"

definition errorCount :: "logEntry list \<Rightarrow> nat" where
  "errorCount logs =
     length (filter (\<lambda>l. le_level l = ''ERROR'' \<or> le_level l = ''DPANIC'' \<or> le_level l = ''PANIC'' \<or> le_level l = ''FATAL'') logs)"

definition warnCount :: "logEntry list \<Rightarrow> nat" where
  "warnCount logs = length (filter (\<lambda>l. le_level l = ''WARN'' \<or> le_level l = ''WARNING'') logs)"

definition infoCount :: "logEntry list \<Rightarrow> nat" where
  "infoCount logs = length (filter (\<lambda>l. le_level l = ''INFO'' \<or> le_level l = ''DEBUG'') logs)"

text \<open>\<open>parse\<close> is the browser's date parser and printer: \<open>None\<close> for an invalid date.\<close>

definition formatLogTimestamp :: "(string \<Rightarrow> string option) \<Rightarrow> string \<Rightarrow> string" where
  "formatLogTimestamp parse ts = (case parse ts of None \<Rightarrow> ts | Some d \<Rightarrow> d)"

datatype level_icon = XCircle | AlertTriangle | TerminalIcon | InfoIcon

definition getLevelIcon :: "string \<Rightarrow> level_icon" where
  "getLevelIcon level =
     (let lvl = toUpperCase level
      in if str_includes lvl ''ERR'' \<or> str_includes lvl ''FAIL'' \<or> str_includes lvl ''PANIC'' then XCircle
         else if str_includes lvl ''WARN'' then AlertTriangle
         else if str_includes lvl ''DEBUG'' then TerminalIcon
         else InfoIcon)"

datatype sys_msg = RefreshLogs | ToggleLog nat

definition sysStat :: "bool \<Rightarrow> logEntry list \<Rightarrow> nat \<Rightarrow> string \<Rightarrow> sys_msg node" where
  "sysStat loading logs n label =
     Box ''stat-card'' [Text (if loading \<and> logs = [] then ''--'' else string_of_nat n), Text label]"

text \<open>\<open>pretty\<close> re-indents a JSON text; \<open>None\<close> is a parse error.\<close>

definition sysRow ::
  "(string \<Rightarrow> string option) \<Rightarrow> (string \<Rightarrow> string option) \<Rightarrow> sysLogs \<Rightarrow> nat \<Rightarrow> logEntry \<Rightarrow> sys_msg node" where
  "sysRow parse pretty s i l =
     Box ''tr''
       ([Box (''logs-row-level '' @ toLowerCase (le_level l)) [Text (le_level l)],
         Text (formatLogTimestamp parse (le_timestamp l)),
         Text (if le_component l \<noteq> [] then le_component l else ''-''), Text (le_message l)]
        @ show_if (le_metadata l \<noteq> [])
            ([Button (ToggleLog i) False None [Text (if sy_expanded s i then ''Hide Details'' else ''Show Details'')]]
             @ show_if (sy_expanded s i)
                 [Text (case pretty (le_metadata l) of None \<Rightarrow> le_metadata l | Some t \<Rightarrow> t)]))"

definition sysFilters :: "sysLogs \<Rightarrow> sys_msg node list" where
  "sysFilters s =
     [Field ''search'' (sy_searchQuery s) False,
      Select ''Filter by Log Level'' (sy_levelFilter s) [[], ''DEBUG'', ''INFO'', ''WARN'', ''ERROR''] False,
      Select ''Limit log entries count'' (string_of_int (sy_limit s)) [''50'', ''100'', ''200'', ''500''] False,
      Select ''Set auto refresh interval'' (string_of_int (sy_autoRefreshInterval s))
        [''0'', ''3000'', ''5000'', ''10000'', ''30000''] False]"

definition systemLogs :: "(string \<Rightarrow> string option) \<Rightarrow> (string \<Rightarrow> string option) \<Rightarrow> sysLogs \<Rightarrow> sys_msg node list" where
  "systemLogs parse pretty s =
     [Text ''System Logs'', Button RefreshLogs (sy_loading s) None [Text ''Refresh''],
      sysStat (sy_loading s) (sy_logs s) (length (sy_logs s)) ''Buffered Logs'',
      sysStat (sy_loading s) (sy_logs s) (errorCount (sy_logs s)) ''Errors'',
      sysStat (sy_loading s) (sy_logs s) (warnCount (sy_logs s)) ''Warnings'',
      sysStat (sy_loading s) (sy_logs s) (infoCount (sy_logs s)) ''Info & Debug'']
     @ sysFilters s
     @ (case sy_error s of None \<Rightarrow> [] | Some e \<Rightarrow> show_if (e \<noteq> []) [Text e])
     @ (if sy_logs s = []
        then [Text (if sy_loading s then ''Loading logs from daemon...'' else ''No matching log entries found.'')]
        else map Text [''Level'', ''Timestamp'', ''Component'', ''Message'']
             @ map (\<lambda>(i, l). sysRow parse pretty s i l) (enumerate 0 (sy_logs s)))"

datatype sys_event =
    SearchTyped string
  | LevelSelected string
  | LimitSelected int
  | IntervalSelected int
  | SysClicked sys_msg
  | SysTick nat
  | SysAnswer nat "logEntry list rpc"

fun sys_handler :: "sys_event \<Rightarrow> sysLogs \<Rightarrow> sysLogs" where
  "sys_handler (SearchTyped q) s = s\<lparr>sy_searchQuery := q\<rparr>"
| "sys_handler (LevelSelected l) s = s\<lparr>sy_levelFilter := l\<rparr>"
| "sys_handler (LimitSelected n) s = s\<lparr>sy_limit := n\<rparr>"
| "sys_handler (IntervalSelected n) s = s\<lparr>sy_autoRefreshInterval := n\<rparr>"
| "sys_handler (SysClicked RefreshLogs) s = (if sy_loading s then s else sysFetch_begin s)"
| "sys_handler (SysClicked (ToggleLog i)) s = toggleExpandLog i s"
| "sys_handler (SysTick h) s = sysInterval_fires h s"
| "sys_handler (SysAnswer i r) s = sysFetch_end i r s"

definition sys_step :: "sys_event \<Rightarrow> sysLogs \<Rightarrow> sysLogs" where
  "sys_step e s = sys_effects s (sys_handler e s)"

section \<open>The logs drawer\<close>

datatype drawer_status = Connecting | Streaming | Disconnected | StreamError

datatype term_cmd = Clear | Write string

datatype stream_phase = Opening | Open | Over

record log_stream =
  ls_request :: getContainerLogsRequest
  ls_term :: nat
  isSubscribed :: bool
  ls_aborted :: bool
  ls_phase :: stream_phase

record drawer =
  dr_containerId :: "string option"
  dr_containerName :: "string option"
  dr_tailLines :: int
  dr_follow :: bool
  dr_status :: drawer_status
  xtermRef :: "nat option"
  dr_nextTerm :: nat
  dr_streams :: "log_stream list"
  dr_output :: "(nat \<times> term_cmd) list"

definition drawer_isOpen :: "drawer \<Rightarrow> bool" where
  "drawer_isOpen d = (case dr_containerId d of None \<Rightarrow> False | Some i \<Rightarrow> i \<noteq> [])"

definition drawer_init :: drawer where
  "drawer_init =
     \<lparr>dr_containerId = None, dr_containerName = None, dr_tailLines = 100, dr_follow = True, dr_status = Disconnected,
      xtermRef = None, dr_nextTerm = 1, dr_streams = [], dr_output = []\<rparr>"

definition esc :: string where
  "esc = [CHR 0x1B]"

definition crlf :: string where
  "crlf = [CHR 0x0D, CHR 0x0A]"

definition coloured :: "string \<Rightarrow> string \<Rightarrow> string" where
  "coloured code s = esc @ ''['' @ code @ ''m'' @ s @ esc @ ''[0m''"

text \<open>Commands a stream gives to the terminal it was started with.\<close>

definition term_do :: "log_stream \<Rightarrow> term_cmd list \<Rightarrow> drawer \<Rightarrow> drawer" where
  "term_do st cmds d = d\<lparr>dr_output := dr_output d @ map (Pair (ls_term st)) cmds\<rparr>"

text \<open>The cleanups and bodies of the two effects.\<close>

definition initTerminal :: "drawer \<Rightarrow> drawer" where
  "initTerminal d =
     (if drawer_isOpen d then d\<lparr>xtermRef := Some (dr_nextTerm d), dr_nextTerm := Suc (dr_nextTerm d)\<rparr> else d)"

definition disposeTerminal :: "drawer \<Rightarrow> drawer" where
  "disposeTerminal d = d\<lparr>xtermRef := None\<rparr>"

definition stopStream :: "log_stream \<Rightarrow> log_stream" where
  "stopStream st = st\<lparr>isSubscribed := False, ls_aborted := True\<rparr>"

text \<open>The cleanup of the last run of the effect; earlier runs were cleaned up before.\<close>

definition unsubscribe :: "drawer \<Rightarrow> drawer" where
  "unsubscribe d =
     (if dr_streams d = [] then d
      else d\<lparr>dr_streams := butlast (dr_streams d) @ [stopStream (last (dr_streams d))]\<rparr>)"

definition streamLogs :: "drawer \<Rightarrow> drawer" where
  "streamLogs d =
     (case (dr_containerId d, xtermRef d) of
        (Some i, Some t) \<Rightarrow>
          if i = [] then d
          else (let st = \<lparr>ls_request = \<lparr>gl_id = i, gl_tailLines = dr_tailLines d, gl_follow = dr_follow d\<rparr>,
                          ls_term = t, isSubscribed = True, ls_aborted = False, ls_phase = Opening\<rparr>
                in term_do st [Clear, Write (coloured ''90'' ''Connecting to logs stream...'' @ crlf)]
                     (d\<lparr>dr_status := Connecting, dr_streams := dr_streams d @ [st]\<rparr>))
      | _ \<Rightarrow> d)"

text \<open>
  After a render: all cleanups of effects whose dependencies changed run first, then the bodies,
  in the order of the effects.
\<close>

definition drawer_key :: "drawer \<Rightarrow> bool \<times> string option \<times> int \<times> bool" where
  "drawer_key d = (drawer_isOpen d, dr_containerId d, dr_tailLines d, dr_follow d)"

definition drawer_effects :: "drawer \<Rightarrow> drawer \<Rightarrow> drawer" where
  "drawer_effects old d =
     (let terminal = (drawer_isOpen d \<noteq> drawer_isOpen old);
          stream = (drawer_key d \<noteq> drawer_key old);
          d1 = (if terminal then disposeTerminal d else d);
          d2 = (if stream then unsubscribe d1 else d1);
          d3 = (if terminal then initTerminal d2 else d2)
      in if stream then streamLogs d3 else d3)"

text \<open>The parts of \<open>streamLogs\<close> between its awaits, for the stream with number \<open>i\<close>.\<close>

definition set_phase :: "nat \<Rightarrow> stream_phase \<Rightarrow> drawer \<Rightarrow> drawer" where
  "set_phase i p d = d\<lparr>dr_streams := (dr_streams d)[i := (dr_streams d ! i)\<lparr>ls_phase := p\<rparr>]\<rparr>"

definition stream_opened :: "nat \<Rightarrow> drawer \<Rightarrow> drawer" where
  "stream_opened i d =
     (let st = dr_streams d ! i
      in if \<not> isSubscribed st then set_phase i Over d
         else term_do st [Write (coloured ''32'' ''Connected. Streaming container logs:'' @ crlf @ crlf)]
                (set_phase i Open (d\<lparr>dr_status := Streaming\<rparr>)))"

definition stream_chunk :: "nat \<Rightarrow> getContainerLogsResponse \<Rightarrow> drawer \<Rightarrow> drawer" where
  "stream_chunk i chunk d =
     (let st = dr_streams d ! i
      in if \<not> isSubscribed st then set_phase i Over d else term_do st [Write (gl_logLine chunk @ crlf)] d)"

definition stream_closed :: "nat \<Rightarrow> drawer \<Rightarrow> drawer" where
  "stream_closed i d =
     (let st = dr_streams d ! i; d1 = set_phase i Over d
      in if isSubscribed st
         then term_do st [Write (crlf @ coloured ''90'' ''Stream closed by server.'' @ crlf)] (d1\<lparr>dr_status := Disconnected\<rparr>)
         else d1)"

definition stream_failed :: "nat \<Rightarrow> js_error \<Rightarrow> drawer \<Rightarrow> drawer" where
  "stream_failed i e d =
     (let st = dr_streams d ! i; d1 = set_phase i Over d
      in if ls_aborted st
         then (if isSubscribed st
               then term_do st [Write (crlf @ coloured ''90'' ''Stream paused.'' @ crlf)] (d1\<lparr>dr_status := Disconnected\<rparr>)
               else d1)
         else if isSubscribed st
         then term_do st [Write (crlf @ coloured ''31'' (''Error: '' @ err_text e) @ crlf)] (d1\<lparr>dr_status := StreamError\<rparr>)
         else d1)"

definition handleClear :: "drawer \<Rightarrow> drawer" where
  "handleClear d =
     (case xtermRef d of None \<Rightarrow> d | Some t \<Rightarrow> d\<lparr>dr_output := dr_output d @ [(t, Clear)]\<rparr>)"

datatype drawer_msg = CloseDrawer | ClearTerminal | ToggleFollow

definition status_text :: "drawer_status \<Rightarrow> string" where
  "status_text s =
     (case s of Connecting \<Rightarrow> ''connecting'' | Streaming \<Rightarrow> ''streaming'' | Disconnected \<Rightarrow> ''disconnected''
      | StreamError \<Rightarrow> ''error'')"

definition logsDrawer :: "drawer \<Rightarrow> drawer_msg node list" where
  "logsDrawer d =
     [Button CloseDrawer False None [],
      Text ''Logs Console'',
      Text (case dr_containerName d of
              Some n \<Rightarrow> if n \<noteq> [] then n else (case dr_containerId d of Some i \<Rightarrow> i | None \<Rightarrow> [])
            | None \<Rightarrow> (case dr_containerId d of Some i \<Rightarrow> i | None \<Rightarrow> [])),
      Button CloseDrawer False None [],
      Select ''Lines:'' (string_of_int (dr_tailLines d)) [''50'', ''100'', ''250'', ''500'', ''1000''] False,
      Button ToggleFollow False None [Text ''Follow Stream''],
      Box (''logs-status-badge '' @ status_text (dr_status d)) [Text (status_text (dr_status d))],
      Button ClearTerminal False (Some ''Clear terminal buffer'') [Text ''Clear'']]"

datatype drawer_event =
    PropsChange "string option" "string option"
  | TailSelected int
  | FollowSet bool
  | ClearClicked
  | Opened nat
  | Chunk nat getContainerLogsResponse
  | Closed nat
  | Failed nat js_error

text \<open>An event of a stream happens in the phase in which the code awaits it.\<close>

definition awaits :: "nat \<Rightarrow> stream_phase set \<Rightarrow> drawer \<Rightarrow> bool" where
  "awaits i ps d \<longleftrightarrow> i < length (dr_streams d) \<and> ls_phase (dr_streams d ! i) \<in> ps"

fun drawer_step :: "drawer_event \<Rightarrow> drawer \<Rightarrow> drawer" where
  "drawer_step (PropsChange i n) d = drawer_effects d (d\<lparr>dr_containerId := i, dr_containerName := n\<rparr>)"
| "drawer_step (TailSelected n) d = drawer_effects d (d\<lparr>dr_tailLines := n\<rparr>)"
| "drawer_step (FollowSet b) d = drawer_effects d (d\<lparr>dr_follow := b\<rparr>)"
| "drawer_step ClearClicked d = handleClear d"
| "drawer_step (Opened i) d = (if awaits i {Opening} d then stream_opened i d else d)"
| "drawer_step (Chunk i c) d = (if awaits i {Open} d then stream_chunk i c d else d)"
| "drawer_step (Closed i) d = (if awaits i {Open} d then stream_closed i d else d)"
| "drawer_step (Failed i e) d = (if awaits i {Opening, Open} d then stream_failed i e d else d)"

section \<open>One interval, with the current filters\<close>

definition interval_now :: "sysLogs \<Rightarrow> bool" where
  "interval_now s \<longleftrightarrow>
     (if sy_autoRefreshInterval s > 0
      then \<exists>h. sy_intervalRef s = Some h \<and> sy_intervals s = [(h, sy_autoRefreshInterval s, sys_request s)]
      else sy_intervalRef s = None \<and> sy_intervals s = [])"

lemma sysFetch_begin_keeps [simp]:
  "sy_intervalRef (sysFetch_begin s) = sy_intervalRef s" "sy_intervals (sysFetch_begin s) = sy_intervals s"
  "sys_request (sysFetch_begin s) = sys_request s" "sy_autoRefreshInterval (sysFetch_begin s) = sy_autoRefreshInterval s"
  by (simp_all add: sysFetch_begin_def sys_request_def)

lemma clear_interval:
  assumes "interval_now old" "sy_intervalRef s = sy_intervalRef old" "sy_intervals s = sy_intervals old"
  shows "sy_intervals (clearSysInterval s) = []" "sy_intervalRef (clearSysInterval s) = sy_intervalRef s"
    "sys_request (clearSysInterval s) = sys_request s"
    "sy_autoRefreshInterval (clearSysInterval s) = sy_autoRefreshInterval s"
  using assms by (auto simp: interval_now_def clearSysInterval_def sys_request_def split: if_splits option.splits)

lemma arm_interval: "sy_intervals s = [] \<Longrightarrow> interval_now (armSysInterval s)"
  by (auto simp: interval_now_def armSysInterval_def clearSysInterval_def sys_request_def Let_def split: option.splits)

lemma interval_now_effects:
  assumes "interval_now old" "sy_intervalRef s = sy_intervalRef old" "sy_intervals s = sy_intervals old"
  shows "interval_now (sys_effects old s)"
proof (cases "(sy_autoRefreshInterval s, sys_request s) = (sy_autoRefreshInterval old, sys_request old)")
  case True
  then show ?thesis using assms by (simp add: sys_effects_def interval_now_def)
next
  case False
  have "interval_now (armSysInterval (clearSysInterval t))"
    if "sy_intervalRef t = sy_intervalRef old" "sy_intervals t = sy_intervals old" for t
    using clear_interval [OF assms(1) that] by (intro arm_interval) simp
  then show ?thesis using assms False by (simp add: sys_effects_def Let_def)
qed

lemma sys_handler_keeps:
  "sy_intervalRef (sys_handler e s) = sy_intervalRef s" "sy_intervals (sys_handler e s) = sy_intervals s"
  by (cases "(e, s)" rule: sys_handler.cases;
      auto simp: toggleExpandLog_def sysInterval_fires_def sysFetch_end_def Let_def split: option.splits sum.splits)+

lemma interval_now_run: "interval_now s \<Longrightarrow> interval_now (fold sys_step es s)"
  by (induction es arbitrary: s) (simp_all add: sys_step_def interval_now_effects sys_handler_keeps)

lemma interval_now_mount: "interval_now sys_mount"
  unfolding sys_mount_def by (rule arm_interval) simp

lemma counts_disjoint: "errorCount logs + warnCount logs + infoCount logs \<le> length logs"
  by (induction logs) (auto simp: errorCount_def warnCount_def infoCount_def)

text \<open>
  C35: refreshing the system logs. Whatever the user types and selects and whenever intervals fire
  and answers arrive, exactly one interval runs when automatic refresh is on and none when it is
  off; it has the selected period, and its requests carry the filters that are selected now, not
  those of the render that first armed one. Leaving the page stops it. A background refresh that
  fails leaves the entries, the error and the loading state as they are. The error, warning and
  information counters never count an entry twice.
\<close>

theorem system_logs_refresh:
  "let s = fold sys_step es sys_mount
   in (if sy_autoRefreshInterval s > 0
       then \<exists>h. sy_intervalRef s = Some h \<and> sy_intervals s = [(h, sy_autoRefreshInterval s, sys_request s)]
       else sy_intervals s = [])
    \<and> sy_intervals (sys_unmount s) = []
    \<and> (if i < length (sy_flight s) \<and> fst (sy_flight s ! i)
       then sysFetch_end i (Inl e) s = s\<lparr>sy_flight := take i (sy_flight s) @ drop (Suc i) (sy_flight s)\<rparr>
       else True)
    \<and> errorCount (sy_logs s) + warnCount (sy_logs s) + infoCount (sy_logs s) \<le> length (sy_logs s)"
proof -
  define s where "s = fold sys_step es sys_mount"
  have now: "interval_now s" unfolding s_def by (rule interval_now_run [OF interval_now_mount])
  have "sy_intervals (sys_unmount s) = []"
    unfolding sys_unmount_def by (rule clear_interval(1) [OF now refl refl])
  with now counts_disjoint [of "sy_logs s"] show ?thesis
    unfolding s_def [symmetric] by (simp add: interval_now_def sysFetch_end_def Let_def)
qed

text \<open>
  Rows are expanded by position, and a refresh replaces the entries: after a new entry has come
  in on top, the details shown are those of another entry. The icon of a fatal entry, which is
  counted as an error, is that of an information.
\<close>

definition sample_log :: "string \<Rightarrow> logEntry" where
  "sample_log m = \<lparr>le_level = ''INFO'', le_message = m, le_timestamp = ''t'', le_component = [], le_metadata = ''{}''\<rparr>"

lemma expansion_moves:
  "let s = fold sys_step [SysAnswer 0 (Inr [sample_log ''old'']), SysClicked (ToggleLog 0)] sys_mount;
       s' = fold sys_step [SysTick 1, SysAnswer 0 (Inr [sample_log ''new'', sample_log ''old''])] s
   in sy_logs s ! 0 = sample_log ''old'' \<and> sy_expanded s 0
      \<and> sy_logs s' ! 1 = sample_log ''old'' \<and> \<not> sy_expanded s' 1 \<and> sy_expanded s' 0"
  by code_simp

lemma fatal_icon:
  "errorCount [sample_log ''x''\<lparr>le_level := ''FATAL''\<rparr>] = 1" "getLevelIcon ''FATAL'' = InfoIcon"
  by (simp add: errorCount_def) (code_simp)

section \<open>Only the current stream reaches the terminal\<close>

definition current_stream :: "drawer \<Rightarrow> log_stream \<Rightarrow> bool" where
  "current_stream d st \<longleftrightarrow>
     isSubscribed st \<and> xtermRef d = Some (ls_term st) \<and> dr_containerId d = Some (gl_id (ls_request st))
     \<and> gl_tailLines (ls_request st) = dr_tailLines d \<and> gl_follow (ls_request st) = dr_follow d"

definition stopped :: "log_stream \<Rightarrow> bool" where
  "stopped st \<longleftrightarrow> \<not> isSubscribed st"

definition drawer_inv :: "drawer \<Rightarrow> bool" where
  "drawer_inv d \<longleftrightarrow>
     (\<forall>st \<in> set (butlast (dr_streams d)). stopped st)
     \<and> (\<forall>st \<in> set (dr_streams d). isSubscribed st \<longrightarrow> \<not> ls_aborted st)
     \<and> (if drawer_isOpen d then dr_streams d \<noteq> [] \<and> current_stream d (last (dr_streams d))
        else xtermRef d = None \<and> (dr_streams d = [] \<or> stopped (last (dr_streams d))))"

lemma drawer_inv_init: "drawer_inv drawer_init"
  by (simp add: drawer_inv_def drawer_init_def drawer_isOpen_def)

text \<open>After the cleanup every stream is stopped.\<close>

lemma unsubscribe_stops:
  assumes "drawer_inv d" "dr_streams e = dr_streams d"
  shows "\<forall>st \<in> set (dr_streams (unsubscribe e)). stopped st"
  using assms by (auto simp: unsubscribe_def drawer_inv_def stopStream_def stopped_def)

lemma unsubscribe_keeps [simp]:
  "dr_containerId (unsubscribe d) = dr_containerId d" "dr_tailLines (unsubscribe d) = dr_tailLines d"
  "dr_follow (unsubscribe d) = dr_follow d" "xtermRef (unsubscribe d) = xtermRef d"
  "dr_output (unsubscribe d) = dr_output d" "drawer_isOpen (unsubscribe d) = drawer_isOpen d"
  by (simp_all add: unsubscribe_def drawer_isOpen_def)

lemma streamLogs_inv:
  assumes "\<forall>st \<in> set (dr_streams d). stopped st" "drawer_isOpen d \<longleftrightarrow> xtermRef d \<noteq> None"
  shows "drawer_inv (streamLogs d)"
proof (cases "drawer_isOpen d")
  case True
  then obtain i t where "dr_containerId d = Some i" "i \<noteq> []" "xtermRef d = Some t"
    using assms(2) by (auto simp: drawer_isOpen_def split: option.splits)
  then show ?thesis using assms(1)
    by (auto simp: streamLogs_def drawer_inv_def term_do_def drawer_isOpen_def current_stream_def stopped_def Let_def)
next
  case False
  then have "streamLogs d = d" using assms(2) by (auto simp: streamLogs_def drawer_isOpen_def split: option.splits)
  then show ?thesis using False assms by (auto simp: drawer_inv_def stopped_def dest: in_set_butlastD)
qed

lemma drawer_inv_effects:
  assumes inv: "drawer_inv old" and keep: "dr_streams d = dr_streams old" "xtermRef d = xtermRef old"
  shows "drawer_inv (drawer_effects old d)"
proof (cases "drawer_key d = drawer_key old")
  case True
  then show ?thesis using inv keep
    by (auto simp: drawer_effects_def drawer_inv_def drawer_key_def current_stream_def split: if_splits)
next
  case False
  define u where "u = unsubscribe (if drawer_isOpen d \<noteq> drawer_isOpen old then disposeTerminal d else d)"
  define v where "v = (if drawer_isOpen d \<noteq> drawer_isOpen old then initTerminal u else u)"
  have eff: "drawer_effects old d = streamLogs v"
    using False by (auto simp: drawer_effects_def u_def v_def drawer_key_def Let_def)
  have "\<forall>st \<in> set (dr_streams u). stopped st"
    unfolding u_def by (rule unsubscribe_stops [OF inv]) (simp add: keep disposeTerminal_def)
  then have st: "\<forall>st \<in> set (dr_streams v). stopped st" by (simp add: v_def initTerminal_def)
  have "drawer_isOpen old \<longleftrightarrow> xtermRef old \<noteq> None"
    using inv by (auto simp: drawer_inv_def current_stream_def split: if_splits)
  then have "drawer_isOpen v \<longleftrightarrow> xtermRef v \<noteq> None"
    using keep by (auto simp: v_def u_def initTerminal_def disposeTerminal_def drawer_isOpen_def)
  then show ?thesis unfolding eff by (rule streamLogs_inv [OF st])
qed

text \<open>Replacing a stream by one that differs only in its phase keeps the invariant.\<close>

lemma drawer_inv_cong:
  assumes "drawer_inv d" "dr_streams e = (dr_streams d)[i := (dr_streams d ! i)\<lparr>ls_phase := p\<rparr>] \<or> dr_streams e = dr_streams d"
    "dr_containerId e = dr_containerId d" "dr_tailLines e = dr_tailLines d" "dr_follow e = dr_follow d"
    "xtermRef e = xtermRef d"
  shows "drawer_inv e"
proof -
  have op: "drawer_isOpen e = drawer_isOpen d" by (simp add: drawer_isOpen_def assms)
  consider (same) "dr_streams e = dr_streams d"
    | (out) "length (dr_streams d) \<le> i" "dr_streams e = dr_streams d"
    | (inner) "i < length (dr_streams d)" "dr_streams e = (dr_streams d)[i := (dr_streams d ! i)\<lparr>ls_phase := p\<rparr>]"
    using assms(2) by (metis linorder_not_le list_update_beyond)
  then show ?thesis
  proof cases
    case inner
    have sub: "isSubscribed (dr_streams e ! j) = isSubscribed (dr_streams d ! j)"
      "ls_aborted (dr_streams e ! j) = ls_aborted (dr_streams d ! j)"
      "ls_request (dr_streams e ! j) = ls_request (dr_streams d ! j)"
      "ls_term (dr_streams e ! j) = ls_term (dr_streams d ! j)" if "j < length (dr_streams d)" for j
      using that inner by (auto simp: nth_list_update)
    have len: "length (dr_streams e) = length (dr_streams d)" using inner by simp
    show ?thesis
      using assms(1) inner(1) unfolding drawer_inv_def op
      by (auto simp: all_set_conv_all_nth nth_butlast len sub last_conv_nth current_stream_def stopped_def assms
          simp flip: length_0_conv)
  qed (use assms op in \<open>auto simp: drawer_inv_def current_stream_def\<close>)
qed

lemmas stream_defs = stream_opened_def stream_chunk_def stream_closed_def stream_failed_def
  set_phase_def term_do_def handleClear_def Let_def

lemma drawer_inv_step: "drawer_inv d \<Longrightarrow> drawer_inv (drawer_step e d)"
proof (cases e)
  case (Opened i)
  then show "drawer_inv d \<Longrightarrow> ?thesis"
    by (rule_tac drawer_inv_cong [of d _ i "if isSubscribed (dr_streams d ! i) then Open else Over"])
       (auto simp: stream_defs)
next
  case ClearClicked
  then show "drawer_inv d \<Longrightarrow> ?thesis"
    by (rule_tac drawer_inv_cong [of d]) (auto simp: stream_defs split: option.splits)
qed (auto intro!: drawer_inv_effects intro: drawer_inv_cong [of _ _ _ Over] simp: stream_defs)

lemma drawer_inv_run: "drawer_inv d \<Longrightarrow> drawer_inv (fold drawer_step es d)"
  by (induction es arbitrary: d) (simp_all add: drawer_inv_step)

text \<open>What an event adds to the terminal's input goes to the terminal that is there afterwards.\<close>

definition written :: "drawer \<Rightarrow> drawer \<Rightarrow> bool" where
  "written d d' \<longleftrightarrow>
     (\<exists>cmds. dr_output d' = dr_output d @ cmds \<and> list_all (\<lambda>(t, c). xtermRef d' = Some t) cmds)"

lemma terminal_output [simp]:
  "dr_output (disposeTerminal d) = dr_output d" "dr_output (initTerminal d) = dr_output d"
  by (simp_all add: disposeTerminal_def initTerminal_def)

lemma written_same: "dr_output d = dr_output old \<Longrightarrow> written old d"
  by (simp add: written_def)

lemma written_streamLogs: "dr_output v = dr_output old \<Longrightarrow> written old (streamLogs v)"
  by (auto simp: written_def streamLogs_def term_do_def Let_def split: option.splits)

lemma written_effects: "dr_output d = dr_output old \<Longrightarrow> written old (drawer_effects old d)"
  unfolding drawer_effects_def Let_def by (simp add: written_same written_streamLogs)

lemma subscribed_is_current:
  assumes "drawer_inv d" "i < length (dr_streams d)" "isSubscribed (dr_streams d ! i)"
  shows "drawer_isOpen d \<and> Suc i = length (dr_streams d) \<and> current_stream d (dr_streams d ! i)
         \<and> \<not> ls_aborted (dr_streams d ! i)"
proof -
  have "i < length (butlast (dr_streams d)) \<Longrightarrow> \<not> isSubscribed (dr_streams d ! i)"
    using assms(1) by (metis drawer_inv_def nth_butlast nth_mem stopped_def)
  then have "Suc i = length (dr_streams d)" using assms(2,3) by fastforce
  moreover from this have "last (dr_streams d) = dr_streams d ! i"
    by (metis assms(2) diff_Suc_1 last_conv_nth list.size(3) not_less_zero)
  ultimately show ?thesis using assms by (auto simp: drawer_inv_def stopped_def split: if_splits)
qed

lemma written_step: "drawer_inv d \<Longrightarrow> written d (drawer_step e d)"
proof -
  assume inv: "drawer_inv d"
  have cur: "xtermRef d = Some (ls_term (dr_streams d ! i))"
    if "i < length (dr_streams d)" "isSubscribed (dr_streams d ! i)" for i
    using subscribed_is_current [OF inv that] by (simp add: current_stream_def)
  show ?thesis
    by (cases e) (auto simp: written_effects [unfolded written_def] stream_defs written_def awaits_def cur split: option.splits)
qed

text \<open>
  C36: only the current stream reaches the terminal. Through any sequence of opening, switching
  and closing the drawer, changing the options, clearing, and events of all the streams ever
  started, in whatever order they arrive: while the drawer is open its last stream is subscribed
  and is the one for the container and options shown; every command goes to the terminal that
  exists at that moment, never to a disposed one; and an event of any other stream, or of any
  stream while the drawer is closed, changes neither the terminal nor the status.
\<close>

theorem drawer_only_current_stream:
  fixes es :: "drawer_event list"
  defines "d \<equiv> fold drawer_step es drawer_init"
  shows "(if drawer_isOpen d
       then dr_streams d \<noteq> [] \<and> current_stream d (last (dr_streams d)) else xtermRef d = None)
    \<and> (\<exists>cmds. dr_output (drawer_step e d) = dr_output d @ cmds
          \<and> list_all (\<lambda>(t, c). xtermRef (drawer_step e d) = Some t) cmds)
    \<and> (if drawer_isOpen d \<and> Suc i = length (dr_streams d) then True
       else list_all (\<lambda>ev. dr_output (drawer_step ev d) = dr_output d \<and> dr_status (drawer_step ev d) = dr_status d)
              [Opened i, Chunk i c, Closed i, Failed i err])"
proof -
  have inv: "drawer_inv d" unfolding d_def by (rule drawer_inv_run [OF drawer_inv_init])
  have off: "\<not> isSubscribed (dr_streams d ! i)"
    if "i < length (dr_streams d)" "\<not> (drawer_isOpen d \<and> Suc i = length (dr_streams d))"
    using subscribed_is_current [OF inv] that by blast
  have "list_all (\<lambda>ev. dr_output (drawer_step ev d) = dr_output d \<and> dr_status (drawer_step ev d) = dr_status d)
              [Opened i, Chunk i c, Closed i, Failed i err]"
    if "\<not> (drawer_isOpen d \<and> Suc i = length (dr_streams d))"
    using off that by (auto simp: awaits_def stream_defs)
  with inv written_step [OF inv, of e] show ?thesis
    by (simp add: drawer_inv_def written_def split: if_splits)
qed

text \<open>
  A stream is aborted only by its cleanup, which also unsubscribes it: the branch that announces
  a paused stream is never taken.
\<close>

lemma never_paused:
  assumes "i < length (dr_streams (fold drawer_step es drawer_init))"
  shows "\<not> (ls_aborted (dr_streams (fold drawer_step es drawer_init) ! i)
            \<and> isSubscribed (dr_streams (fold drawer_step es drawer_init) ! i))"
  using subscribed_is_current [OF drawer_inv_run [OF drawer_inv_init] assms] by blast

end
