(* ===== verification/Settings_Ops.thy ===== *)
theory Settings_Ops
  imports Toasts Wire_Messages
begin

text \<open>
  The state and the handlers of the settings page (\<open>components/Settings.tsx\<close>, first half): loading
  and saving the notification settings, the audit retention, the connection test, the registry
  status, and the security tab's passkeys, sessions and authentication events.

  Each handler is split at its awaits: \<open>..._begin\<close> is what runs in the event, \<open>..._end\<close> what runs
  when the call is answered, with the toasts it raises. A handler reads the state of the render it
  was made in, which is an argument of its own (\<open>r\<close>) where it matters. The authenticator of the
  browser and JSON parsing are arguments of the registration ceremony.
\<close>

section \<open>State\<close>

datatype settingsTab = GeneralTab | SecurityTab

datatype pendingDestructive =
    PasskeyTarget passkey
  | SessionTarget session
  | AllSessions

record dialogCopy =
  dc_title :: string
  dc_message :: string
  dc_confirmLabel :: string

definition destructiveDialogCopy :: "pendingDestructive \<Rightarrow> dialogCopy" where
  "destructiveDialogCopy pending =
     (case pending of
        PasskeyTarget pk \<Rightarrow>
          \<lparr>dc_title = ''Delete passkey?'',
           dc_message = ''Passkey '' @ quoted (pk_name pk) @ '' will be removed from your account. If it is your only remaining credential, you will be locked out.'',
           dc_confirmLabel = ''Delete''\<rparr>
      | SessionTarget se \<Rightarrow>
          \<lparr>dc_title = ''Revoke session?'',
           dc_message = ''The session on '' @ se_deviceLabel se @ '' will be signed out. It can sign in again with your credentials.'',
           dc_confirmLabel = ''Revoke''\<rparr>
      | AllSessions \<Rightarrow>
          \<lparr>dc_title = ''Revoke other sessions?'',
           dc_message = ''All sessions except this one will be signed out. You stay signed in on this device.'',
           dc_confirmLabel = ''Revoke all''\<rparr>)"

record testOutcome =
  tr_success :: bool
  tr_message :: string

record rpInfo =
  ri_passkeyLoginEnabled :: bool
  ri_rpId :: string
  ri_origins :: "string list"

record settings =
  localTab :: settingsTab
  gotifyUrl :: string
  gotifyToken :: string
  auditRetentionDays :: int
  s_loading :: bool
  isSaving :: bool
  isTesting :: bool
  s_error :: "string option"
  s_success :: "string option"
  testResult :: "testOutcome option"
  registryStatuses :: "registryStatus list"
  registriesLoading :: bool
  registriesError :: "string option"
  passkeys :: "passkey list"
  passkeysLoading :: bool
  passkeysError :: "string option"
  isAddingPasskey :: bool
  showAddPasskey :: bool
  newPasskeyName :: string
  editingPasskeyId :: "string option"
  editingPasskeyName :: string
  deletingPasskeyId :: "string option"
  s_serverInfo :: "rpInfo option"
  sessions :: "session list"
  sessionsLoading :: bool
  sessionsError :: "string option"
  isRevokingOther :: bool
  revokingSessionId :: "string option"
  pending :: "pendingDestructive option"
  authEvents :: "authEvent list"
  authEventsLoading :: bool
  authEventsError :: "string option"

definition AUDIT_RETENTION_PRESETS :: "(int \<times> string) list" where
  "AUDIT_RETENTION_PRESETS =
     [(7, ''7 days''), (30, ''1 month''), (90, ''3 months''), (180, ''6 months''), (365, ''1 year'')]"

definition destructiveBusy :: "settings \<Rightarrow> bool" where
  "destructiveBusy s =
     (case pending s of
        None \<Rightarrow> False
      | Some (PasskeyTarget pk) \<Rightarrow> deletingPasskeyId s = Some (pk_id pk)
      | Some (SessionTarget se) \<Rightarrow> revokingSessionId s = Some (se_sessionId se)
      | Some AllSessions \<Rightarrow> isRevokingOther s)"

section \<open>Loading\<close>

definition loadSettings_end :: "getSettingsResponse rpc \<Rightarrow> settings \<Rightarrow> settings" where
  "loadSettings_end r s =
     (case r of
        Inr resp \<Rightarrow> s\<lparr>gotifyUrl := gs_gotifyUrl resp, gotifyToken := gs_gotifyToken resp,
                     auditRetentionDays := gs_auditRetentionDays resp, s_loading := False\<rparr>
      | Inl e \<Rightarrow> s\<lparr>s_error := Some (err_text e), s_loading := False\<rparr>)"

definition fetchRegistryStatus_begin :: "settings \<Rightarrow> settings" where
  "fetchRegistryStatus_begin s = s\<lparr>registriesLoading := True, registriesError := None\<rparr>"

definition fetchRegistryStatus_end :: "registryStatus list rpc \<Rightarrow> settings \<Rightarrow> settings" where
  "fetchRegistryStatus_end r s =
     (case r of
        Inr regs \<Rightarrow> s\<lparr>registryStatuses := regs, registriesLoading := False\<rparr>
      | Inl e \<Rightarrow> s\<lparr>registriesError := Some (err_text e), registriesLoading := False\<rparr>)"

definition fetchPasskeys_begin :: "settings \<Rightarrow> settings" where
  "fetchPasskeys_begin s = s\<lparr>passkeysLoading := True, passkeysError := None\<rparr>"

definition fetchPasskeys_end :: "passkey list rpc \<Rightarrow> settings \<Rightarrow> settings" where
  "fetchPasskeys_end r s =
     (case r of
        Inr pks \<Rightarrow> s\<lparr>passkeys := pks, passkeysLoading := False\<rparr>
      | Inl e \<Rightarrow> s\<lparr>passkeysError := Some (err_text e), passkeysLoading := False\<rparr>)"

definition fetchServerStatus_end :: "getServerStatusResponse rpc \<Rightarrow> settings \<Rightarrow> settings" where
  "fetchServerStatus_end r s =
     (case r of
        Inr resp \<Rightarrow> s\<lparr>s_serverInfo := Some \<lparr>ri_passkeyLoginEnabled = ss_passkeyLoginEnabled resp,
                                             ri_rpId = ss_rpId resp, ri_origins = ss_origins resp\<rparr>\<rparr>
      | Inl e \<Rightarrow> s)"

definition fetchSessions_begin :: "settings \<Rightarrow> settings" where
  "fetchSessions_begin s = s\<lparr>sessionsLoading := True, sessionsError := None\<rparr>"

definition fetchSessions_end :: "session list rpc \<Rightarrow> settings \<Rightarrow> settings" where
  "fetchSessions_end r s =
     (case r of
        Inr ses \<Rightarrow> s\<lparr>sessions := ses, sessionsLoading := False\<rparr>
      | Inl e \<Rightarrow> s\<lparr>sessionsError := Some (err_text e), sessionsLoading := False\<rparr>)"

definition fetchAuthEvents_begin :: "settings \<Rightarrow> settings" where
  "fetchAuthEvents_begin s = s\<lparr>authEventsLoading := True, authEventsError := None\<rparr>"

definition fetchAuthEvents_end :: "authEvent list rpc \<Rightarrow> settings \<Rightarrow> settings" where
  "fetchAuthEvents_end r s =
     (case r of
        Inr evs \<Rightarrow> s\<lparr>authEvents := evs, authEventsLoading := False\<rparr>
      | Inl e \<Rightarrow> s\<lparr>authEventsError := Some (err_text e), authEventsLoading := False\<rparr>)"

text \<open>The effect that loads the security tab's data; \<open>fetchServerStatus\<close> sets nothing at its start.\<close>

definition security_effect :: "settings \<Rightarrow> settings" where
  "security_effect s =
     (if localTab s = SecurityTab then fetchAuthEvents_begin (fetchSessions_begin (fetchPasskeys_begin s)) else s)"

definition tab_effects :: "settings \<Rightarrow> settings \<Rightarrow> settings" where
  "tab_effects old s = (if localTab s \<noteq> localTab old then security_effect s else s)"

definition setRouteTab :: "string option \<Rightarrow> settings \<Rightarrow> settings" where
  "setRouteTab routeTab s =
     (if routeTab = Some ''security'' then s\<lparr>localTab := SecurityTab\<rparr>
      else if routeTab = Some ''general'' then s\<lparr>localTab := GeneralTab\<rparr> else s)"

text \<open>
  The first render and its effects: the tab is taken from the route or the property, the settings
  and registries are requested, the security data if that tab is shown; the route's tab then wins.
\<close>

definition settings_mount :: "string option \<Rightarrow> string option \<Rightarrow> settings" where
  "settings_mount routeTab initialTab =
     (let s0 = \<lparr>localTab = (if routeTab = Some ''security'' \<or> initialTab = Some ''security'' then SecurityTab else GeneralTab),
                gotifyUrl = [], gotifyToken = [], auditRetentionDays = 90, s_loading = True, isSaving = False,
                isTesting = False, s_error = None, s_success = None, testResult = None, registryStatuses = [],
                registriesLoading = True, registriesError = None, passkeys = [], passkeysLoading = False,
                passkeysError = None, isAddingPasskey = False, showAddPasskey = False, newPasskeyName = [],
                editingPasskeyId = None, editingPasskeyName = [], deletingPasskeyId = None, s_serverInfo = None,
                sessions = [], sessionsLoading = False, sessionsError = None, isRevokingOther = False,
                revokingSessionId = None, pending = None, authEvents = [], authEventsLoading = False,
                authEventsError = None\<rparr>;
          s1 = security_effect (fetchRegistryStatus_begin s0)
      in tab_effects s1 (setRouteTab routeTab s1))"

section \<open>Saving and testing\<close>

definition handleSave_begin :: "settings \<Rightarrow> settings \<Rightarrow> settings \<times> updateSettingsRequest" where
  "handleSave_begin r s =
     (s\<lparr>s_error := None, s_success := None, testResult := None, isSaving := True\<rparr>,
      \<lparr>us_gotifyUrl = trim (gotifyUrl r), us_gotifyToken = trim (gotifyToken r),
       us_auditRetentionDays = auditRetentionDays r\<rparr>)"

definition handleSave_end :: "unit rpc \<Rightarrow> settings \<Rightarrow> settings \<times> toast_call list" where
  "handleSave_end res s =
     (case res of
        Inr _ \<Rightarrow> (s\<lparr>s_success := Some ''Settings saved successfully.'', isSaving := False\<rparr>,
                  [toast_success ''Settings saved successfully.''])
      | Inl e \<Rightarrow> (s\<lparr>s_error := Some (err_text e), isSaving := False\<rparr>,
                  [toast_error (''Failed to save settings: '' @ err_text e)]))"

definition handleRetentionChange_begin :: "int \<Rightarrow> settings \<Rightarrow> settings \<Rightarrow> settings \<times> updateSettingsRequest" where
  "handleRetentionChange_begin days r s =
     (s\<lparr>auditRetentionDays := days, isSaving := True, s_error := None, s_success := None\<rparr>,
      \<lparr>us_gotifyUrl = trim (gotifyUrl r), us_gotifyToken = trim (gotifyToken r), us_auditRetentionDays = days\<rparr>)"

text \<open>\<open>r\<close> is the render the handler was made in: its retention is \<open>previous\<close>.\<close>

definition handleRetentionChange_end :: "settings \<Rightarrow> unit rpc \<Rightarrow> settings \<Rightarrow> settings \<times> toast_call list" where
  "handleRetentionChange_end r res s =
     (case res of
        Inr _ \<Rightarrow> (s\<lparr>isSaving := False\<rparr>, [toast_success ''Audit log retention updated.''])
      | Inl e \<Rightarrow> (s\<lparr>auditRetentionDays := auditRetentionDays r, s_error := Some (err_text e), isSaving := False\<rparr>,
                  [toast_error (''Failed to update audit log retention: '' @ err_text e)]))"

definition handleTestConnection_begin :: "settings \<Rightarrow> settings \<Rightarrow> settings \<times> (string \<times> string) \<times> toast_call list" where
  "handleTestConnection_begin r s =
     (s\<lparr>s_error := None, s_success := None, testResult := None, isTesting := True\<rparr>,
      (trim (gotifyUrl r), trim (gotifyToken r)), [toast_info ''Testing connection to Gotify server...'' None])"

definition handleTestConnection_end :: "testGotifyNotificationResponse rpc \<Rightarrow> settings \<Rightarrow> settings \<times> toast_call list" where
  "handleTestConnection_end res s =
     (case res of
        Inr resp \<Rightarrow>
          if tg_success resp
          then (let msg = ''Connection test succeeded! A test notification was sent.''
                in (s\<lparr>testResult := Some \<lparr>tr_success = True, tr_message = msg\<rparr>, isTesting := False\<rparr>, [toast_success msg]))
          else (let msg = str_or (tg_errorMessage resp) ''Connection test failed.''
                in (s\<lparr>testResult := Some \<lparr>tr_success = False, tr_message = msg\<rparr>, isTesting := False\<rparr>, [toast_error msg]))
      | Inl e \<Rightarrow> (s\<lparr>testResult := Some \<lparr>tr_success = False, tr_message = err_text e\<rparr>, isTesting := False\<rparr>,
                  [toast_error (''Connection test failed: '' @ err_text e)]))"

section \<open>Sessions\<close>

definition handleRevokeSession_begin :: "string \<Rightarrow> settings \<Rightarrow> settings" where
  "handleRevokeSession_begin sid s =
     s\<lparr>sessions := filter (\<lambda>x. se_sessionId x \<noteq> sid) (sessions s), revokingSessionId := Some sid\<rparr>"

text \<open>\<open>r\<close> is the render the handler was made in: its sessions are \<open>previousSessions\<close>.\<close>

definition handleRevokeSession_end :: "settings \<Rightarrow> unit rpc \<Rightarrow> settings \<Rightarrow> settings \<times> toast_call list" where
  "handleRevokeSession_end r res s =
     (case res of
        Inr _ \<Rightarrow> ((fetchAuthEvents_begin s)\<lparr>revokingSessionId := None\<rparr>, [toast_success ''Session revoked successfully.''])
      | Inl e \<Rightarrow> (s\<lparr>sessions := sessions r, revokingSessionId := None\<rparr>,
                  [toast_error (''Failed to revoke session: '' @ err_text e)]))"

text \<open>Revoking all others, up to the answer, and after the sessions have been fetched again.\<close>

definition handleRevokeAll_begin :: "settings \<Rightarrow> settings" where
  "handleRevokeAll_begin s = s\<lparr>isRevokingOther := True\<rparr>"

definition handleRevokeAll_called :: "int rpc \<Rightarrow> settings \<Rightarrow> settings \<times> toast_call list" where
  "handleRevokeAll_called res s =
     (case res of
        Inr revokedCount \<Rightarrow> (fetchSessions_begin s, [toast_success (''Revoked '' @ string_of_int revokedCount @ '' other session(s).'')])
      | Inl e \<Rightarrow> (s\<lparr>isRevokingOther := False\<rparr>, [toast_error (''Failed to revoke other sessions: '' @ err_text e)]))"

definition handleRevokeAll_end :: "session list rpc \<Rightarrow> settings \<Rightarrow> settings" where
  "handleRevokeAll_end res s = (fetchAuthEvents_begin (fetchSessions_end res s))\<lparr>isRevokingOther := False\<rparr>"

section \<open>Passkeys\<close>

definition handleAddPasskey_begin :: "settings \<Rightarrow> settings \<Rightarrow> settings \<times> string" where
  "handleAddPasskey_begin r s = (s\<lparr>isAddingPasskey := True, passkeysError := None\<rparr>, trim (newPasskeyName r))"

text \<open>The calls of the registration in sequence; the first failure ends it.\<close>

definition registration_ceremony ::
  "string rpc \<Rightarrow> (string \<Rightarrow> 'o rpc) \<Rightarrow> ('o \<Rightarrow> 'c rpc) \<Rightarrow> ('c \<Rightarrow> passkey option rpc) \<Rightarrow> passkey option rpc" where
  "registration_ceremony beginResp parse webauthnCreate finish =
     (case beginResp of
        Inl e \<Rightarrow> Inl e
      | Inr optionsJson \<Rightarrow>
          (case parse optionsJson of
             Inl e \<Rightarrow> Inl e
           | Inr options \<Rightarrow> (case webauthnCreate options of Inl e \<Rightarrow> Inl e | Inr credential \<Rightarrow> finish credential)))"

definition handleAddPasskey_end :: "passkey option rpc \<Rightarrow> settings \<Rightarrow> settings \<times> toast_call list" where
  "handleAddPasskey_end res s =
     (case res of
        Inr pk \<Rightarrow>
          (let s1 = (case pk of None \<Rightarrow> s | Some p \<Rightarrow> s\<lparr>passkeys := p # passkeys s\<rparr>)
           in ((fetchAuthEvents_begin (s1\<lparr>showAddPasskey := False, newPasskeyName := []\<rparr>))\<lparr>isAddingPasskey := False\<rparr>,
               [toast_success ''Passkey registered successfully.'']))
      | Inl e \<Rightarrow> (s\<lparr>passkeysError := Some (err_text e), isAddingPasskey := False\<rparr>,
                  [toast_error (''Passkey registration failed: '' @ err_text e)]))"

text \<open>\<open>None\<close>: the new name is blank and nothing is sent.\<close>

definition handleRenamePasskey_begin :: "string \<Rightarrow> settings \<Rightarrow> (string \<times> string) option" where
  "handleRenamePasskey_begin i r =
     (if trim (editingPasskeyName r) = [] then None else Some (i, trim (editingPasskeyName r)))"

definition handleRenamePasskey_end :: "string \<Rightarrow> passkey option rpc \<Rightarrow> settings \<Rightarrow> settings \<times> toast_call list" where
  "handleRenamePasskey_end i res s =
     (case res of
        Inr pk \<Rightarrow>
          (let s1 = (case pk of None \<Rightarrow> s | Some q \<Rightarrow> s\<lparr>passkeys := map (\<lambda>p. if pk_id p = i then q else p) (passkeys s)\<rparr>)
           in (s1\<lparr>editingPasskeyId := None, editingPasskeyName := []\<rparr>, [toast_success ''Passkey renamed successfully.'']))
      | Inl e \<Rightarrow> (s, [toast_error (''Failed to rename passkey: '' @ err_text e)]))"

definition handleDeletePasskey_begin :: "string \<Rightarrow> settings \<Rightarrow> settings" where
  "handleDeletePasskey_begin i s = s\<lparr>deletingPasskeyId := Some i\<rparr>"

definition handleDeletePasskey_end :: "string \<Rightarrow> unit rpc \<Rightarrow> settings \<Rightarrow> settings \<times> toast_call list" where
  "handleDeletePasskey_end i res s =
     (case res of
        Inr _ \<Rightarrow> ((fetchAuthEvents_begin (s\<lparr>passkeys := filter (\<lambda>p. pk_id p \<noteq> i) (passkeys s)\<rparr>))\<lparr>deletingPasskeyId := None\<rparr>,
                  [toast_success ''Passkey removed successfully.''])
      | Inl e \<Rightarrow> (s\<lparr>deletingPasskeyId := None\<rparr>, [toast_error (''Failed to delete passkey: '' @ err_text e)]))"

section \<open>The confirmed destructive action\<close>

definition confirmDestructive_begin :: "settings \<Rightarrow> settings \<Rightarrow> settings" where
  "confirmDestructive_begin r s =
     (case pending r of
        None \<Rightarrow> s
      | Some (PasskeyTarget pk) \<Rightarrow> handleDeletePasskey_begin (pk_id pk) s
      | Some (SessionTarget se) \<Rightarrow> handleRevokeSession_begin (se_sessionId se) s
      | Some AllSessions \<Rightarrow> handleRevokeAll_begin s)"

text \<open>What settles an action; the dialog closes when it has.\<close>

datatype destroyed =
    PasskeyDeleted "unit rpc"
  | SessionRevoked "unit rpc"
  | RevokeAllFailed js_error
  | SessionsRefetched "session list rpc"

fun confirmDestructive_end :: "settings \<Rightarrow> destroyed \<Rightarrow> settings \<Rightarrow> settings \<times> toast_call list" where
  "confirmDestructive_end r (PasskeyDeleted res) s =
     (case pending r of
        Some (PasskeyTarget pk) \<Rightarrow> (case handleDeletePasskey_end (pk_id pk) res s of (s', ts) \<Rightarrow> (s'\<lparr>pending := None\<rparr>, ts))
      | _ \<Rightarrow> (s, []))"
| "confirmDestructive_end r (SessionRevoked res) s =
     (case pending r of
        Some (SessionTarget se) \<Rightarrow> (case handleRevokeSession_end r res s of (s', ts) \<Rightarrow> (s'\<lparr>pending := None\<rparr>, ts))
      | _ \<Rightarrow> (s, []))"
| "confirmDestructive_end r (RevokeAllFailed e) s =
     (case pending r of
        Some AllSessions \<Rightarrow> (case handleRevokeAll_called (Inl e) s of (s', ts) \<Rightarrow> (s'\<lparr>pending := None\<rparr>, ts))
      | _ \<Rightarrow> (s, []))"
| "confirmDestructive_end r (SessionsRefetched res) s =
     (case pending r of
        Some AllSessions \<Rightarrow> ((handleRevokeAll_end res s)\<lparr>pending := None\<rparr>, [])
      | _ \<Rightarrow> (s, []))"

section \<open>Outcomes\<close>

lemmas destroy_defs = confirmDestructive_begin_def handleDeletePasskey_begin_def handleDeletePasskey_end_def
  handleRevokeSession_begin_def handleRevokeSession_end_def handleRevokeAll_begin_def handleRevokeAll_called_def
  handleRevokeAll_end_def fetchAuthEvents_begin_def fetchSessions_begin_def fetchSessions_end_def

text \<open>An action has settled: the dialog is closed and no flag is left.\<close>

definition at_rest :: "settings \<Rightarrow> bool" where
  "at_rest s \<longleftrightarrow> pending s = None \<and> deletingPasskeyId s = None \<and> revokingSessionId s = None \<and> \<not> isRevokingOther s"

definition idle :: "settings \<Rightarrow> bool" where
  "idle s \<longleftrightarrow> deletingPasskeyId s = None \<and> revokingSessionId s = None \<and> \<not> isRevokingOther s"

definition succeeded :: "'a rpc \<Rightarrow> bool" where
  "succeeded res = (case res of Inr _ \<Rightarrow> True | Inl _ \<Rightarrow> False)"

text \<open>
  C38: confirmed destructive actions. Confirming one, in a page whose rendered lists are the
  current ones and where no other is running, locks its dialog until it settles. A deleted
  passkey leaves the list exactly when the server has deleted it, and no other one does. A
  revoked session leaves the list at once and stays away when the server confirms; when the
  server refuses, the list is exactly what it was before the click. Revoking all others shows
  the list fetched afterwards. In every case there is one toast that says how it went, and the
  page is at rest: no flag is left set and the dialog is closed.
\<close>

theorem destructive_outcomes:
  assumes target: "pending r = Some t" "pending s = Some t" and quiet: "idle s"
    and lists: "sessions r = sessions s"
  shows "let s1 = confirmDestructive_begin r s
   in destructiveBusy s1 \<and>
      (case t of
         PasskeyTarget pk \<Rightarrow>
           (case confirmDestructive_end r (PasskeyDeleted res) s1 of
              (s2, ts) \<Rightarrow>
                passkeys s2 = (if succeeded res then filter (\<lambda>p. pk_id p \<noteq> pk_id pk) (passkeys s) else passkeys s)
                \<and> sessions s2 = sessions s \<and> length ts = 1 \<and> at_rest s2)
       | SessionTarget se \<Rightarrow>
           sessions s1 = filter (\<lambda>x. se_sessionId x \<noteq> se_sessionId se) (sessions s) \<and>
           (case confirmDestructive_end r (SessionRevoked res) s1 of
              (s2, ts) \<Rightarrow> sessions s2 = (if succeeded res then sessions s1 else sessions s)
                \<and> passkeys s2 = passkeys s \<and> length ts = 1 \<and> at_rest s2)
       | AllSessions \<Rightarrow>
           (case handleRevokeAll_called (Inr n) s1 of
              (s2, ts) \<Rightarrow> destructiveBusy s2 \<and> length ts = 1
                \<and> (case confirmDestructive_end r (SessionsRefetched (Inr ses)) s2 of
                     (s3, us) \<Rightarrow> sessions s3 = ses \<and> us = [] \<and> at_rest s3))
           \<and> (case confirmDestructive_end r (RevokeAllFailed e) s1 of
                (s2, ts) \<Rightarrow> sessions s2 = sessions s \<and> length ts = 1 \<and> at_rest s2))"
proof (cases t)
  case (PasskeyTarget pk)
  then show ?thesis using target quiet
    by (cases res) (simp_all add: destroy_defs destructiveBusy_def idle_def at_rest_def succeeded_def)
next
  case (SessionTarget se)
  then show ?thesis using target quiet lists
    by (cases res) (simp_all add: destroy_defs destructiveBusy_def idle_def at_rest_def succeeded_def)
next
  case AllSessions
  then show ?thesis using target quiet
    by (simp add: destroy_defs destructiveBusy_def idle_def at_rest_def)
qed

definition sample_session :: "string \<Rightarrow> session" where
  "sample_session i = \<lparr>se_sessionId = i, se_userAgent = [], se_deviceLabel = ''Linux'', se_createdAt = None,
     se_lastSeenAt = None, se_expiresAt = None, se_absoluteExpiresAt = None, se_isCurrent = False\<rparr>"

definition sample_settings :: settings where
  "sample_settings = (settings_mount (Some ''security'') None)
     \<lparr>sessions := [sample_session ''a'', sample_session ''b''], pending := Some (SessionTarget (sample_session ''a''))\<rparr>"

lemma sample_settings_simps [simp]:
  "sessions sample_settings = [sample_session ''a'', sample_session ''b'']"
  "pending sample_settings = Some (SessionTarget (sample_session ''a''))" "idle sample_settings"
  by (simp_all add: sample_settings_def idle_def settings_mount_def security_effect_def tab_effects_def setRouteTab_def
      fetchRegistryStatus_begin_def fetchPasskeys_begin_def fetchSessions_begin_def fetchAuthEvents_begin_def Let_def)

lemma destructive_outcomes_witness:
  "sessions (confirmDestructive_begin sample_settings sample_settings) = [sample_session ''b'']
   \<and> sessions (fst (confirmDestructive_end sample_settings (SessionRevoked (Inl (PlainError ''x'')))
        (confirmDestructive_begin sample_settings sample_settings))) = [sample_session ''a'', sample_session ''b'']"
  using destructive_outcomes [of sample_settings "SessionTarget (sample_session ''a'')" sample_settings "Inl (PlainError ''x'')"]
  by (auto simp: succeeded_def Let_def sample_session_def split: prod.splits)

text \<open>
  The rollback restores the list of the render in which the revocation was confirmed: a list
  that was fetched meanwhile is thrown away.
\<close>

lemma rollback_discards_refresh:
  "let s1 = confirmDestructive_begin sample_settings sample_settings;
       s2 = fetchSessions_end (Inr [sample_session ''a'', sample_session ''c'']) s1
   in sessions (fst (confirmDestructive_end sample_settings (SessionRevoked (Inl (PlainError ''x''))) s2))
      = [sample_session ''a'', sample_session ''b'']"
  by (simp add: destroy_defs)

section \<open>The list of passkeys\<close>

definition ids :: "settings \<Rightarrow> string list" where
  "ids s = map pk_id (passkeys s)"

text \<open>
  C39: the list of passkeys. With a server that gives a new passkey a fresh id and a renamed one
  its own, registering, renaming and deleting keep the ids in the list distinct; registering puts
  the new one in front, renaming changes no id and no position and touches only the renamed one,
  deleting removes exactly the one asked for; and a failure of any of them leaves the list alone.
  A blank name is never sent.
\<close>

theorem passkey_list_kept:
  assumes "distinct (ids s)" "pk_id new \<notin> set (ids s)" "pk_id renamed = i"
  shows "ids (fst (handleAddPasskey_end (Inr (Some new)) s)) = pk_id new # ids s
    \<and> distinct (ids (fst (handleAddPasskey_end (Inr (Some new)) s)))
    \<and> ids (fst (handleRenamePasskey_end i (Inr (Some renamed)) s)) = ids s
    \<and> filter (\<lambda>p. pk_id p \<noteq> i) (passkeys (fst (handleRenamePasskey_end i (Inr (Some renamed)) s)))
        = filter (\<lambda>p. pk_id p \<noteq> i) (passkeys s)
    \<and> (i \<in> set (ids s) \<longrightarrow> renamed \<in> set (passkeys (fst (handleRenamePasskey_end i (Inr (Some renamed)) s))))
    \<and> passkeys (fst (handleDeletePasskey_end i (Inr ()) s)) = filter (\<lambda>p. pk_id p \<noteq> i) (passkeys s)
    \<and> distinct (ids (fst (handleDeletePasskey_end i (Inr ()) s)))
    \<and> passkeys (fst (handleAddPasskey_end (Inl e) s)) = passkeys s
    \<and> passkeys (fst (handleRenamePasskey_end i (Inl e) s)) = passkeys s
    \<and> passkeys (fst (handleDeletePasskey_end i (Inl e) s)) = passkeys s
    \<and> (case handleRenamePasskey_begin i s of None \<Rightarrow> trim (editingPasskeyName s) = []
       | Some (j, n) \<Rightarrow> j = i \<and> n = trim (editingPasskeyName s) \<and> n \<noteq> [])"
proof -
  have "map pk_id (map (\<lambda>p. if pk_id p = i then renamed else p) ps) = map pk_id ps" for ps
    using assms(3) by (induction ps) auto
  moreover have "filter (\<lambda>p. pk_id p \<noteq> i) (map (\<lambda>p. if pk_id p = i then renamed else p) ps) = filter (\<lambda>p. pk_id p \<noteq> i) ps" for ps
    using assms(3) by (induction ps) auto
  moreover have "distinct (map pk_id (filter (\<lambda>p. pk_id p \<noteq> i) (passkeys s)))"
    using assms(1) by (simp add: ids_def distinct_map_filter)
  ultimately show ?thesis using assms
    by (auto simp: ids_def handleAddPasskey_end_def handleRenamePasskey_end_def handleDeletePasskey_end_def
        handleRenamePasskey_begin_def fetchAuthEvents_begin_def Let_def)
qed

definition sample_passkey :: "string \<Rightarrow> string \<Rightarrow> passkey" where
  "sample_passkey i n = \<lparr>pk_id = i, pk_name = n, pk_aaguid = [], pk_friendlyDeviceName = [], pk_backupEligible = True,
     pk_backupState = True, pk_signCount = 0, pk_cloneWarning = False, pk_createdAt = None, pk_lastUsedAt = None\<rparr>"

lemma passkey_list_kept_witness:
  "ids (fst (handleRenamePasskey_end ''b'' (Inr (Some (sample_passkey ''b'' ''work'')))
     (sample_settings\<lparr>passkeys := [sample_passkey ''a'' ''x'', sample_passkey ''b'' ''y'']\<rparr>))) = [''a'', ''b'']"
  using passkey_list_kept [of "sample_settings\<lparr>passkeys := [sample_passkey ''a'' ''x'', sample_passkey ''b'' ''y'']\<rparr>"
      "sample_passkey ''c'' ''z''" "sample_passkey ''b'' ''work''" "''b''"]
  by (simp add: ids_def sample_passkey_def)

text \<open>A rename that settles late closes the edit of another passkey that was opened meanwhile.\<close>

lemma rename_closes_other_edit:
  "editingPasskeyId (fst (handleRenamePasskey_end ''a'' (Inr None) (s\<lparr>editingPasskeyId := Some ''b''\<rparr>))) = None"
  by (simp add: handleRenamePasskey_end_def)

section \<open>Saving\<close>

text \<open>What a server that stores the request answers to the next load.\<close>

definition stored :: "updateSettingsRequest \<Rightarrow> getSettingsResponse" where
  "stored q = \<lparr>gs_gotifyUrl = us_gotifyUrl q, gs_gotifyToken = us_gotifyToken q, gs_auditRetentionDays = us_auditRetentionDays q\<rparr>"

text \<open>
  With a server that stores what it is sent, loading after a save shows the saved
  values, the text fields trimmed, and saving them again sends the very same request. Every save,
  retention change and test ends with its lock released and one toast; a retention change that
  fails puts the select back to the window that was in effect and leaves the other fields alone.
\<close>

lemma settings_save_roundtrip:
  "let q = snd (handleSave_begin s s); u = loadSettings_end (Inr (stored q)) s
   in gotifyUrl u = trim (gotifyUrl s) \<and> gotifyToken u = trim (gotifyToken s)
      \<and> auditRetentionDays u = auditRetentionDays s \<and> snd (handleSave_begin u u) = q
      \<and> (case handleRetentionChange_end s (Inl e) (fst (handleRetentionChange_begin days s s)) of
           (v, ts) \<Rightarrow> auditRetentionDays v = auditRetentionDays s \<and> gotifyUrl v = gotifyUrl s
             \<and> gotifyToken v = gotifyToken s \<and> s_error v = Some (err_text e) \<and> \<not> isSaving v \<and> length ts = 1)
      \<and> (case handleRetentionChange_end s (Inr ()) (fst (handleRetentionChange_begin days s s)) of
           (v, ts) \<Rightarrow> auditRetentionDays v = days \<and> \<not> isSaving v \<and> length ts = 1)
      \<and> (case handleSave_end res (fst (handleSave_begin s s)) of
           (v, ts) \<Rightarrow> \<not> isSaving v \<and> length ts = 1 \<and> (s_error v = None) = succeeded res \<and> (s_success v \<noteq> None) = succeeded res)
      \<and> (case handleTestConnection_end tres (fst (handleTestConnection_begin s s)) of
           (v, ts) \<Rightarrow> \<not> isTesting v \<and> length ts = 1 \<and> (case testResult v of None \<Rightarrow> False
             | Some o' \<Rightarrow> tr_success o' = (case tres of Inr resp \<Rightarrow> tg_success resp | Inl _ \<Rightarrow> False)))"
  by (simp add: handleSave_begin_def handleSave_end_def loadSettings_end_def stored_def succeeded_def
      handleRetentionChange_begin_def handleRetentionChange_end_def handleTestConnection_begin_def
      handleTestConnection_end_def Let_def split: sum.splits)

text \<open>
  The retention change sends the text fields as they stand in the form: edits that were not saved
  go to the server with it. After a load that failed, those are the empty defaults, which then
  replace the stored server address and token.
\<close>

lemma retention_saves_unsaved_edits:
  "us_gotifyUrl (snd (handleRetentionChange_begin 30 (s\<lparr>gotifyUrl := ''http://half''\<rparr>) s)) = ''http://half''"
  by (simp add: handleRetentionChange_begin_def trim_def is_space_def)

lemma failed_load_then_retention_erases:
  "let s = loadSettings_end (Inl e) (settings_mount None None)
   in \<not> s_loading s \<and> us_gotifyUrl (snd (handleRetentionChange_begin 30 s s)) = []
      \<and> us_gotifyToken (snd (handleRetentionChange_begin 30 s s)) = []"
  by (simp add: handleRetentionChange_begin_def loadSettings_end_def settings_mount_def security_effect_def
      tab_effects_def setRouteTab_def fetchRegistryStatus_begin_def Let_def)

end
