(* ===== verification/Settings_View.thy ===== *)
theory Settings_View
  imports Settings_Ops Dialogs Async_Contracts
begin

text \<open>
  What the settings page renders (\<open>components/Settings.tsx\<close>, second half) and how it runs: clicks
  on the controls that the rendered page offers, edits of its fields, and the answers to its
  calls. Three groups of operations must not overlap with themselves: saving, retention and
  testing; the confirmed destructive actions; and the registration of a passkey. The contract
  \<open>single_flight\<close> gives that for the runs of the page.
\<close>

section \<open>Icons, badges and dates\<close>

datatype passkey_icon = KeyIcon | FingerprintIcon
datatype device_icon = SmartphoneIcon | LaptopIcon | GlobeIcon

definition renderPasskeyIcon :: "string \<Rightarrow> passkey_icon" where
  "renderPasskeyIcon friendlyName =
     (let f = toLowerCase friendlyName
      in if str_includes f ''yubikey'' \<or> str_includes f ''security key'' then KeyIcon else FingerprintIcon)"

definition renderDeviceIcon :: "string \<Rightarrow> device_icon" where
  "renderDeviceIcon label =
     (let l = toLowerCase label
      in if str_includes l ''ios'' \<or> str_includes l ''android'' \<or> str_includes l ''mobile'' then SmartphoneIcon
         else if str_includes l ''windows'' \<or> str_includes l ''mac'' \<or> str_includes l ''linux'' then LaptopIcon
         else GlobeIcon)"

definition renderEventBadge :: "string \<Rightarrow> 'm node" where
  "renderEventBadge t =
     (if t = ''login_success'' then Box ''auth-event-badge auth-event-badge-success'' [Text ''Login Success'']
      else if t = ''login_failed'' then Box ''auth-event-badge auth-event-badge-error'' [Text ''Login Failed'']
      else if t = ''rate_limited'' then Box ''auth-event-badge auth-event-badge-warning'' [Text ''Rate Limited'']
      else if t = ''logout'' then Box ''auth-event-badge auth-event-badge-info'' [Text ''Logout'']
      else if t = ''session_revoked'' then Box ''auth-event-badge auth-event-badge-warning'' [Text ''Session Revoked'']
      else if t = ''setup_admin'' then Box ''auth-event-badge auth-event-badge-info'' [Text ''Setup Admin'']
      else Box ''auth-event-badge auth-event-badge-info'' [Text t])"

text \<open>The browser's printing of a date, and of a date with its time, from milliseconds.\<close>

record dateText =
  toLocaleDateString :: "int \<Rightarrow> string"
  toLocaleString :: "int \<Rightarrow> string"

definition date_or :: "(int \<Rightarrow> string) \<Rightarrow> string \<Rightarrow> timestamp option \<Rightarrow> string" where
  "date_or fmt none ts = (case ts of None \<Rightarrow> none | Some t \<Rightarrow> fmt (ts_seconds t * 1000))"

section \<open>The general tab\<close>

datatype set_msg =
    TabTo settingsTab
  | SaveSettings
  | TestConnection
  | RefreshRegistries
  | RefreshPasskeys
  | ShowAdd
  | DismissAdd
  | CancelAdd
  | SubmitPasskey
  | SaveName string
  | CancelRename
  | EditName passkey
  | ArmPasskey passkey
  | RefreshSessions
  | ArmAll
  | ArmSession session
  | RefreshEvents
  | DialogCancel
  | DialogConfirm

definition banner :: "string option \<Rightarrow> set_msg node list" where
  "banner e = (case e of None \<Rightarrow> [] | Some t \<Rightarrow> show_if (t \<noteq> []) [Text t])"

definition notificationCard :: "settings \<Rightarrow> set_msg node list" where
  "notificationCard s =
     [Text ''Notification Configurations''] @ banner (s_error s) @ banner (s_success s)
     @ [Field ''gotify-url'' (gotifyUrl s) (isSaving s \<or> isTesting s),
        Field ''gotify-token'' (gotifyToken s) (isSaving s \<or> isTesting s)]
     @ (case testResult s of None \<Rightarrow> [] | Some t \<Rightarrow> [Text (tr_message t)])
     @ [Button SaveSettings (isSaving s \<or> isTesting s) None [Text ''Save Settings''],
        Button TestConnection (isSaving s \<or> isTesting s) None [Text ''Test Connection'']]"

definition retentionCard :: "settings \<Rightarrow> set_msg node list" where
  "retentionCard s =
     [Text ''Audit Logs'',
      Select ''audit-retention'' (string_of_int (auditRetentionDays s)) (map snd AUDIT_RETENTION_PRESETS)
        (s_loading s \<or> isSaving s \<or> isTesting s)]"

definition registryCard :: "registryStatus \<Rightarrow> set_msg node" where
  "registryCard reg =
     Box ''registry''
       [Text (rs_host reg), Text (if rs_isHealthy reg then ''Healthy'' else ''Unhealthy''),
        Text (''Username: '' @ str_or (rs_username reg) ''(anonymous)''),
        Text (if \<not> rs_isConfigured reg then ''Incomplete configuration credentials''
              else if rs_isHealthy reg then ''Connected & Authorized'' else ''Error: '' @ rs_errorMessage reg)]"

definition registriesCard :: "settings \<Rightarrow> set_msg node list" where
  "registriesCard s =
     [Text ''Private Registries Status'', Button RefreshRegistries (registriesLoading s) None [Text ''Refresh Status'']]
     @ banner (registriesError s)
     @ (if registriesLoading s \<and> registryStatuses s = [] then [Text ''Checking registry status...'']
        else if registryStatuses s = []
        then [Text ''No private registries configured. Define them in your server config.yaml.'']
        else map registryCard (registryStatuses s))"

definition generalTab :: "settings \<Rightarrow> set_msg node list" where
  "generalTab s = notificationCard s @ retentionCard s @ registriesCard s"

section \<open>The security tab\<close>

definition addPasskeyForm :: "settings \<Rightarrow> set_msg node list" where
  "addPasskeyForm s =
     show_if (showAddPasskey s)
       [Text ''Register a New Passkey'', Button DismissAdd False None [],
        Field ''passkey-name'' (newPasskeyName s) (isAddingPasskey s),
        Button CancelAdd (isAddingPasskey s) None [Text ''Cancel''],
        Button SubmitPasskey (isAddingPasskey s) None
          [Text (if isAddingPasskey s then ''Prompting Authenticator...'' else ''Prompt Device Authenticator'')]]"

definition passkeyRow :: "dateText \<Rightarrow> settings \<Rightarrow> passkey \<Rightarrow> set_msg node" where
  "passkeyRow fmt s pk =
     Box ''passkey-row-card''
       ((if editingPasskeyId s = Some (pk_id pk)
         then [Field ''rename'' (editingPasskeyName s) False, Button (SaveName (pk_id pk)) False None [],
               Button CancelRename False None []]
         else [Text (pk_name pk), Button (EditName pk) False None []])
        @ [Text (if pk_backupEligible pk then ''Synced Passkey'' else ''Hardware Key'')]
        @ show_if (pk_cloneWarning pk) [Text ''Clone Warning'']
        @ [Text (''Model: '' @ pk_friendlyDeviceName pk),
           Text (''Added: '' @ date_or (toLocaleDateString fmt) ''Unknown'' (pk_createdAt pk)),
           Text (''Last used: '' @ date_or (toLocaleString fmt) ''Never'' (pk_lastUsedAt pk)),
           Button (ArmPasskey pk) (deletingPasskeyId s = Some (pk_id pk)) None [Text ''Delete'']])"

text \<open>The list of passkeys, or what stands in its place.\<close>

definition passkeyList :: "dateText \<Rightarrow> settings \<Rightarrow> set_msg node list" where
  "passkeyList fmt s =
     (if passkeysLoading s \<and> passkeys s = [] then [Text ''Loading passkeys...'']
      else if passkeys s = [] then [Text ''No passkeys registered yet.'',
            Text ''Add a passkey to sign in seamlessly without passwords using Touch ID, Face ID, Windows Hello, or a YubiKey.'']
      else map (passkeyRow fmt s) (passkeys s))"

definition passkeysCard :: "dateText \<Rightarrow> settings \<Rightarrow> set_msg node list" where
  "passkeysCard fmt s =
     [Text ''Passkeys & Security Keys'']
     @ (case s_serverInfo s of
          None \<Rightarrow> []
        | Some i \<Rightarrow>
            show_if (ri_rpId i \<noteq> [])
              [Text (''Relying Party: '' @ ri_rpId i @ '' '' @ [CHR 0xB7] @ '' Origins: '' @ str_or (join '', '' (ri_origins i)) ''none'')])
     @ [Button RefreshPasskeys (passkeysLoading s) None [], Button ShowAdd (isAddingPasskey s) None [Text ''Add Passkey'']]
     @ banner (passkeysError s) @ addPasskeyForm s @ passkeyList fmt s"

definition sessionRow :: "dateText \<Rightarrow> settings \<Rightarrow> session \<Rightarrow> set_msg node" where
  "sessionRow fmt s se =
     Box ''session-row-card''
       ([Text (se_deviceLabel se)] @ show_if (se_isCurrent se) [Text ''Current Session'']
        @ [Text (''Last seen: '' @ date_or (toLocaleString fmt) ''Unknown'' (se_lastSeenAt se))]
        @ show_if (\<not> se_isCurrent se)
            [Button (ArmSession se) (revokingSessionId s = Some (se_sessionId se)) None [Text ''Revoke'']])"

definition sessionsCard :: "dateText \<Rightarrow> settings \<Rightarrow> set_msg node list" where
  "sessionsCard fmt s =
     [Text ''Active Sessions'', Button RefreshSessions (sessionsLoading s) None []]
     @ show_if (length (sessions s) > 1)
         [Button ArmAll (isRevokingOther s \<or> sessionsLoading s) None [Text ''Revoke All Others'']]
     @ banner (sessionsError s)
     @ (if sessionsLoading s \<and> sessions s = [] then [Text ''Loading sessions...'']
        else if sessions s = [] then [Text ''No active sessions found.'']
        else map (sessionRow fmt s) (sessions s))"

definition eventRow :: "dateText \<Rightarrow> authEvent \<Rightarrow> set_msg node" where
  "eventRow fmt ev =
     Box ''auth-event''
       ([renderEventBadge (ev_eventType ev), Text (str_or (ev_username ev) ''anonymous'')]
        @ show_if (ev_detail ev \<noteq> []) [Text (ev_detail ev)]
        @ [Text (date_or (toLocaleString fmt) ''Unknown'' (ev_createdAt ev))])"

definition eventsCard :: "dateText \<Rightarrow> settings \<Rightarrow> set_msg node list" where
  "eventsCard fmt s =
     [Text ''Recent Authentication Events'', Button RefreshEvents (authEventsLoading s) None []]
     @ banner (authEventsError s)
     @ (if authEventsLoading s \<and> authEvents s = [] then [Text ''Loading audit log...'']
        else if authEvents s = [] then [Text ''No authentication events recorded yet.'']
        else map (eventRow fmt) (authEvents s))"

section \<open>The page\<close>

definition destructiveDialog :: "settings \<Rightarrow> set_msg node list" where
  "destructiveDialog s =
     (case pending s of
        None \<Rightarrow> []
      | Some p \<Rightarrow>
          (let c = destructiveDialogCopy p
           in confirmDialog True DialogCancel DialogConfirm (dc_title c) (dc_message c) (dc_confirmLabel c) (destructiveBusy s)))"

definition settingsPage :: "dateText \<Rightarrow> settings \<Rightarrow> set_msg node list" where
  "settingsPage fmt s =
     (if s_loading s then [Text ''Loading settings...'']
      else [Text ''Settings'', Link ''/settings/$tab'' (Some (TabTo GeneralTab)) [Text ''General''],
            Link ''/settings/$tab'' (Some (TabTo SecurityTab)) [Text ''Security & Sessions'']]
           @ (case localTab s of
                GeneralTab \<Rightarrow> generalTab s
              | SecurityTab \<Rightarrow> passkeysCard fmt s @ sessionsCard fmt s @ eventsCard fmt s)
           @ destructiveDialog s)"

text \<open>
  What can be clicked: a dialog that is busy covers the page, keeps the focus and has both its
  buttons disabled; otherwise every offered control counts, also those behind a dialog.
\<close>

definition reachable_controls :: "dateText \<Rightarrow> settings \<Rightarrow> set_msg list" where
  "reachable_controls fmt r = (if destructiveBusy r then [] else offered (settingsPage fmt r))"

datatype set_key = KSave | KDestroy | KAdd

text \<open>The handlers of the controls, with the operations they start.\<close>

fun settings_click :: "set_msg \<Rightarrow> settings \<Rightarrow> settings \<Rightarrow> settings \<times> set_key list" where
  "settings_click (TabTo t) r s = (tab_effects s (s\<lparr>localTab := t\<rparr>), [])"
| "settings_click SaveSettings r s = (fst (handleSave_begin r s), [KSave])"
| "settings_click TestConnection r s = (fst (handleTestConnection_begin r s), [KSave])"
| "settings_click RefreshRegistries r s = (fetchRegistryStatus_begin s, [])"
| "settings_click RefreshPasskeys r s = (fetchPasskeys_begin s, [])"
| "settings_click ShowAdd r s = (s\<lparr>showAddPasskey := True\<rparr>, [])"
| "settings_click DismissAdd r s = (s\<lparr>showAddPasskey := False, newPasskeyName := []\<rparr>, [])"
| "settings_click CancelAdd r s = (s\<lparr>showAddPasskey := False\<rparr>, [])"
| "settings_click SubmitPasskey r s = (fst (handleAddPasskey_begin r s), [KAdd])"
| "settings_click (SaveName i) r s = (s, [])"
| "settings_click CancelRename r s = (s\<lparr>editingPasskeyId := None\<rparr>, [])"
| "settings_click (EditName pk) r s = (s\<lparr>editingPasskeyId := Some (pk_id pk), editingPasskeyName := pk_name pk\<rparr>, [])"
| "settings_click (ArmPasskey pk) r s = (s\<lparr>pending := Some (PasskeyTarget pk)\<rparr>, [])"
| "settings_click RefreshSessions r s = (fetchSessions_begin s, [])"
| "settings_click ArmAll r s = (s\<lparr>pending := Some AllSessions\<rparr>, [])"
| "settings_click (ArmSession se) r s = (s\<lparr>pending := Some (SessionTarget se)\<rparr>, [])"
| "settings_click RefreshEvents r s = (fetchAuthEvents_begin s, [])"
| "settings_click DialogCancel r s = (requestClose (destructiveBusy r) (\<lambda>s. s\<lparr>pending := None\<rparr>) s, [])"
| "settings_click DialogConfirm r s =
     (confirmDestructive_begin r s, if pending r = None then [] else [KDestroy])"

text \<open>Edits of the text fields.\<close>

datatype field_edit = GotifyUrl string | GotifyToken string | NewPasskeyName string | EditedPasskeyName string

fun edit_field :: "field_edit \<Rightarrow> settings \<Rightarrow> settings" where
  "edit_field (GotifyUrl v) s = s\<lparr>gotifyUrl := v\<rparr>"
| "edit_field (GotifyToken v) s = s\<lparr>gotifyToken := v\<rparr>"
| "edit_field (NewPasskeyName v) s = s\<lparr>newPasskeyName := v\<rparr>"
| "edit_field (EditedPasskeyName v) s = s\<lparr>editingPasskeyName := v\<rparr>"

text \<open>The answers to the calls that only read, in whatever order they come, and to a rename.\<close>

datatype read_answer =
    SettingsLoaded "getSettingsResponse rpc"
  | RegistriesRead "registryStatus list rpc"
  | PasskeysRead "passkey list rpc"
  | ServerStatusRead "getServerStatusResponse rpc"
  | SessionsRead "session list rpc"
  | EventsRead "authEvent list rpc"
  | Renamed string "passkey option rpc"

fun read_settled :: "read_answer \<Rightarrow> settings \<Rightarrow> settings" where
  "read_settled (SettingsLoaded x) s = loadSettings_end x s"
| "read_settled (RegistriesRead x) s = fetchRegistryStatus_end x s"
| "read_settled (PasskeysRead x) s = fetchPasskeys_end x s"
| "read_settled (ServerStatusRead x) s = fetchServerStatus_end x s"
| "read_settled (SessionsRead x) s = fetchSessions_end x s"
| "read_settled (EventsRead x) s = fetchAuthEvents_end x s"
| "read_settled (Renamed i x) s = fst (handleRenamePasskey_end i x s)"

text \<open>Which of the running actions an answer belongs to.\<close>

fun settles :: "destroyed \<Rightarrow> settings \<Rightarrow> bool" where
  "settles (PasskeyDeleted x) s \<longleftrightarrow> deletingPasskeyId s \<noteq> None"
| "settles (SessionRevoked x) s \<longleftrightarrow> revokingSessionId s \<noteq> None"
| "settles (RevokeAllFailed x) s \<longleftrightarrow> isRevokingOther s"
| "settles (SessionsRefetched x) s \<longleftrightarrow> isRevokingOther s"

text \<open>
  The runs of the page. A configuration is the current state, the rendered one and the operations
  in flight. The render a handler was made in (\<open>r0\<close>) only matters for what it rolls back to.
\<close>

inductive settings_step :: "dateText \<Rightarrow> (settings, set_key) flight \<Rightarrow> (settings, set_key) flight \<Rightarrow> bool"
  for fmt :: dateText where
  click: "\<lbrakk>m \<in> set (reachable_controls fmt r); settings_click m r s = (s', ks)\<rbrakk>
     \<Longrightarrow> settings_step fmt (s, r, fl) (s', s', ks @ fl)"
| retention: "\<lbrakk>\<not> (s_loading r \<or> isSaving r \<or> isTesting r); \<not> destructiveBusy r; s' = fst (handleRetentionChange_begin days r s)\<rbrakk>
     \<Longrightarrow> settings_step fmt (s, r, fl) (s', s', KSave # fl)"
| edit: "s' = edit_field ed s \<Longrightarrow> settings_step fmt (s, r, fl) (s', s', fl)"
| routed: "s' = tab_effects s (setRouteTab tab s) \<Longrightarrow> settings_step fmt (s, r, fl) (s', s', fl)"
| saved: "\<lbrakk>KSave \<in> set fl; isSaving s; s' = fst (handleSave_end res s) \<or> s' = fst (handleRetentionChange_end r0 res s); r' = r \<or> r' = s'\<rbrakk>
     \<Longrightarrow> settings_step fmt (s, r, fl) (s', r', remove1 KSave fl)"
| tested: "\<lbrakk>KSave \<in> set fl; isTesting s; s' = fst (handleTestConnection_end tres s); r' = r \<or> r' = s'\<rbrakk>
     \<Longrightarrow> settings_step fmt (s, r, fl) (s', r', remove1 KSave fl)"
| added: "\<lbrakk>KAdd \<in> set fl; s' = fst (handleAddPasskey_end pres s); r' = r \<or> r' = s'\<rbrakk>
     \<Longrightarrow> settings_step fmt (s, r, fl) (s', r', remove1 KAdd fl)"
| revoked_all: "\<lbrakk>KDestroy \<in> set fl; isRevokingOther s; s' = fst (handleRevokeAll_called (Inr n) s); r' = r \<or> r' = s'\<rbrakk>
     \<Longrightarrow> settings_step fmt (s, r, fl) (s', r', fl)"
| destroyed: "\<lbrakk>KDestroy \<in> set fl; pending r0 = pending s; settles d s; confirmDestructive_end r0 d s = (s', ts); r' = r \<or> r' = s'\<rbrakk>
     \<Longrightarrow> settings_step fmt (s, r, fl) (s', r', remove1 KDestroy fl)"
| answered: "\<lbrakk>s' = read_settled a s; r' = r \<or> r' = s'\<rbrakk> \<Longrightarrow> settings_step fmt (s, r, fl) (s', r', fl)"
| render: "settings_step fmt (s, r, fl) (s, s, fl)"

inductive_cases settings_stepE
  [consumes 1, case_names click retention edit routed saved tested added revoked_all destroyed answered render]:
  "settings_step fmt (s, r, fl) (s', r', fl')"

section \<open>Lemmas on the page\<close>

text \<open>The operation a control starts.\<close>

fun starts :: "set_msg \<Rightarrow> set_key option" where
  "starts SaveSettings = Some KSave"
| "starts TestConnection = Some KSave"
| "starts SubmitPasskey = Some KAdd"
| "starts DialogConfirm = Some KDestroy"
| "starts _ = None"

fun set_busy :: "settings \<Rightarrow> set_key \<Rightarrow> bool" where
  "set_busy s KSave \<longleftrightarrow> isSaving s \<or> isTesting s"
| "set_busy s KDestroy \<longleftrightarrow> \<not> idle s"
| "set_busy s KAdd \<longleftrightarrow> isAddingPasskey s"

lemma offered_banner [simp]: "offered (banner e) = []"
  by (simp add: banner_def split: option.split)

lemma starts_rows:
  "m \<in> set (clicks (passkeyRow fmt s pk)) \<Longrightarrow> starts m = None"
  "m \<in> set (clicks (sessionRow fmt s se)) \<Longrightarrow> starts m = None"
  "m \<in> set (clicks (eventRow fmt ev)) \<Longrightarrow> starts m = None"
  "m \<in> set (clicks (registryCard reg)) \<Longrightarrow> starts m = None"
  by (auto simp: passkeyRow_def sessionRow_def eventRow_def registryCard_def renderEventBadge_def split: if_splits)

lemma starts_general:
  assumes "m \<in> set (offered (generalTab s))" "starts m = Some k"
  shows "k = KSave \<and> \<not> set_busy s k"
  using assms
  by (auto simp: generalTab_def notificationCard_def retentionCard_def registriesCard_def offered_map
      dest: starts_rows split: if_splits option.splits)

lemma starts_passkeys:
  assumes "m \<in> set (offered (passkeysCard fmt s))" "starts m = Some k"
  shows "k = KAdd \<and> \<not> set_busy s k"
  using assms
  by (auto simp: passkeysCard_def passkeyList_def addPasskeyForm_def offered_map dest: starts_rows split: if_splits option.splits)

lemma starts_sessions: "m \<in> set (offered (sessionsCard fmt s)) \<Longrightarrow> starts m = None"
  by (auto simp: sessionsCard_def offered_map dest: starts_rows split: if_splits)

lemma starts_events: "m \<in> set (offered (eventsCard fmt s)) \<Longrightarrow> starts m = None"
  by (auto simp: eventsCard_def offered_map dest: starts_rows split: if_splits)

lemma starts_dialog:
  assumes "m \<in> set (offered (destructiveDialog s))" "starts m = Some k"
  shows "k = KDestroy \<and> pending s \<noteq> None \<and> \<not> destructiveBusy s"
  using assms by (auto simp: destructiveDialog_def offered_confirmDialog Let_def split: option.splits if_splits)

lemma starts_reachable:
  assumes "m \<in> set (reachable_controls fmt r)" "starts m = Some k"
  shows "\<not> destructiveBusy r \<and> \<not> s_loading r \<and> (k = KDestroy \<and> m = DialogConfirm \<and> pending r \<noteq> None \<or> k \<noteq> KDestroy \<and> \<not> set_busy r k)"
proof -
  have l: "\<not> destructiveBusy r" "\<not> s_loading r"
    using assms by (auto simp: reachable_controls_def settingsPage_def split: if_splits)
  then consider "m \<in> set (offered (generalTab r))" | "m \<in> set (offered (passkeysCard fmt r))"
    | "m \<in> set (offered (destructiveDialog r))"
    using assms starts_sessions [of m fmt r] starts_events [of m fmt r]
    by (auto simp: reachable_controls_def settingsPage_def split: if_splits settingsTab.splits)
  then show ?thesis
  proof cases
    case 1 then show ?thesis using l starts_general [OF _ assms(2), of r] by fastforce
  next
    case 2 then show ?thesis using l starts_passkeys [OF _ assms(2), of fmt r] by fastforce
  next
    case 3
    then have "k = KDestroy" "pending r \<noteq> None" using starts_dialog [OF _ assms(2), of r] by auto
    moreover from this assms(2) have "m = DialogConfirm" by (auto elim: starts.elims)
    ultimately show ?thesis using l by simp
  qed
qed

section \<open>No operation overlaps itself\<close>

definition flags :: "settings \<Rightarrow> bool \<times> bool \<times> bool \<times> string option \<times> string option \<times> bool" where
  "flags s = (isSaving s, isTesting s, isAddingPasskey s, deletingPasskeyId s, revokingSessionId s, isRevokingOther s)"

lemma set_busy_cong: "flags s = flags t \<Longrightarrow> set_busy s = set_busy t"
proof -
  assume "flags s = flags t"
  then have "set_busy s k = set_busy t k" for k by (cases k) (simp_all add: flags_def idle_def)
  then show ?thesis by blast
qed

text \<open>The dialog that is open belongs to the action that is running.\<close>

definition matching :: "settings \<Rightarrow> bool" where
  "matching s \<longleftrightarrow>
     idle s \<or>
     (case pending s of
        None \<Rightarrow> False
      | Some (PasskeyTarget pk) \<Rightarrow>
          deletingPasskeyId s = Some (pk_id pk) \<and> revokingSessionId s = None \<and> \<not> isRevokingOther s
      | Some (SessionTarget se) \<Rightarrow>
          revokingSessionId s = Some (se_sessionId se) \<and> deletingPasskeyId s = None \<and> \<not> isRevokingOther s
      | Some AllSessions \<Rightarrow> isRevokingOther s \<and> deletingPasskeyId s = None \<and> revokingSessionId s = None)"

lemma matching_busy: "matching s \<Longrightarrow> destructiveBusy s \<longleftrightarrow> \<not> idle s"
  by (auto simp: matching_def destructiveBusy_def idle_def split: option.splits pendingDestructive.splits)

definition dialog_state :: "settings \<Rightarrow> pendingDestructive option \<times> string option \<times> string option \<times> bool" where
  "dialog_state s = (pending s, deletingPasskeyId s, revokingSessionId s, isRevokingOther s)"

lemma dialog_state_cong:
  assumes "dialog_state s = dialog_state t"
  shows "matching s = matching t" "idle s = idle t" "pending s = pending t" "destructiveBusy s = destructiveBusy t"
proof -
  have e: "pending s = pending t" "deletingPasskeyId s = deletingPasskeyId t"
    "revokingSessionId s = revokingSessionId t" "isRevokingOther s = isRevokingOther t"
    using assms by (simp_all add: dialog_state_def)
  show "matching s = matching t" "idle s = idle t" "pending s = pending t" "destructiveBusy s = destructiveBusy t"
    unfolding matching_def idle_def destructiveBusy_def e by (rule refl)+
qed

fun set_ok :: "(settings, set_key) flight \<Rightarrow> bool" where
  "set_ok (s, r, fl) \<longleftrightarrow>
     matching s \<and> matching r \<and> (idle r \<or> \<not> idle s \<longrightarrow> dialog_state s = dialog_state r)
     \<and> \<not> (isSaving s \<and> isTesting s) \<and> (set_busy s KSave \<longrightarrow> set_busy r KSave)"

lemma set_ok_same: "matching s \<Longrightarrow> \<not> (isSaving s \<and> isTesting s) \<Longrightarrow> set_ok (s, s, fl)"
  by simp

text \<open>Steps that leave the dialog alone and do not lock the saving group.\<close>

lemma set_ok_keep:
  assumes "set_ok (s, r, fl)" "dialog_state s' = dialog_state s" "r' = r \<or> r' = s'"
    "isSaving s' \<longrightarrow> isSaving s" "isTesting s' \<longrightarrow> isTesting s"
  shows "set_ok (s', r', fl')"
  using assms dialog_state_cong [OF assms(2)] by auto

lemma set_ok_idle:
  assumes "set_ok (s, r, fl)" "\<not> destructiveBusy r"
  shows "idle r" "idle s" "pending s = pending r"
  using assms matching_busy [of r] dialog_state_cong [of s r] by auto

lemmas begin_defs = handleSave_begin_def handleTestConnection_begin_def handleRetentionChange_begin_def
  handleAddPasskey_begin_def fetchRegistryStatus_begin_def fetchPasskeys_begin_def fetchSessions_begin_def
  fetchAuthEvents_begin_def tab_effects_def security_effect_def setRouteTab_def requestClose_def

lemmas end_defs = loadSettings_end_def fetchRegistryStatus_end_def fetchPasskeys_end_def fetchServerStatus_end_def
  fetchSessions_end_def fetchAuthEvents_end_def handleRenamePasskey_end_def handleSave_end_def
  handleRetentionChange_end_def handleTestConnection_end_def handleAddPasskey_end_def handleRevokeAll_called_def

lemma click_keeps:
  assumes "starts m = None" "settings_click m r s = (s', ks)"
  shows "flags s' = flags s \<and> ks = []"
  using assms by (cases m) (auto simp: flags_def begin_defs split: if_splits)

lemma busy_upd: "(\<And>j. j \<noteq> k \<Longrightarrow> set_busy s' j = set_busy s j) \<Longrightarrow> set_busy s' k \<Longrightarrow> set_busy s' = (set_busy s)(k := True)"
  by (auto simp: fun_eq_iff)

lemma click_starts:
  assumes "starts m = Some k" "k \<noteq> KDestroy" "settings_click m r s = (s', ks)"
  shows "ks = [k] \<and> set_busy s' = (set_busy s)(k := True) \<and> dialog_state s' = dialog_state s"
proof -
  have "ks = [k] \<and> dialog_state s' = dialog_state s \<and> set_busy s' k \<and> (\<forall>j. j \<noteq> k \<longrightarrow> set_busy s' j = set_busy s j)"
    using assms by (cases m) (auto simp: begin_defs dialog_state_def idle_def elim: set_busy.elims)
  then show ?thesis using busy_upd by blast
qed

lemma confirm_starts:
  assumes "idle s" "pending s = pending r" "pending r \<noteq> None" "settings_click DialogConfirm r s = (s', ks)"
  shows "ks = [KDestroy] \<and> set_busy s' = (set_busy s)(KDestroy := True) \<and> matching s'"
proof -
  obtain p where p: "pending r = Some p" using assms(3) by blast
  have "set_busy s' KDestroy \<and> (\<forall>j. j \<noteq> KDestroy \<longrightarrow> set_busy s' j = set_busy s j) \<and> matching s' \<and> ks = [KDestroy]"
    using assms p
    by (cases p) (auto simp: destroy_defs idle_def matching_def elim: set_busy.elims)
  then show ?thesis using busy_upd by blast
qed

lemma retention_starts:
  "set_busy (fst (handleRetentionChange_begin d r s)) = (set_busy s)(KSave := True)"
  "dialog_state (fst (handleRetentionChange_begin d r s)) = dialog_state s"
  by (rule busy_upd) (auto simp: begin_defs dialog_state_def idle_def elim: set_busy.elims)

lemma keeps:
  "flags (edit_field ed s) = flags s" "dialog_state (edit_field ed s) = dialog_state s"
  "flags (tab_effects t (setRouteTab rt s)) = flags s" "dialog_state (tab_effects t (setRouteTab rt s)) = dialog_state s"
  "flags (read_settled a s) = flags s" "dialog_state (read_settled a s) = dialog_state s"
  "flags (fst (handleRevokeAll_called (Inr n) s)) = flags s"
  "dialog_state (fst (handleRevokeAll_called (Inr n) s)) = dialog_state s"
proof -
  show "flags (edit_field ed s) = flags s" "dialog_state (edit_field ed s) = dialog_state s"
    by (cases ed; simp add: flags_def dialog_state_def)+
  show "flags (read_settled a s) = flags s" "dialog_state (read_settled a s) = dialog_state s"
    by (cases a; auto simp: flags_def dialog_state_def end_defs Let_def split: sum.splits option.splits)+
qed (simp_all add: flags_def dialog_state_def begin_defs end_defs)

text \<open>An operation that ends releases its own lock and no other.\<close>

definition releases :: "set_key \<Rightarrow> settings \<Rightarrow> settings \<Rightarrow> bool" where
  "releases k s s' \<longleftrightarrow> \<not> set_busy s' k \<and> (\<forall>j. j \<noteq> k \<longrightarrow> set_busy s' j = set_busy s j)"

lemma save_releases:
  assumes "isSaving s \<and> \<not> isTesting s" "s' = fst (handleSave_end res s) \<or> s' = fst (handleRetentionChange_end r0 res s)"
  shows "releases KSave s s' \<and> dialog_state s' = dialog_state s"
  using assms by (cases res) (auto simp: releases_def end_defs dialog_state_def idle_def elim: set_busy.elims)

lemma test_releases:
  assumes "\<not> isSaving s" "s' = fst (handleTestConnection_end res s)"
  shows "releases KSave s s' \<and> dialog_state s' = dialog_state s"
  using assms
  by (cases res) (auto simp: releases_def end_defs dialog_state_def idle_def Let_def elim: set_busy.elims)

lemma add_releases:
  "releases KAdd s (fst (handleAddPasskey_end res s)) \<and> dialog_state (fst (handleAddPasskey_end res s)) = dialog_state s"
  by (cases res)
     (auto simp: releases_def end_defs begin_defs dialog_state_def idle_def Let_def split: option.splits elim: set_busy.elims)

lemma destroy_releases:
  assumes "matching s" "pending r0 = pending s" "settles d s" "confirmDestructive_end r0 d s = (s', ts)"
  shows "releases KDestroy s s' \<and> idle s' \<and> \<not> idle s"
proof (cases d)
  case (PasskeyDeleted x)
  then show ?thesis using assms
    by (cases x) (auto simp: releases_def matching_def idle_def destroy_defs split: option.splits pendingDestructive.splits elim: set_busy.elims)
next
  case (SessionRevoked x)
  then show ?thesis using assms
    by (cases x) (auto simp: releases_def matching_def idle_def destroy_defs split: option.splits pendingDestructive.splits elim: set_busy.elims)
next
  case (RevokeAllFailed x)
  then show ?thesis using assms
    by (auto simp: releases_def matching_def idle_def destroy_defs split: option.splits pendingDestructive.splits elim: set_busy.elims)
next
  case (SessionsRefetched x)
  then show ?thesis using assms
    by (cases x) (auto simp: releases_def matching_def idle_def destroy_defs split: option.splits pendingDestructive.splits elim: set_busy.elims)
qed

lemma flags_saving: "flags s' = flags s \<Longrightarrow> (isSaving s' \<longrightarrow> isSaving s) \<and> (isTesting s' \<longrightarrow> isTesting s)"
  by (simp add: flags_def)

lemma click_ok:
  assumes ok: "set_ok (s, r, fl)" and m: "m \<in> set (reachable_controls fmt r)" "settings_click m r s = (s', ks)"
  shows "set_ok (s', s', ks @ fl) \<and>
    (ks = [] \<and> set_busy s' = set_busy s \<or> (\<exists>k. ks = [k] \<and> \<not> set_busy r k \<and> set_busy s' = (set_busy s)(k := True)))"
proof (cases "starts m")
  case None
  have "\<not> destructiveBusy r" using m(1) by (auto simp: reachable_controls_def split: if_splits)
  then have i: "idle s" using set_ok_idle [OF ok] by blast
  have f: "flags s' = flags s" "ks = []" using click_keeps [OF None m(2)] by auto
  then have "idle s'" using i by (simp add: flags_def idle_def)
  then show ?thesis using f ok set_busy_cong [OF f(1)] flags_saving [OF f(1)] by (auto simp: matching_def)
next
  case (Some k)
  have r: "\<not> destructiveBusy r" "k = KDestroy \<and> m = DialogConfirm \<and> pending r \<noteq> None \<or> k \<noteq> KDestroy \<and> \<not> set_busy r k"
    using starts_reachable [OF m(1) Some] by auto
  note i = set_ok_idle [OF ok r(1)]
  show ?thesis
  proof (cases "k = KDestroy")
    case True
    then have c: "ks = [KDestroy]" "set_busy s' = (set_busy s)(KDestroy := True)" "matching s'"
      using confirm_starts [OF i(2,3)] r(2) m(2) by auto
    have "set_busy s' KSave = set_busy s KSave" by (simp add: c(2) del: set_busy.simps)
    moreover have "flags s' = flags s \<or> isSaving s' = isSaving s \<and> isTesting s' = isTesting s"
      using r(2) True m(2) by (auto simp: destroy_defs split: option.splits pendingDestructive.splits)
    ultimately show ?thesis using c i ok True by (auto simp: flags_def)
  next
    case False
    then have c: "ks = [k]" "set_busy s' = (set_busy s)(k := True)" "dialog_state s' = dialog_state s"
      using click_starts [OF Some False m(2)] by auto
    have nb: "\<not> set_busy r k" using r(2) False by blast
    have "\<not> (isSaving s' \<and> isTesting s')"
      using Some nb False ok m(2) by (cases m) (auto simp: begin_defs split: if_splits)
    then show ?thesis using c nb ok dialog_state_cong [OF c(3)] by auto
  qed
qed

lemma set_ok_release:
  assumes "set_ok (s, r, fl)" "releases KSave s s' \<and> dialog_state s' = dialog_state s" "r' = r \<or> r' = s'"
  shows "set_ok (s', r', fl')"
proof (rule set_ok_keep [OF assms(1) _ assms(3)])
  show "dialog_state s' = dialog_state s" using assms(2) by blast
  have "\<not> set_busy s' KSave" using assms(2) unfolding releases_def by blast
  then show "isSaving s' \<longrightarrow> isSaving s" "isTesting s' \<longrightarrow> isTesting s" by auto
qed

lemma settings_step_ok: "settings_step fmt c c' \<Longrightarrow> set_ok c \<Longrightarrow> set_ok c'"
proof (induction rule: settings_step.induct)
  case (click m r s s' ks fl)
  then show ?case using click_ok by blast
next
  case (retention r s' days s fl)
  have "\<not> (isSaving s' \<and> isTesting s')" using retention by (auto simp: begin_defs)
  moreover have "matching s'"
    using retention dialog_state_cong(1) [OF retention_starts(2) [of days r s]] by simp
  ultimately show ?case by (intro set_ok_same)
next
  case (edit s' ed s r fl)
  then show ?case
    using dialog_state_cong(1) [OF keeps(2) [of ed s]] flags_saving [OF keeps(1) [of ed s]] by (intro set_ok_same) auto
next
  case (routed s' s tab r fl)
  then show ?case
    using dialog_state_cong(1) [OF keeps(4) [of s tab s]] flags_saving [OF keeps(3) [of s tab s]]
    by (intro set_ok_same) auto
next
  case (saved fl s s' res r0 r' r)
  have "isSaving s \<and> \<not> isTesting s" using saved by auto
  then have "releases KSave s s' \<and> dialog_state s' = dialog_state s" by (rule save_releases) (rule saved)
  then show ?case by (rule set_ok_release [OF saved.prems]) (rule saved)
next
  case (tested fl s s' tres r' r)
  have "\<not> isSaving s" using tested by auto
  then have "releases KSave s s' \<and> dialog_state s' = dialog_state s" by (rule test_releases) (rule tested)
  then show ?case by (rule set_ok_release [OF tested.prems]) (rule tested)
next
  case (added fl s' pres s r' r)
  have "isSaving s' = isSaving s" "isTesting s' = isTesting s"
    unfolding added.hyps(2) by (auto simp: end_defs begin_defs Let_def split: sum.splits option.splits)
  moreover have "dialog_state s' = dialog_state s" unfolding added.hyps(2) using add_releases by blast
  ultimately show ?case by (intro set_ok_keep [OF added.prems _ added.hyps(3)]) simp_all
next
  case (revoked_all fl s s' n r' r)
  then show ?case
    using flags_saving [OF keeps(7) [of n s]] keeps(8) [of n s]
    by (intro set_ok_keep [OF revoked_all.prems _ revoked_all.hyps(4)]) simp_all
next
  case (destroyed fl r0 s d s' ts r' r)
  then have m: "matching s" "matching r" by simp_all
  have d: "releases KDestroy s s'" "idle s'" "\<not> idle s" using destroy_releases [OF m(1) destroyed.hyps(2-4)] by blast+
  have sv: "isSaving s' = isSaving s" "isTesting s' = isTesting s"
    using destroyed.hyps(4) by (cases d; auto simp: destroy_defs split: option.splits pendingDestructive.splits sum.splits)+
  have "\<not> idle r" using destroyed.prems d(3) dialog_state_cong(2) [of s r] by simp
  moreover have "matching s'" using d(2) by (simp add: matching_def)
  ultimately show ?case using destroyed.prems destroyed.hyps(5) d(2) m(2) sv by (elim disjE) simp_all
next
  case (answered s' a s r' r fl)
  then show ?case
    using flags_saving [OF keeps(5) [of a s]] keeps(6) [of a s]
    by (intro set_ok_keep [OF answered.prems _ answered.hyps(2)]) simp_all
next
  case (render s r fl)
  then show ?case by auto
qed

text \<open>What a step does to the locks: it takes one, releases one or touches none.\<close>

lemma settings_step_kind:
  assumes st: "settings_step fmt (s, r, fl) (s', r', fl')" and ok: "set_ok (s, r, fl)"
  shows "(\<exists>k. \<not> set_busy r k \<and> fl' = k # fl \<and> set_busy s' = (set_busy s)(k := True) \<and> r' = s')
    \<or> (\<exists>k. k \<in> set fl \<and> releases k s s' \<and> fl' = remove1 k fl \<and> (r' = r \<or> r' = s'))
    \<or> (fl' = fl \<and> set_busy s' = set_busy s \<and> (r' = r \<or> r' = s'))"
  using st
proof (cases rule: settings_stepE)
  case (click m ks)
  have "ks = [] \<and> set_busy s' = set_busy s \<or> (\<exists>k. ks = [k] \<and> \<not> set_busy r k \<and> set_busy s' = (set_busy s)(k := True))"
    using click_ok [OF ok] click by blast
  then show ?thesis using click by (elim disjE exE conjE) simp_all
next
  case (retention days)
  then have "\<not> set_busy r KSave" by simp
  then show ?thesis using retention retention_starts(1) [of days r s] by (simp del: set_busy.simps)
next
  case (edit ed)
  then show ?thesis using set_busy_cong [OF keeps(1) [of ed s]] by simp
next
  case (routed tab)
  then show ?thesis using set_busy_cong [OF keeps(3) [of s tab s]] by simp
next
  case (saved res r0)
  have "isSaving s \<and> \<not> isTesting s" using saved ok by auto
  then have "releases KSave s s'" using save_releases [OF _ saved(4)] by blast
  then show ?thesis using saved by blast
next
  case (tested tres)
  have "\<not> isSaving s" using tested ok by auto
  then have "releases KSave s s'" using test_releases [OF _ tested(4)] by blast
  then show ?thesis using tested by blast
next
  case (added pres)
  then have "releases KAdd s s'" using add_releases by blast
  then show ?thesis using added by blast
next
  case (revoked_all n)
  then show ?thesis using set_busy_cong [OF keeps(7) [of n s]] by simp
next
  case (destroyed r0 d ts)
  have "matching s" using ok by simp
  then have "releases KDestroy s s'" using destroy_releases destroyed by blast
  then show ?thesis using destroyed by blast
next
  case (answered a)
  then show ?thesis using set_busy_cong [OF keeps(5) [of a s]] by simp
next
  case render
  then show ?thesis by simp
qed

interpretation set_flight: single_flight set_busy "\<lambda>s k. \<not> set_busy s k" set_ok "settings_step fmt"
proof
  fix s r fl s' r' fl'
  assume st: "settings_step fmt (s, r, fl) (s', r', fl')" and ok: "set_ok (s, r, fl)"
  show "(\<exists>k. \<not> set_busy r k \<and> fl' = k # fl \<and> set_busy s' = (set_busy s)(k := True) \<and> r' = s')
     \<or> (\<exists>k ks. k \<in> set fl \<and> \<not> set_busy s' k \<and> fl' = ks @ remove1 k fl \<and> distinct ks
            \<and> (\<forall>j \<in> set ks. \<not> set_busy s j \<and> j \<noteq> k \<and> set_busy s' j)
            \<and> (\<forall>j. j \<noteq> k \<longrightarrow> j \<notin> set ks \<longrightarrow> set_busy s' j = set_busy s j)
            \<and> (r' = r \<and> (\<forall>j \<in> set ks. \<not> \<not> set_busy r j) \<or> r' = s'))
     \<or> (fl' = fl \<and> set_busy s' = set_busy s \<and> (r' = r \<or> r' = s'))"
  proof (cases "\<exists>k. k \<in> set fl \<and> releases k s s' \<and> fl' = remove1 k fl \<and> (r' = r \<or> r' = s')")
    case True
    then obtain k where "k \<in> set fl" "releases k s s'" "fl' = remove1 k fl" "r' = r \<or> r' = s'" by blast
    then have "k \<in> set fl \<and> \<not> set_busy s' k \<and> fl' = [] @ remove1 k fl \<and> distinct []
        \<and> (\<forall>j \<in> set []. \<not> set_busy s j \<and> j \<noteq> k \<and> set_busy s' j)
        \<and> (\<forall>j. j \<noteq> k \<longrightarrow> j \<notin> set [] \<longrightarrow> set_busy s' j = set_busy s j)
        \<and> (r' = r \<and> (\<forall>j \<in> set []. \<not> \<not> set_busy r j) \<or> r' = s')"
      unfolding releases_def by (simp del: set_busy.simps)
    then show ?thesis by blast
  next
    case False
    then show ?thesis using settings_step_kind [OF st ok] by blast
  qed
next
  show "settings_step fmt c c' \<Longrightarrow> set_ok c \<Longrightarrow> set_ok c'" for c c' by (rule settings_step_ok)
qed simp

text \<open>
  C37: no operation of the settings page overlaps itself. In every run of the page from its first
  render, with clicks on whatever the rendered page offers, edits, tab changes and answers in any
  order: at most one of saving, changing the retention and testing the connection is in flight,
  at most one confirmed destructive action, and at most one passkey registration; an operation is
  in flight exactly while its flag is set; and as long as it is, the page offers no control that
  starts another of its group.
\<close>

theorem one_settings_operation:
  assumes run: "(settings_step fmt)\<^sup>*\<^sup>* (settings_mount rt it, settings_mount rt it, []) (s, r, fl)"
  shows "distinct fl \<and> (\<forall>k. set_busy s k \<longleftrightarrow> k \<in> set fl)
    \<and> list_all (\<lambda>m. case starts m of None \<Rightarrow> True | Some k \<Rightarrow> k \<notin> set fl) (reachable_controls fmt r)"
proof -
  let ?s = "settings_mount rt it"
  have idle0: "\<not> set_busy ?s k" for k
    by (cases k) (simp_all add: idle_def settings_mount_def begin_defs Let_def)
  have "set_ok (?s, ?s, [])"
    using idle0 [of KDestroy] idle0 [of KSave] by (intro set_ok_same) (auto simp: matching_def)
  then have "set_flight.flight_inv (s, r, fl)"
    using set_flight.flight_inv_reach [OF run] set_flight.flight_inv_idle [of ?s] idle0 by blast
  then have inv: "set_ok (s, r, fl)" "distinct fl" "\<And>k. set_busy s k \<longleftrightarrow> k \<in> set fl" "\<And>k. set_busy s k \<Longrightarrow> set_busy r k"
    unfolding set_flight.flight_inv_def by auto
  have "k \<notin> set fl" if "m \<in> set (reachable_controls fmt r)" "starts m = Some k" for m k
    using starts_reachable [OF that] set_ok_idle [OF inv(1)] inv(3,4) [of k] by (cases k) auto
  then show ?thesis using inv(2,3) by (auto simp: list_all_iff split: option.split)
qed

lemma one_settings_operation_witness:
  "distinct [KSave] \<and> (\<forall>k. set_busy ((settings_mount None None)\<lparr>auditRetentionDays := 30, isSaving := True, s_loading := False\<rparr>) k
      \<longleftrightarrow> k \<in> set [KSave])"
proof -
  let ?m = "settings_mount None None"
  let ?l = "loadSettings_end (Inr \<lparr>gs_gotifyUrl = [], gs_gotifyToken = [], gs_auditRetentionDays = 90\<rparr>) ?m"
  let ?s = "?m\<lparr>auditRetentionDays := 30, isSaving := True, s_loading := False\<rparr>"
  have s: "?s = fst (handleRetentionChange_begin 30 ?l ?l)"
    by (simp add: handleRetentionChange_begin_def loadSettings_end_def settings_mount_def begin_defs Let_def)
  let ?fmt = "\<lparr>toLocaleDateString = \<lambda>_. [], toLocaleString = \<lambda>_. []\<rparr>"
  have "settings_step ?fmt (?m, ?m, []) (?l, ?l, [])"
    by (rule settings_step.answered [of _ "SettingsLoaded (Inr \<lparr>gs_gotifyUrl = [], gs_gotifyToken = [], gs_auditRetentionDays = 90\<rparr>)"]) simp_all
  moreover have "settings_step ?fmt (?l, ?l, []) (?s, ?s, [KSave])"
    by (rule settings_step.retention [OF _ _ s])
       (simp_all add: loadSettings_end_def settings_mount_def begin_defs destructiveBusy_def Let_def)
  ultimately have "(settings_step ?fmt)\<^sup>*\<^sup>* (?m, ?m, []) (?s, ?s, [KSave])"
    by (rule rtranclp.rtrancl_into_rtrancl [OF r_into_rtranclp])
  from one_settings_operation [OF this] show ?thesis by blast
qed

end
