(* ===== verification/Outcome_Reports.thy ===== *)
theory Outcome_Reports
  imports Container_Views Admin_Resources Settings_Ops
begin

text \<open>
  How the operations of the pages report to the user, across components. The handlers of
  \<open>src/frontend/src/hooks/useContainers.ts\<close>, \<open>hooks/useAdminResources.ts\<close> and
  \<open>components/Settings.tsx\<close> end in a call of \<open>toast.success\<close>, \<open>toast.error\<close> or \<open>toast.info\<close>, which
  the provider of \<open>context/ToastContext.tsx\<close> turns into an entry of its list.

  The locale \<open>reporter\<close> is the contract: an operation that has settled makes exactly one call, an
  error exactly if it failed. What the list of toasts then looks like is proved once in the
  locale, which is interpreted for the container actions, the mutations of the administration
  page, the operations of the settings page, and for all of them together. The measurement of
  volume sizes is not one of them: it reports failures only.
\<close>

section \<open>The contract\<close>

locale reporter =
  fixes report :: "'o \<Rightarrow> toast_call list" and failed :: "'o \<Rightarrow> bool"
  assumes one_report: "\<exists>t. report x = [t] \<and> (tc_type t = Error \<longleftrightarrow> failed x)"
begin

lemma calls: "list_all2 (\<lambda>x c. tc_type c = Error \<longleftrightarrow> failed x) xs (concat (map report xs))"
proof (induction xs)
  case (Cons x xs)
  obtain t where "report x = [t]" "tc_type t = Error \<longleftrightarrow> failed x" using one_report by blast
  with Cons show ?case by simp
qed simp

lemma number_of_calls: "length (concat (map report xs)) = length xs"
  using list_all2_lengthD [OF calls] by simp

text \<open>The list of toasts grows by one entry per operation, in the order in which they settle.\<close>

lemma shown:
  assumes "length js = length xs"
  shows "\<exists>new. emit (zip js (concat (map report xs))) ts = ts @ new \<and> map t_id new = js
     \<and> list_all2 (\<lambda>x t. t_type t = Error \<longleftrightarrow> failed x) xs new"
proof -
  define cs where "cs = concat (map report xs)"
  have len: "length js = length cs" using assms number_of_calls by (simp add: cs_def)
  have "list_all2 (\<lambda>x c. tc_type c = Error \<longleftrightarrow> failed x) xs cs" unfolding cs_def by (rule calls)
  then have "list_all2 (\<lambda>x t. t_type t = Error \<longleftrightarrow> failed x) xs (map toast_of (zip js cs))"
    using len by (auto simp: list_all2_conv_all_nth toast_of_def split_beta)
  moreover have "map t_id (map toast_of (zip js cs)) = js"
    using len by (simp add: toast_of_def comp_def split_beta)
  ultimately show ?thesis using emit_toasts [of "zip js cs" ts] unfolding cs_def by blast
qed

end

section \<open>The operations\<close>

text \<open>The container actions, with the name the handler captured and the answer.\<close>

datatype cont_settled = ContSettled cont_action string string "checkContainerUpdatesResponse rpc" cont_hook

fun cont_report :: "cont_settled \<Rightarrow> toast_call list" where
  "cont_report (ContSettled a i name r s) = snd (act_end a i name r s)"

fun cont_failed :: "cont_settled \<Rightarrow> bool" where
  "cont_failed (ContSettled a i name r s) \<longleftrightarrow> \<not> succeeded r"

text \<open>The mutations of the administration page, with the render their handler was called in.\<close>

datatype adm_settled = AdmSettled mutation adm adm

fun adm_report :: "adm_settled \<Rightarrow> toast_call list" where
  "adm_report (AdmSettled m r s) = fst (snd (mutation_end m r s))"

fun adm_failed :: "adm_settled \<Rightarrow> bool" where
  "adm_failed (AdmSettled m r s) \<longleftrightarrow> failure m \<noteq> None"

text \<open>
  The operations of the settings page, with the render their handler was made in where the
  continuation uses it. A connection test also fails when the server answers that it did.
\<close>

datatype settings_op =
    SaveSettled "unit rpc"
  | RetentionSettled settings "unit rpc"
  | TestSettled "testGotifyNotificationResponse rpc"
  | PasskeyAdded "passkey option rpc"
  | PasskeyRenamed string "passkey option rpc"
  | PasskeyRemoved string "unit rpc"
  | SessionEnded settings "unit rpc"
  | OthersEnded "int rpc"

fun settings_end :: "settings_op \<Rightarrow> settings \<Rightarrow> settings \<times> toast_call list" where
  "settings_end (SaveSettled r) s = handleSave_end r s"
| "settings_end (RetentionSettled r0 r) s = handleRetentionChange_end r0 r s"
| "settings_end (TestSettled r) s = handleTestConnection_end r s"
| "settings_end (PasskeyAdded r) s = handleAddPasskey_end r s"
| "settings_end (PasskeyRenamed i r) s = handleRenamePasskey_end i r s"
| "settings_end (PasskeyRemoved i r) s = handleDeletePasskey_end i r s"
| "settings_end (SessionEnded r0 r) s = handleRevokeSession_end r0 r s"
| "settings_end (OthersEnded r) s = handleRevokeAll_called r s"

fun settings_op_failed :: "settings_op \<Rightarrow> bool" where
  "settings_op_failed (SaveSettled r) \<longleftrightarrow> \<not> succeeded r"
| "settings_op_failed (RetentionSettled r0 r) \<longleftrightarrow> \<not> succeeded r"
| "settings_op_failed (TestSettled r) \<longleftrightarrow> (case r of Inr resp \<Rightarrow> \<not> tg_success resp | Inl _ \<Rightarrow> True)"
| "settings_op_failed (PasskeyAdded r) \<longleftrightarrow> \<not> succeeded r"
| "settings_op_failed (PasskeyRenamed i r) \<longleftrightarrow> \<not> succeeded r"
| "settings_op_failed (PasskeyRemoved i r) \<longleftrightarrow> \<not> succeeded r"
| "settings_op_failed (SessionEnded r0 r) \<longleftrightarrow> \<not> succeeded r"
| "settings_op_failed (OthersEnded r) \<longleftrightarrow> \<not> succeeded r"

fun settings_report :: "settings_op \<times> settings \<Rightarrow> toast_call list" where
  "settings_report (op, s) = snd (settings_end op s)"

section \<open>The contract holds\<close>

interpretation cont_reports: reporter cont_report cont_failed
proof
  fix x
  show "\<exists>t. cont_report x = [t] \<and> (tc_type t = Error \<longleftrightarrow> cont_failed x)"
  proof (cases x)
    case (ContSettled a i name r s)
    then show ?thesis
      by (cases a; cases r)
        (simp_all add: act_end_def startContainer_end_def stopContainer_end_def upgradeContainer_end_def
          setContainerAutoUpdate_end_def checkContainerUpdates_end_def op_defs succeeded_def Let_def)
  qed
qed

interpretation adm_reports: reporter adm_report adm_failed
proof
  fix x
  show "\<exists>t. adm_report x = [t] \<and> (tc_type t = Error \<longleftrightarrow> adm_failed x)"
  proof (cases x)
    case (AdmSettled m r s)
    then show ?thesis by (cases m) (auto simp: op_defs error_of_def Let_def split: sum.splits)
  qed
qed

interpretation settings_reports: reporter settings_report "\<lambda>(op, s). settings_op_failed op"
proof
  fix x
  show "\<exists>t. settings_report x = [t] \<and> (tc_type t = Error \<longleftrightarrow> (\<lambda>(op, s). settings_op_failed op) x)"
  proof (cases x)
    case (Pair op s)
    then show ?thesis
      by (cases op)
        (auto simp: handleSave_end_def handleRetentionChange_end_def handleTestConnection_end_def handleAddPasskey_end_def
          handleRenamePasskey_end_def handleDeletePasskey_end_def handleRevokeSession_end_def handleRevokeAll_called_def
          op_defs succeeded_def Let_def split: sum.splits)
  qed
qed

text \<open>An operation of any page.\<close>

datatype settled =
    ContainerOp cont_settled
  | AdministrationOp adm_settled
  | SettingsOp settings_op settings

fun report_of :: "settled \<Rightarrow> toast_call list" where
  "report_of (ContainerOp x) = cont_report x"
| "report_of (AdministrationOp x) = adm_report x"
| "report_of (SettingsOp op s) = settings_report (op, s)"

fun has_failed :: "settled \<Rightarrow> bool" where
  "has_failed (ContainerOp x) = cont_failed x"
| "has_failed (AdministrationOp x) = adm_failed x"
| "has_failed (SettingsOp op s) = settings_op_failed op"

interpretation app_reports: reporter report_of has_failed
proof
  fix x
  show "\<exists>t. report_of x = [t] \<and> (tc_type t = Error \<longleftrightarrow> has_failed x)"
    by (cases x) (use cont_reports.one_report adm_reports.one_report settings_reports.one_report in auto)
qed

end
