(* ===== verification/Rpc_Api.thy ===== *)
theory Rpc_Api
  imports Wire_Messages
begin

text \<open>
  The five services the frontend calls, as the generated service descriptors under
  \<open>frontend/src/gen/proto/dmanager/v1\<close> declare them: one datatype per service with one constructor
  per method, which carries the request where the request has fields; the kind of each method; the
  path a call is sent to; and the transport \<open>client.ts\<close> creates for them.
\<close>

section \<open>Services\<close>

datatype adminService =
    ListImages
  | ListVolumes
  | GetVolumeUsage
  | ListNetworks
  | DeleteImage deleteImageRequest
  | PruneImages pruneImagesRequest
  | PruneVolumes
  | DeleteNetwork deleteNetworkRequest
  | PruneNetworks
  | GetBuildCacheStats
  | PruneBuildCache pruneBuildCacheRequest
  | ListBuildCacheRecords
  | PruneBuildCacheRecord pruneBuildCacheRecordRequest
  | CheckEngine
  | GetTailscaleStatus
  | ListAuditLogs listAuditLogsRequest

datatype authService =
    GetServerStatus
  | SetupAdmin setupAdminRequest
  | Login loginRequest
  | LogoutRpc
  | GetMe
  | ListAuthEvents listAuthEventsRequest
  | ListSessions
  | RevokeSession revokeSessionRequest
  | RevokeAllOtherSessions
  | BeginPasskeyRegistration beginPasskeyRegistrationRequest
  | FinishPasskeyRegistration finishPasskeyRegistrationRequest
  | BeginPasskeyLogin
  | FinishPasskeyLogin finishPasskeyLoginRequest
  | ListPasskeys
  | RenamePasskey renamePasskeyRequest
  | DeletePasskey deletePasskeyRequest

datatype containerService =
    ListContainers
  | StartContainer startContainerRequest
  | StopContainer stopContainerRequest
  | SetContainerAutoUpdate setContainerAutoUpdateRequest
  | CheckContainerUpdates checkContainerUpdatesRequest
  | GetContainerLogs getContainerLogsRequest
  | StreamContainers
  | UpgradeContainer upgradeContainerRequest

datatype logService =
    SyncLogs syncLogsRequest
  | GetSystemLogs getSystemLogsRequest

datatype settingsService =
    GetSettings
  | UpdateSettings updateSettingsRequest
  | TestGotifyNotification testGotifyNotificationRequest
  | GetRegistryStatus

text \<open>A call through one of the five clients.\<close>

datatype rpc_call =
    AdminCall adminService
  | AuthCall authService
  | ContainerCall containerService
  | LogCall logService
  | SettingsCall settingsService

datatype methodKind = Unary | ServerStreaming

fun container_kind :: "containerService \<Rightarrow> methodKind" where
  "container_kind (GetContainerLogs q) = ServerStreaming"
| "container_kind StreamContainers = ServerStreaming"
| "container_kind _ = Unary"

fun method_kind :: "rpc_call \<Rightarrow> methodKind" where
  "method_kind (ContainerCall c) = container_kind c"
| "method_kind _ = Unary"

section \<open>Paths\<close>

text \<open>The name of the method, from the \<open>@generated from rpc\<close> line of each.\<close>

fun admin_method :: "adminService \<Rightarrow> string" where
  "admin_method ListImages = ''ListImages''"
| "admin_method ListVolumes = ''ListVolumes''"
| "admin_method GetVolumeUsage = ''GetVolumeUsage''"
| "admin_method ListNetworks = ''ListNetworks''"
| "admin_method (DeleteImage q) = ''DeleteImage''"
| "admin_method (PruneImages q) = ''PruneImages''"
| "admin_method PruneVolumes = ''PruneVolumes''"
| "admin_method (DeleteNetwork q) = ''DeleteNetwork''"
| "admin_method PruneNetworks = ''PruneNetworks''"
| "admin_method GetBuildCacheStats = ''GetBuildCacheStats''"
| "admin_method (PruneBuildCache q) = ''PruneBuildCache''"
| "admin_method ListBuildCacheRecords = ''ListBuildCacheRecords''"
| "admin_method (PruneBuildCacheRecord q) = ''PruneBuildCacheRecord''"
| "admin_method CheckEngine = ''CheckEngine''"
| "admin_method GetTailscaleStatus = ''GetTailscaleStatus''"
| "admin_method (ListAuditLogs q) = ''ListAuditLogs''"

fun auth_method :: "authService \<Rightarrow> string" where
  "auth_method GetServerStatus = ''GetServerStatus''"
| "auth_method (SetupAdmin q) = ''SetupAdmin''"
| "auth_method (Login q) = ''Login''"
| "auth_method LogoutRpc = ''Logout''"
| "auth_method GetMe = ''GetMe''"
| "auth_method (ListAuthEvents q) = ''ListAuthEvents''"
| "auth_method ListSessions = ''ListSessions''"
| "auth_method (RevokeSession q) = ''RevokeSession''"
| "auth_method RevokeAllOtherSessions = ''RevokeAllOtherSessions''"
| "auth_method (BeginPasskeyRegistration q) = ''BeginPasskeyRegistration''"
| "auth_method (FinishPasskeyRegistration q) = ''FinishPasskeyRegistration''"
| "auth_method BeginPasskeyLogin = ''BeginPasskeyLogin''"
| "auth_method (FinishPasskeyLogin q) = ''FinishPasskeyLogin''"
| "auth_method ListPasskeys = ''ListPasskeys''"
| "auth_method (RenamePasskey q) = ''RenamePasskey''"
| "auth_method (DeletePasskey q) = ''DeletePasskey''"

fun container_method :: "containerService \<Rightarrow> string" where
  "container_method ListContainers = ''ListContainers''"
| "container_method (StartContainer q) = ''StartContainer''"
| "container_method (StopContainer q) = ''StopContainer''"
| "container_method (SetContainerAutoUpdate q) = ''SetContainerAutoUpdate''"
| "container_method (CheckContainerUpdates q) = ''CheckContainerUpdates''"
| "container_method (GetContainerLogs q) = ''GetContainerLogs''"
| "container_method StreamContainers = ''StreamContainers''"
| "container_method (UpgradeContainer q) = ''UpgradeContainer''"

fun log_method :: "logService \<Rightarrow> string" where
  "log_method (SyncLogs q) = ''SyncLogs''"
| "log_method (GetSystemLogs q) = ''GetSystemLogs''"

fun settings_method :: "settingsService \<Rightarrow> string" where
  "settings_method GetSettings = ''GetSettings''"
| "settings_method (UpdateSettings q) = ''UpdateSettings''"
| "settings_method (TestGotifyNotification q) = ''TestGotifyNotification''"
| "settings_method GetRegistryStatus = ''GetRegistryStatus''"

text \<open>The Connect protocol sends a call to the path made of the service's and the method's name.\<close>

definition service_path :: "string \<Rightarrow> string \<Rightarrow> string" where
  "service_path service m = ''/dmanager.v1.'' @ service @ ''/'' @ m"

fun procedure :: "rpc_call \<Rightarrow> string" where
  "procedure (AdminCall c) = service_path ''AdminService'' (admin_method c)"
| "procedure (AuthCall c) = service_path ''AuthService'' (auth_method c)"
| "procedure (ContainerCall c) = service_path ''ContainerService'' (container_method c)"
| "procedure (LogCall c) = service_path ''LogService'' (log_method c)"
| "procedure (SettingsCall c) = service_path ''SettingsService'' (settings_method c)"

declare procedure.simps [simp del]

section \<open>The transport\<close>

text \<open>
  \<open>getBaseUrl\<close>: \<open>port\<close> is \<open>window.location.port\<close>, \<open>None\<close> outside a browser. The development servers'
  ports talk to the backend's own port; everything else is served by the backend.
\<close>

definition getBaseUrl :: "string option \<Rightarrow> string" where
  "getBaseUrl port =
     (case port of
        None \<Rightarrow> ''http://localhost:9283''
      | Some p \<Rightarrow> if p \<noteq> ''5173'' \<and> p \<noteq> ''3000'' then '''' else ''http://localhost:9283'')"

record transport =
  tp_baseUrl :: string
  tp_useBinaryFormat :: bool
  tp_credentials :: string

definition client_transport :: "string option \<Rightarrow> transport" where
  "client_transport port =
     \<lparr>tp_baseUrl = getBaseUrl port, tp_useBinaryFormat = True, tp_credentials = ''include''\<rparr>"

text \<open>The address a call of a client is sent to.\<close>

definition call_url :: "string option \<Rightarrow> rpc_call \<Rightarrow> string" where
  "call_url port c = tp_baseUrl (client_transport port) @ procedure c"

end
