(* ===== verification/Page_Calls.thy ===== *)
theory Page_Calls
  imports Rpc_Api Container_Views Routes Admin_Views Audit_Logs Log_Views Settings_View Client_Logs
begin

text \<open>
  Which calls the frontend sends, with their requests: the expressions of the form
  \<open>xyzClient.method({...})\<close> of the hooks and pages under \<open>frontend/src\<close>, each with the guard under
  which its handler reaches it. The administration page's runs are labelled with the clicks and the
  calls they make.
\<close>

section \<open>Containers\<close>

fun act_call :: "cont_action \<Rightarrow> string \<Rightarrow> rpc_call" where
  "act_call StartC i = ContainerCall (StartContainer \<lparr>stc_id = i\<rparr>)"
| "act_call StopC i = ContainerCall (StopContainer \<lparr>spc_id = i\<rparr>)"
| "act_call UpgradeC i = ContainerCall (UpgradeContainer \<lparr>ugc_id = i\<rparr>)"
| "act_call (AutoUpdateC b) i = ContainerCall (SetContainerAutoUpdate \<lparr>sau_id = i, sau_autoUpdate = b\<rparr>)"
| "act_call CheckC i = ContainerCall (CheckContainerUpdates \<lparr>ccu_id = i\<rparr>)"

text \<open>A click on the dashboard; its other controls call nothing.\<close>

fun dash_calls :: "dash_msg \<Rightarrow> rpc_call list" where
  "dash_calls (Act a i) = [act_call a i]"
| "dash_calls _ = []"

text \<open>The drawer's streams, by the requests they were opened with.\<close>

definition drawer_calls :: "drawer \<Rightarrow> rpc_call list" where
  "drawer_calls d = map (\<lambda>st. ContainerCall (GetContainerLogs (ls_request st))) (dr_streams d)"

section \<open>Administration\<close>

definition fetch_calls :: "adminResourceKind \<Rightarrow> rpc_call list" where
  "fetch_calls kind =
     (case kind of
        ImagesKind \<Rightarrow> [AdminCall ListImages]
      | VolumesKind \<Rightarrow> [AdminCall ListVolumes]
      | NetworksKind \<Rightarrow> [AdminCall ListNetworks]
      | BuilderKind \<Rightarrow> [AdminCall GetBuildCacheStats, AdminCall ListBuildCacheRecords])"

definition effect_calls :: "adminResourceKind \<Rightarrow> adm \<Rightarrow> rpc_call list" where
  "effect_calls kind s = (if effectDeps s = Some (kind, refreshNonce s) then [] else fetch_calls kind)"

definition prune_call :: "pruneScope option \<Rightarrow> rpc_call" where
  "prune_call scope =
     (if scope = Some BuilderScope then AdminCall (PruneBuildCache \<lparr>pbq_all = False\<rparr>)
      else if scope = Some VolumesScope then AdminCall PruneVolumes
      else if scope = Some NetworksScope then AdminCall PruneNetworks
      else AdminCall (PruneImages \<lparr>pir_danglingOnly = (scope = Some DanglingScope)\<rparr>))"

text \<open>The calls of a click, by the render it happened in: each handler's guard, then its call.\<close>

fun click_calls :: "adm_msg \<Rightarrow> adm_page \<Rightarrow> rpc_call list" where
  "click_calls ConfirmPrune r = (if pruning (pg r) then [] else [prune_call (pendingPrune r)])"
| "click_calls ConfirmRecord r =
     (case pendingRecord r of
        None \<Rightarrow> []
      | Some x \<Rightarrow> if pruning (pg r) then [] else [AdminCall (PruneBuildCacheRecord \<lparr>prq_id = bcr_id x\<rparr>)])"
| "click_calls MeasureClick r = (if measuring (pg r) then [] else [AdminCall GetVolumeUsage])"
| "click_calls ConfirmImage r =
     (case imagePending r of
        None \<Rightarrow> []
      | Some i \<Rightarrow> if deletingId (pg r) \<noteq> None then [] else [AdminCall (DeleteImage \<lparr>dir_id = img_id i, dir_force = True\<rparr>)])"
| "click_calls ConfirmNetwork r =
     (case networkPending r of
        None \<Rightarrow> []
      | Some n \<Rightarrow> if deletingNetworkId (pg r) \<noteq> None then [] else [AdminCall (DeleteNetwork \<lparr>dnr_id = net_id n\<rparr>)])"
| "click_calls _ r = []"

text \<open>
  \<open>adm_run isAdmin c ms cs\<close>: a run of the page that ends in the configuration \<open>c\<close>, with the clicks
  \<open>ms\<close> and the calls \<open>cs\<close> it made. The steps are those of \<open>adm_step\<close>.
\<close>

inductive adm_run :: "bool \<Rightarrow> (adm_page, adm_key) flight \<Rightarrow> adm_msg list \<Rightarrow> rpc_call list \<Rightarrow> bool"
  for isAdmin :: bool where
  mounted: "adm_run isAdmin (page_init, page_init, []) [] []"
| click: "\<lbrakk>adm_run isAdmin (s, r, fl) ms cs; m \<in> set (offered (administration e isAdmin tab r)); page_click m r s = (s', ks)\<rbrakk>
     \<Longrightarrow> adm_run isAdmin (s', s', ks @ fl) (ms @ [m]) (cs @ click_calls m r)"
| pruned: "\<lbrakk>adm_run isAdmin (s, r, fl) ms cs; KPrune \<in> set fl; pruneClosure s = Some r0; is_prune m;
     settle_prune m r0 s = (s', ks); r' = r \<or> r' = s'\<rbrakk>
     \<Longrightarrow> adm_run isAdmin (s', r', ks @ remove1 KPrune fl) ms (cs @ map (\<lambda>_. AdminCall GetVolumeUsage) ks)"
| imaged: "\<lbrakk>adm_run isAdmin (s, r, fl) ms cs; KImage \<in> set fl; s' = settle_image res s; r' = r \<or> r' = s'\<rbrakk>
     \<Longrightarrow> adm_run isAdmin (s', r', remove1 KImage fl) ms cs"
| networked: "\<lbrakk>adm_run isAdmin (s, r, fl) ms cs; KNetwork \<in> set fl; s' = settle_network res s; r' = r \<or> r' = s'\<rbrakk>
     \<Longrightarrow> adm_run isAdmin (s', r', remove1 KNetwork fl) ms cs"
| measured: "\<lbrakk>adm_run isAdmin (s, r, fl) ms cs; KMeasure \<in> set fl; s' = settle_measure res s; r' = r \<or> r' = s'\<rbrakk>
     \<Longrightarrow> adm_run isAdmin (s', r', remove1 KMeasure fl) ms cs"
| fetched: "\<lbrakk>adm_run isAdmin (s, r, fl) ms cs; s' = s\<lparr>pg := fetchResources_end run res (pg s)\<rparr>; r' = r \<or> r' = s'\<rbrakk>
     \<Longrightarrow> adm_run isAdmin (s', r', fl) ms cs"
| recorded: "\<lbrakk>adm_run isAdmin (s, r, fl) ms cs; s' = s\<lparr>pg := fetchRecords_end run recs (pg s)\<rparr>; r' = r \<or> r' = s'\<rbrakk>
     \<Longrightarrow> adm_run isAdmin (s', r', fl) ms cs"
| render: "\<lbrakk>adm_run isAdmin (s, r, fl) ms cs; s' = page_render tab s\<rbrakk>
     \<Longrightarrow> adm_run isAdmin (s', s', fl) ms (cs @ effect_calls tab (pg s))"

text \<open>The labels leave the runs as they are, and a started operation is a call that was made.\<close>

lemma adm_run_steps: "adm_run isAdmin c ms cs \<Longrightarrow> rtranclp (adm_step isAdmin) (page_init, page_init, []) c"
proof (induction rule: adm_run.induct)
  case (click s r fl ms cs m e tab s' ks)
  then show ?case using adm_step.click [OF click(2,3)] by (meson rtranclp.rtrancl_into_rtrancl)
next
  case (pruned s r fl ms cs r0 m s' ks r')
  then show ?case using adm_step.pruned [OF pruned(2-6)] by (meson rtranclp.rtrancl_into_rtrancl)
next
  case (imaged s r fl ms cs s' res r')
  then show ?case using adm_step.imaged [OF imaged(2-4)] by (meson rtranclp.rtrancl_into_rtrancl)
next
  case (networked s r fl ms cs s' res r')
  then show ?case using adm_step.networked [OF networked(2-4)] by (meson rtranclp.rtrancl_into_rtrancl)
next
  case (measured s r fl ms cs s' res r')
  then show ?case using adm_step.measured [OF measured(2-4)] by (meson rtranclp.rtrancl_into_rtrancl)
next
  case (fetched s r fl ms cs s' run res r')
  then show ?case using adm_step.fetched [OF fetched(2,3)] by (meson rtranclp.rtrancl_into_rtrancl)
next
  case (recorded s r fl ms cs s' run recs r')
  then show ?case using adm_step.recorded [OF recorded(2,3)] by (meson rtranclp.rtrancl_into_rtrancl)
next
  case (render s r fl ms cs s' tab)
  then show ?case using adm_step.render [OF render(2)] by (meson rtranclp.rtrancl_into_rtrancl)
qed simp

lemma click_calls_started:
  "page_click m r s = (s', ks) \<Longrightarrow> permitted isAdmin r m \<Longrightarrow> length (click_calls m r) = length ks"
  by (cases m) (auto simp: onConfirmPrune_def onConfirmRecord_def handleConfirmImage_def handleConfirmNetwork_def
      started_def op_defs Let_def split: option.splits if_splits)

section \<open>The other pages\<close>

text \<open>Audit and system logs, by the requests in flight.\<close>

definition audit_calls :: "audit \<Rightarrow> rpc_call list" where
  "audit_calls s = map (\<lambda>q. AdminCall (ListAuditLogs q)) (au_flight s)"

definition sys_calls :: "sysLogs \<Rightarrow> rpc_call list" where
  "sys_calls s = map (\<lambda>(_, q). LogCall (GetSystemLogs q)) (sy_flight s)"

text \<open>The settings page: what the effects load, and what a click on a control calls.\<close>

definition authEvents_call :: rpc_call where
  "authEvents_call = AuthCall (ListAuthEvents \<lparr>laq_limit = 50, laq_offset = 0, laq_eventType = ''''\<rparr>)"

definition security_calls :: "rpc_call list" where
  "security_calls = [AuthCall ListPasskeys, AuthCall GetServerStatus, AuthCall ListSessions, authEvents_call]"

definition settings_mount_calls :: "settings \<Rightarrow> rpc_call list" where
  "settings_mount_calls s =
     [SettingsCall GetSettings, SettingsCall GetRegistryStatus]
     @ (if localTab s = SecurityTab then security_calls else [])"

fun destructive_call :: "pendingDestructive \<Rightarrow> rpc_call" where
  "destructive_call (PasskeyTarget pk) = AuthCall (DeletePasskey \<lparr>dpq_id = pk_id pk\<rparr>)"
| "destructive_call (SessionTarget se) = AuthCall (RevokeSession \<lparr>rsq_sessionId = se_sessionId se\<rparr>)"
| "destructive_call AllSessions = AuthCall RevokeAllOtherSessions"

fun settings_calls :: "set_msg \<Rightarrow> settings \<Rightarrow> rpc_call list" where
  "settings_calls (TabTo t) r = (if t = SecurityTab \<and> localTab r \<noteq> SecurityTab then security_calls else [])"
| "settings_calls SaveSettings r = [SettingsCall (UpdateSettings (snd (handleSave_begin r r)))]"
| "settings_calls TestConnection r =
     [SettingsCall (TestGotifyNotification
        \<lparr>tgr_gotifyUrl = fst (fst (snd (handleTestConnection_begin r r))),
         tgr_gotifyToken = snd (fst (snd (handleTestConnection_begin r r)))\<rparr>)]"
| "settings_calls RefreshRegistries r = [SettingsCall GetRegistryStatus]"
| "settings_calls RefreshPasskeys r = [AuthCall ListPasskeys]"
| "settings_calls SubmitPasskey r = [AuthCall (BeginPasskeyRegistration \<lparr>bpr_name = snd (handleAddPasskey_begin r r)\<rparr>)]"
| "settings_calls (SaveName i) r =
     (case handleRenamePasskey_begin i r of
        None \<Rightarrow> []
      | Some (j, n) \<Rightarrow> [AuthCall (RenamePasskey \<lparr>rpq_id = j, rpq_name = n\<rparr>)])"
| "settings_calls RefreshSessions r = [AuthCall ListSessions]"
| "settings_calls RefreshEvents r = [authEvents_call]"
| "settings_calls DialogConfirm r = (case pending r of None \<Rightarrow> [] | Some p \<Rightarrow> [destructive_call p])"
| "settings_calls _ r = []"

text \<open>A new choice of the retention saves at once; a registration ends with the authenticator's answer.\<close>

definition retention_call :: "int \<Rightarrow> settings \<Rightarrow> rpc_call" where
  "retention_call days r = SettingsCall (UpdateSettings (snd (handleRetentionChange_begin days r r)))"

definition registered_call :: "settings \<Rightarrow> string \<Rightarrow> rpc_call" where
  "registered_call r credentialJson =
     AuthCall (FinishPasskeyRegistration \<lparr>fpr_name = snd (handleAddPasskey_begin r r), fpr_responseJson = credentialJson\<rparr>)"

text \<open>The provider: the two calls of the start-up check, and those of a submitted form.\<close>

definition checkAuth_calls :: "rpc_call list" where
  "checkAuth_calls = [AuthCall GetServerStatus, AuthCall GetMe]"

definition login_call :: "string \<times> string \<times> bool \<Rightarrow> rpc_call" where
  "login_call = (\<lambda>(u, p, remember). AuthCall (Login \<lparr>lq_username = u, lq_password = p, lq_rememberMe = remember\<rparr>))"

definition setup_calls :: "string \<times> string \<Rightarrow> rpc_call list" where
  "setup_calls = (\<lambda>(u, p). [AuthCall (SetupAdmin \<lparr>sar_username = u, sar_password = p\<rparr>), login_call (u, p, False)])"

definition passkeyLogin_calls :: "bool \<Rightarrow> string \<Rightarrow> rpc_call list" where
  "passkeyLogin_calls rememberMe credentialJson =
     [AuthCall BeginPasskeyLogin,
      AuthCall (FinishPasskeyLogin \<lparr>fpl_responseJson = credentialJson, fpl_rememberMe = rememberMe\<rparr>)]"

definition logout_calls :: "rpc_call list" where
  "logout_calls = [AuthCall LogoutRpc, AuthCall GetServerStatus]"

text \<open>The syncer's call for a batch.\<close>

definition sync_call :: "row list \<Rightarrow> rpc_call" where
  "sync_call entries = LogCall (SyncLogs \<lparr>slq_entries = map (protoEntry \<circ> snd) entries\<rparr>)"

text \<open>
  What is called when the page of a location is mounted in a visible tab: the layout's check of the
  engine, the status of the Tailscale node on the administration page, and the page's first loads.
\<close>

fun mount_calls :: "route \<Rightarrow> rpc_call list" where
  "mount_calls DashboardRoute = [ContainerCall ListContainers, ContainerCall StreamContainers]"
| "mount_calls LogsRoute = sys_calls sys_mount"
| "mount_calls AuditLogsRoute = audit_calls useAuditLogs"
| "mount_calls (AdministrationTab tab) = fetch_calls (tab_of (Some tab)) @ [AdminCall GetTailscaleStatus]"
| "mount_calls (SettingsTab tab) = settings_mount_calls (settings_mount (Some tab) None)"
| "mount_calls _ = []"

definition page_calls :: "route \<Rightarrow> rpc_call list" where
  "page_calls r = (if in_layout r then [AdminCall CheckEngine] else []) @ mount_calls r"

section \<open>The measurement is never automatic\<close>

text \<open>
  As long as the button has not been clicked, no measurement is in flight and none has been shown,
  neither now nor in the render the prune in flight was started in.
\<close>

definition unmeasured :: "(adm_page, adm_key) flight \<Rightarrow> rpc_call list \<Rightarrow> bool" where
  "unmeasured c cs \<longleftrightarrow>
     (case c of (s, r, fl) \<Rightarrow>
        volumeUsage (pg s) = None \<and> volumeUsage (pg r) = None \<and> KMeasure \<notin> set fl
        \<and> (case pruneClosure s of None \<Rightarrow> True | Some r0 \<Rightarrow> volumeUsage r0 = None))
     \<and> AdminCall GetVolumeUsage \<notin> set cs"

lemma fetch_calls_measure: "AdminCall GetVolumeUsage \<notin> set (fetch_calls kind)"
  by (cases kind) (simp_all add: fetch_calls_def)

lemma volumeUsage_simps [simp]:
  "volumeUsage (fetchResources_end run res a) = volumeUsage a"
  "volumeUsage (fetchRecords_end run recs a) = volumeUsage a"
  "volumeUsage (fst (deleteImage_end x a)) = volumeUsage a"
  "volumeUsage (fst (deleteNetwork_end x a)) = volumeUsage a"
  "volumeUsage (adm_effects kind a) = volumeUsage a"
  by (simp_all add: fetchResources_end_def fetchRecords_end_def adm_effects_def fetchResources_begin_def
      fetchRecords_begin_def op_defs Let_def split: sum.splits)

lemma unmeasured_click:
  assumes "page_click m r s = (s', ks)" "m \<noteq> MeasureClick" "unmeasured (s, r, fl) cs"
  shows "unmeasured (s', s', ks @ fl) (cs @ click_calls m r)"
  using assms
  by (cases m) (auto simp: unmeasured_def onConfirmPrune_def onConfirmRecord_def handleConfirmImage_def
      handleConfirmNetwork_def started_def requestClose_def prune_call_def op_defs Let_def
      split: option.splits if_splits)

lemma unmeasured_prune:
  assumes "settle_prune m r0 s = (s', ks)" "is_prune m" "pruneClosure s = Some r0" "unmeasured (s, r, fl) cs" "r' = r \<or> r' = s'"
  shows "ks = [] \<and> unmeasured (s', r', remove1 KPrune fl) cs"
  using assms notin_set_remove1 [of KMeasure fl KPrune]
  by (cases m) (auto simp: settle_prune_def unmeasured_def op_defs Let_def split: sum.splits prod.splits)

lemma unmeasured_run: "adm_run isAdmin c ms cs \<Longrightarrow> MeasureClick \<notin> set ms \<Longrightarrow> unmeasured c cs"
proof (induction rule: adm_run.induct)
  case (click s r fl ms cs m e tab s' ks)
  then show ?case using unmeasured_click [OF click(3)] by auto
next
  case (pruned s r fl ms cs r0 m s' ks r')
  then show ?case using unmeasured_prune [OF pruned(5,4,3) _ pruned(6)] by auto
next
  case (measured s r fl ms cs s' res r')
  then show ?case by (auto simp: unmeasured_def)
qed (auto simp: unmeasured_def page_init_def adm_init_def settle_image_def settle_network_def page_render_def
    effect_calls_def fetch_calls_measure Let_def dest: notin_set_remove1)

text \<open>Every measurement is asked for: by the button, or by a prune that was confirmed.\<close>

definition asks :: "adm_msg \<Rightarrow> bool" where
  "asks m \<longleftrightarrow> m = MeasureClick \<or> m = ConfirmPrune \<or> m = ConfirmRecord"

definition measurements :: "rpc_call list \<Rightarrow> nat" where
  "measurements cs = length (filter (\<lambda>c. c = AdminCall GetVolumeUsage) cs)"

definition prunes_in_flight :: "adm_key list \<Rightarrow> nat" where
  "prunes_in_flight fl = length (filter (\<lambda>k. k = KPrune) fl)"

lemma count_simps [simp]:
  "measurements (cs @ ds) = measurements cs + measurements ds" "measurements [] = 0"
  "measurements (c # cs) = (if c = AdminCall GetVolumeUsage then 1 else 0) + measurements cs"
  "prunes_in_flight (ks @ fl) = prunes_in_flight ks + prunes_in_flight fl" "prunes_in_flight [] = 0"
  "prunes_in_flight (k # fl) = (if k = KPrune then 1 else 0) + prunes_in_flight fl"
  by (simp_all add: measurements_def prunes_in_flight_def)

lemma prunes_remove1:
  "prunes_in_flight (remove1 k fl) = (if k = KPrune \<and> KPrune \<in> set fl then prunes_in_flight fl - 1 else prunes_in_flight fl)"
  by (induction fl) (auto simp: prunes_in_flight_def filter_empty_conv)

lemma prunes_pos: "KPrune \<in> set fl \<Longrightarrow> 0 < prunes_in_flight fl"
  by (auto simp: prunes_in_flight_def filter_empty_conv)

lemma measurements_fetch [simp]: "measurements (effect_calls kind s) = 0"
  using fetch_calls_measure [of kind] by (auto simp: effect_calls_def measurements_def filter_empty_conv)

lemma click_asks:
  assumes "page_click m r s = (s', ks)"
  shows "measurements (click_calls m r) + prunes_in_flight ks \<le> (if asks m then 1 else 0)"
  using assms
  by (cases m) (auto simp: asks_def onConfirmPrune_def onConfirmRecord_def handleConfirmImage_def
      handleConfirmNetwork_def started_def requestClose_def prune_call_def op_defs Let_def
      split: option.splits if_splits)

lemma prune_remeasures:
  assumes "settle_prune m r0 s = (s', ks)"
  shows "measurements (map (\<lambda>_. AdminCall GetVolumeUsage) ks) \<le> 1 \<and> prunes_in_flight ks = 0"
  using assms by (auto simp: settle_prune_def split: prod.splits if_splits)

lemma asked_run:
  "adm_run isAdmin c ms cs \<Longrightarrow>
     measurements cs + (case c of (s, r, fl) \<Rightarrow> prunes_in_flight fl) \<le> length (filter asks ms)"
proof (induction rule: adm_run.induct)
  case (click s r fl ms cs m e tab s' ks)
  then show ?case using click_asks [OF click(3)] by auto
next
  case (pruned s r fl ms cs r0 m s' ks r')
  then show ?case using prune_remeasures [OF pruned(5)] prunes_pos [OF pruned(2)] by (auto simp: prunes_remove1)
qed (auto simp: prunes_remove1)

section \<open>Properties\<close>

text \<open>
  C16: The sizes of the volumes, which the daemon computes by walking every volume, are never
  measured automatically. In every run of the administration page, whatever tabs are opened and
  however often the page is refreshed or rendered: the call is not made unless the button was
  clicked, and it is made at most once per click on the button or confirmation of a prune.
\<close>

theorem volumes_measured_on_request:
  assumes "adm_run isAdmin (s, r, fl) ms cs"
  shows "(AdminCall GetVolumeUsage \<in> set cs \<longrightarrow> MeasureClick \<in> set ms)
     \<and> length (filter (\<lambda>c. c = AdminCall GetVolumeUsage) cs) \<le> length (filter asks ms)"
  using unmeasured_run [OF assms] asked_run [OF assms] by (auto simp: unmeasured_def measurements_def)

theorem volumes_measured_on_request_witness:
  "length (filter (\<lambda>c. c = AdminCall GetVolumeUsage) [AdminCall ListVolumes, AdminCall GetVolumeUsage])
     \<le> length (filter asks [MeasureClick])"
proof -
  let ?s = "page_render VolumesKind page_init"
  have run: "adm_run False (?s, ?s, []) [] ([] @ effect_calls VolumesKind (pg page_init))"
    by (rule adm_run.render [OF adm_run.mounted refl])
  have "MeasureClick \<in> set (offered (administration env0 False VolumesKind ?s))"
    by (simp add: administration_def volumesHeader_def page_render_def page_init_def adm_init_def adm_effects_def
        fetchResources_begin_def Let_def pageTabs_def statCard_def)
  moreover have "page_click MeasureClick ?s ?s = (fst (page_click MeasureClick ?s ?s), [KMeasure])"
    by (simp add: started_def measureVolumeUsage_begin_def page_render_def page_init_def adm_init_def Let_def)
  ultimately have "adm_run False (fst (page_click MeasureClick ?s ?s), fst (page_click MeasureClick ?s ?s), [KMeasure] @ [])
      ([] @ [MeasureClick]) (([] @ effect_calls VolumesKind (pg page_init)) @ click_calls MeasureClick ?s)"
    by (rule adm_run.click [OF run])
  from volumes_measured_on_request [OF this] show ?thesis
    by (simp add: effect_calls_def fetch_calls_def page_render_def page_init_def adm_init_def Let_def)
qed

end
