(* ===== verification/Server_Audit.thy ===== *)
theory Server_Audit
  imports Rpc_Api
begin

text \<open>
  The audit trail of the server (\<open>internal/audit/audit.go\<close>): one entry per recorded action, with a
  bounded detail, and the retention window applied after every insertion.

  A time is a number of nanoseconds since the epoch; \<open>created_at\<close> is the text SQLite writes for
  \<open>CURRENT_TIMESTAMP\<close>, which has a resolution of one second, and is kept as that number of seconds,
  on which the order of the texts is the order of the numbers. \<open>fails\<close> says which queries fail when
  they are tried.
\<close>

section \<open>Entries\<close>

record audit_entry =
  ae_actor :: string
  ae_actorRole :: string
  ae_source :: string
  ae_action :: string
  ae_resourceType :: string
  ae_resourceId :: string
  ae_outcome :: string
  ae_detail :: string

definition sourceUser :: string where "sourceUser = ''user''"
definition sourceSystem :: string where "sourceSystem = ''system''"
definition outcomeSuccess :: string where "outcomeSuccess = ''success''"
definition outcomeFailure :: string where "outcomeFailure = ''failure''"
definition outcomeDenied :: string where "outcomeDenied = ''denied''"

definition maxDetailLen :: nat where "maxDetailLen = 2000"
definition retentionSettingKey :: string where "retentionSettingKey = ''audit_retention_days''"
definition defaultRetentionDays :: int where "defaultRetentionDays = 90"
definition validRetentionDays :: "int list" where "validRetentionDays = [7, 30, 90, 180, 365]"

definition isValidRetentionDays :: "int \<Rightarrow> bool" where
  "isValidRetentionDays d \<longleftrightarrow> d \<in> set validRetentionDays"

section \<open>The table\<close>

datatype db_query =
    QGetSetting string
  | QListSettings
  | QUpdateSetting string
  | QCreateAuditLog
  | QTrimAuditLogs
  | QGetSession
  | QDeleteSession
  | QTouchSession
  | QGetUser
  | QGetUserByUsername
  | QCreateSession
  | QRevokeSessions
  | QCountUsers
  | QCreateUser
  | QCreateAuthEvent
  | QListSessions
  | QListAuthEvents
  | QCountAuthEvents

type_synonym failing = "db_query \<Rightarrow> bool"

record audit_db =
  settings_rows :: "(string \<times> string) list"
  audit_logs :: "(int \<times> audit_entry) list"

text \<open>\<open>strings.TrimSpace\<close>, which unlike the frontend's \<open>trim\<close> also counts U+0085 as space.\<close>

definition trimSpace :: "string \<Rightarrow> string" where
  "trimSpace s =
     (let space = (\<lambda>c. is_space c \<or> c = char_of (133::nat)) in rev (dropWhile space (rev (dropWhile space s))))"

text \<open>\<open>strconv.Atoi\<close> on decimal text: an optional sign and at least one digit.\<close>

definition is_digit :: "char \<Rightarrow> bool" where
  "is_digit c \<longleftrightarrow> (let n = (of_char c :: nat) in 48 \<le> n \<and> n \<le> 57)"

definition digits :: "string \<Rightarrow> int option" where
  "digits s =
     (if s = [] \<or> \<not> list_all is_digit s then None
      else Some (foldl (\<lambda>a c. a * 10 + (int (of_char c) - 48)) 0 s))"

definition atoi :: "string \<Rightarrow> int option" where
  "atoi s =
     (case s of
        [] \<Rightarrow> None
      | c # cs \<Rightarrow> if c = CHR ''-'' then map_option uminus (digits cs) else if c = CHR ''+'' then digits cs else digits s)"

definition retentionDays :: "failing \<Rightarrow> audit_db \<Rightarrow> int" where
  "retentionDays fails d =
     (if fails (QGetSetting retentionSettingKey) then defaultRetentionDays
      else case map_of (settings_rows d) retentionSettingKey of
        None \<Rightarrow> defaultRetentionDays
      | Some v \<Rightarrow>
          (case atoi v of
             None \<Rightarrow> defaultRetentionDays
           | Some days \<Rightarrow> if isValidRetentionDays days then days else defaultRetentionDays))"

definition seconds :: "int \<Rightarrow> int" where
  "seconds t = t div 10 ^ 9"

text \<open>\<open>AddDate(0, 0, -days)\<close> in UTC, printed to the second.\<close>

definition cutoff :: "int \<Rightarrow> int \<Rightarrow> int" where
  "cutoff now days = seconds (now - days * 86400 * 10 ^ 9)"

definition record_entry :: "failing \<Rightarrow> int \<Rightarrow> audit_entry \<Rightarrow> audit_db \<Rightarrow> audit_db" where
  "record_entry fails now e d =
     (if fails QCreateAuditLog then d
      else (let d1 = d\<lparr>audit_logs := audit_logs d @ [(seconds now, e\<lparr>ae_detail := take maxDetailLen (ae_detail e)\<rparr>)]\<rparr>
            in if fails QTrimAuditLogs then d1
               else d1\<lparr>audit_logs := filter (\<lambda>(t, _). t \<ge> cutoff now (retentionDays fails d1)) (audit_logs d1)\<rparr>))"

section \<open>The recorder\<close>

lemma retentionDays_valid: "isValidRetentionDays (retentionDays fails d)"
  by (simp add: retentionDays_def defaultRetentionDays_def isValidRetentionDays_def validRetentionDays_def
      split: option.splits)

lemma retentionDays_pos: "0 < retentionDays fails d"
  using retentionDays_valid [of fails d] by (auto simp: isValidRetentionDays_def validRetentionDays_def)

lemma cutoff_before: "0 \<le> days \<Longrightarrow> cutoff now days \<le> seconds now"
  unfolding cutoff_def seconds_def by (rule zdiv_mono1) auto

lemma retentionDays_logs [simp]: "retentionDays fails (d\<lparr>audit_logs := l\<rparr>) = retentionDays fails d"
  by (simp add: retentionDays_def)

text \<open>The entry as it is stored.\<close>

definition stored_entry :: "int \<Rightarrow> audit_entry \<Rightarrow> int \<times> audit_entry" where
  "stored_entry now e = (seconds now, e\<lparr>ae_detail := take maxDetailLen (ae_detail e)\<rparr>)"

text \<open>
  What a recording leaves in the table: the entries of the retention window, and the new one at the
  end, which the trimming that follows never removes.
\<close>

lemma record_entry_logs:
  "audit_logs (record_entry fails now e d) =
     (if fails QCreateAuditLog then audit_logs d
      else filter (\<lambda>(t, _). fails QTrimAuditLogs \<or> t \<ge> cutoff now (retentionDays fails d)) (audit_logs d)
           @ [stored_entry now e])"
proof -
  have "cutoff now (retentionDays fails d) \<le> seconds now"
    using cutoff_before retentionDays_pos less_imp_le by blast
  then show ?thesis by (simp add: record_entry_def Let_def stored_entry_def)
qed

lemma record_entry_setting [simp]: "settings_rows (record_entry fails now e d) = settings_rows d"
  by (simp add: record_entry_def Let_def)

end
