(* ===== verification/Server_Access.thy ===== *)
theory Server_Access
  imports Server_Audit
begin

text \<open>
  Access control of the server (\<open>internal/auth/interceptor.go\<close>, \<open>context.go\<close>, and
  \<open>parseSessionCookie\<close> of \<open>service.go\<close>): the matrix of procedures and roles, the authentication of a
  session cookie with its sliding expiry, and the interceptor every call passes before its handler,
  which also writes the audit trail.

  The handler behind the interceptor is an argument (\<open>next\<close>): it sees the authenticated user and may
  change the database. A database query fails when \<open>fails\<close> says so, and \<open>dbtext\<close> is the text of that
  error. Times are nanoseconds.
\<close>

section \<open>The matrix\<close>

datatype procedureRole = RoleUnauthenticated | RoleViewer | RoleAdmin

text \<open>The roles in the order of the constants, each with more rights than the one before.\<close>

instantiation procedureRole :: linorder
begin

fun role_rank :: "procedureRole \<Rightarrow> nat" where
  "role_rank RoleUnauthenticated = 0"
| "role_rank RoleViewer = 1"
| "role_rank RoleAdmin = 2"

definition less_eq_procedureRole :: "procedureRole \<Rightarrow> procedureRole \<Rightarrow> bool" where
  "less_eq_procedureRole a b \<longleftrightarrow> role_rank a \<le> role_rank b"

definition less_procedureRole :: "procedureRole \<Rightarrow> procedureRole \<Rightarrow> bool" where
  "less_procedureRole a b \<longleftrightarrow> role_rank a < role_rank b"

instance
proof
  fix a b c :: procedureRole
  show "a < b \<longleftrightarrow> a \<le> b \<and> \<not> b \<le> a" "a \<le> a" "a \<le> b \<Longrightarrow> b \<le> c \<Longrightarrow> a \<le> c" "a \<le> b \<or> b \<le> a"
    by (auto simp: less_eq_procedureRole_def less_procedureRole_def)
  show "a \<le> b \<Longrightarrow> b \<le> a \<Longrightarrow> a = b"
    by (cases a; cases b) (auto simp: less_eq_procedureRole_def)
qed

end

definition procedureRoles :: "(string \<times> procedureRole) list" where
  "procedureRoles =
     [(service_path ''AuthService'' ''GetServerStatus'', RoleUnauthenticated),
      (service_path ''AuthService'' ''SetupAdmin'', RoleUnauthenticated),
      (service_path ''AuthService'' ''Login'', RoleUnauthenticated),
      (service_path ''AuthService'' ''BeginPasskeyLogin'', RoleUnauthenticated),
      (service_path ''AuthService'' ''FinishPasskeyLogin'', RoleUnauthenticated),
      (service_path ''AuthService'' ''Logout'', RoleViewer),
      (service_path ''AuthService'' ''GetMe'', RoleViewer),
      (service_path ''AuthService'' ''ListAuthEvents'', RoleViewer),
      (service_path ''AuthService'' ''ListSessions'', RoleViewer),
      (service_path ''AuthService'' ''RevokeSession'', RoleViewer),
      (service_path ''AuthService'' ''RevokeAllOtherSessions'', RoleViewer),
      (service_path ''AuthService'' ''BeginPasskeyRegistration'', RoleViewer),
      (service_path ''AuthService'' ''FinishPasskeyRegistration'', RoleViewer),
      (service_path ''AuthService'' ''ListPasskeys'', RoleViewer),
      (service_path ''AuthService'' ''RenamePasskey'', RoleViewer),
      (service_path ''AuthService'' ''DeletePasskey'', RoleViewer),
      (service_path ''ContainerService'' ''ListContainers'', RoleViewer),
      (service_path ''ContainerService'' ''GetContainerLogs'', RoleViewer),
      (service_path ''ContainerService'' ''StreamContainers'', RoleViewer),
      (service_path ''SettingsService'' ''GetSettings'', RoleViewer),
      (service_path ''SettingsService'' ''GetRegistryStatus'', RoleViewer),
      (service_path ''LogService'' ''GetSystemLogs'', RoleViewer),
      (service_path ''LogService'' ''SyncLogs'', RoleViewer),
      (service_path ''AdminService'' ''ListImages'', RoleViewer),
      (service_path ''AdminService'' ''ListVolumes'', RoleViewer),
      (service_path ''AdminService'' ''GetVolumeUsage'', RoleViewer),
      (service_path ''AdminService'' ''ListNetworks'', RoleViewer),
      (service_path ''AdminService'' ''GetBuildCacheStats'', RoleViewer),
      (service_path ''AdminService'' ''ListBuildCacheRecords'', RoleViewer),
      (service_path ''AdminService'' ''CheckEngine'', RoleViewer),
      (service_path ''AdminService'' ''GetTailscaleStatus'', RoleViewer),
      (service_path ''AdminService'' ''DeleteImage'', RoleAdmin),
      (service_path ''ContainerService'' ''StartContainer'', RoleAdmin),
      (service_path ''AdminService'' ''PruneImages'', RoleAdmin),
      (service_path ''AdminService'' ''PruneBuildCache'', RoleAdmin),
      (service_path ''AdminService'' ''PruneBuildCacheRecord'', RoleAdmin),
      (service_path ''AdminService'' ''PruneVolumes'', RoleAdmin),
      (service_path ''AdminService'' ''DeleteNetwork'', RoleAdmin),
      (service_path ''AdminService'' ''PruneNetworks'', RoleAdmin),
      (service_path ''ContainerService'' ''StopContainer'', RoleAdmin),
      (service_path ''ContainerService'' ''UpgradeContainer'', RoleAdmin),
      (service_path ''ContainerService'' ''SetContainerAutoUpdate'', RoleAdmin),
      (service_path ''ContainerService'' ''CheckContainerUpdates'', RoleAdmin),
      (service_path ''SettingsService'' ''UpdateSettings'', RoleAdmin),
      (service_path ''SettingsService'' ''TestGotifyNotification'', RoleAdmin),
      (service_path ''AdminService'' ''ListAuditLogs'', RoleAdmin)]"

definition getProcedureRole :: "string \<Rightarrow> procedureRole option" where
  "getProcedureRole p = map_of procedureRoles p"

record auditSpec =
  as_action :: string
  as_resourceType :: string

definition auditSpecs :: "(string \<times> auditSpec) list" where
  "auditSpecs =
     [(service_path ''AdminService'' ''DeleteImage'', \<lparr>as_action = ''image.delete'', as_resourceType = ''image''\<rparr>),
      (service_path ''AdminService'' ''PruneImages'', \<lparr>as_action = ''image.prune'', as_resourceType = ''image''\<rparr>),
      (service_path ''AdminService'' ''PruneBuildCache'', \<lparr>as_action = ''builder.prune'', as_resourceType = ''builder''\<rparr>),
      (service_path ''AdminService'' ''PruneBuildCacheRecord'', \<lparr>as_action = ''builder.record_prune'', as_resourceType = ''builder''\<rparr>),
      (service_path ''AdminService'' ''PruneVolumes'', \<lparr>as_action = ''volume.prune'', as_resourceType = ''volume''\<rparr>),
      (service_path ''AdminService'' ''DeleteNetwork'', \<lparr>as_action = ''network.delete'', as_resourceType = ''network''\<rparr>),
      (service_path ''AdminService'' ''PruneNetworks'', \<lparr>as_action = ''network.prune'', as_resourceType = ''network''\<rparr>),
      (service_path ''ContainerService'' ''StartContainer'', \<lparr>as_action = ''container.start'', as_resourceType = ''container''\<rparr>),
      (service_path ''ContainerService'' ''StopContainer'', \<lparr>as_action = ''container.stop'', as_resourceType = ''container''\<rparr>),
      (service_path ''ContainerService'' ''SetContainerAutoUpdate'', \<lparr>as_action = ''container.auto_update_set'', as_resourceType = ''container''\<rparr>),
      (service_path ''ContainerService'' ''CheckContainerUpdates'', \<lparr>as_action = ''container.update_check'', as_resourceType = ''container''\<rparr>),
      (service_path ''SettingsService'' ''UpdateSettings'', \<lparr>as_action = ''settings.update'', as_resourceType = ''settings''\<rparr>),
      (service_path ''SettingsService'' ''TestGotifyNotification'', \<lparr>as_action = ''settings.gotify_test'', as_resourceType = ''settings''\<rparr>)]"

section \<open>Sessions\<close>

record db_session =
  ses_id :: string
  ses_userId :: int
  ses_userAgent :: string
  ses_expiresAt :: int
  ses_absoluteExpiresAt :: int
  ses_lastSeenAt :: int
  ses_createdAt :: int

record db_user =
  usr_id :: int
  usr_username :: string
  usr_passwordHash :: string
  usr_role :: string

record db_authEvent =
  dv_id :: int
  dv_userId :: "int option"
  dv_username :: string
  dv_event :: string
  dv_detail :: string
  dv_createdAt :: int

record server_db =
  sv_sessions :: "db_session list"
  sv_users :: "db_user list"
  sv_authEvents :: "db_authEvent list"
  sv_audit :: audit_db

record ctx =
  cx_user :: "db_user option"
  cx_sessionId :: "string option"

definition background :: ctx where
  "background = \<lparr>cx_user = None, cx_sessionId = None\<rparr>"

datatype connect_error = NewError (cn_code: nat) (cn_msg: string)

definition codeInvalidArgument :: nat where "codeInvalidArgument = 3"
definition codeNotFound :: nat where "codeNotFound = 5"
definition codeResourceExhausted :: nat where "codeResourceExhausted = 8"
definition codeFailedPrecondition :: nat where "codeFailedPrecondition = 9"
definition codePermissionDenied :: nat where "codePermissionDenied = 7"
definition codeInternal :: nat where "codeInternal = 13"
definition codeUnauthenticated :: nat where "codeUnauthenticated = 16"

definition adminRole :: string where "adminRole = ''admin''"

fun split_on :: "char \<Rightarrow> string \<Rightarrow> string list" where
  "split_on d [] = [[]]"
| "split_on d (c # cs) =
     (if c = d then [] # split_on d cs
      else (case split_on d cs of [] \<Rightarrow> [[c]] | p # ps \<Rightarrow> (c # p) # ps))"

definition cookie_prefix :: string where "cookie_prefix = ''session_id=''"

fun first_session :: "string list \<Rightarrow> string" where
  "first_session [] = []"
| "first_session (p # ps) =
     (if prefix cookie_prefix (trimSpace p) then drop (length cookie_prefix) (trimSpace p) else first_session ps)"

definition parseSessionCookie :: "string \<Rightarrow> string" where
  "parseSessionCookie cookieHeader = first_session (split_on (CHR '';'') cookieHeader)"

definition deleteSession :: "failing \<Rightarrow> string \<Rightarrow> server_db \<Rightarrow> server_db" where
  "deleteSession fails sid d =
     (if fails QDeleteSession then d else d\<lparr>sv_sessions := filter (\<lambda>s. ses_id s \<noteq> sid) (sv_sessions d)\<rparr>)"

definition touchSession :: "failing \<Rightarrow> string \<Rightarrow> int \<Rightarrow> int \<Rightarrow> server_db \<Rightarrow> server_db" where
  "touchSession fails sid expires now d =
     (if fails QTouchSession then d
      else d\<lparr>sv_sessions := map (\<lambda>s. if ses_id s = sid then s\<lparr>ses_expiresAt := expires, ses_lastSeenAt := now\<rparr> else s)
                              (sv_sessions d)\<rparr>)"

text \<open>The expiry slides once half of the idle timeout has passed, and never past the absolute one.\<close>

definition slideSession :: "failing \<Rightarrow> int \<Rightarrow> int \<Rightarrow> db_session \<Rightarrow> server_db \<Rightarrow> server_db" where
  "slideSession fails idleTimeout now s d =
     (if now > ses_expiresAt s - idleTimeout div 2
      then touchSession fails (ses_id s) (min (now + idleTimeout) (ses_absoluteExpiresAt s)) now d
      else d)"

definition authenticate ::
  "failing \<Rightarrow> (db_query \<Rightarrow> string) \<Rightarrow> int \<Rightarrow> int \<Rightarrow> string \<Rightarrow> server_db \<Rightarrow> (connect_error + ctx) \<times> server_db" where
  "authenticate fails dbtext idleTimeout now cookieHeader d =
     (let sessionID = parseSessionCookie cookieHeader in
      if sessionID = [] then (Inl (NewError codeUnauthenticated ''unauthenticated''), d)
      else if fails QGetSession
        then (Inl (NewError codeInternal (''failed to query session: '' @ dbtext QGetSession)), d)
      else case List.find (\<lambda>s. ses_id s = sessionID) (sv_sessions d) of
        None \<Rightarrow> (Inl (NewError codeUnauthenticated ''unauthenticated''), d)
      | Some session \<Rightarrow>
          if now > ses_absoluteExpiresAt session
          then (Inl (NewError codeUnauthenticated ''session expired''), deleteSession fails sessionID d)
          else if now > ses_expiresAt session
          then (Inl (NewError codeUnauthenticated ''session expired''), deleteSession fails sessionID d)
          else (let d1 = slideSession fails idleTimeout now session d in
                if fails QGetUser
                then (Inl (NewError codeInternal (''failed to query user: '' @ dbtext QGetUser)), d1)
                else case List.find (\<lambda>u. usr_id u = ses_userId session) (sv_users d1) of
                  None \<Rightarrow> (Inl (NewError codeUnauthenticated ''user not found''), d1)
                | Some user \<Rightarrow> (Inr \<lparr>cx_user = Some user, cx_sessionId = Some sessionID\<rparr>, d1)))"

section \<open>The audit trail of a call\<close>

text \<open>The responses from which an entry's detail is made, and the one the start-up check reads; the others are not looked at.\<close>

datatype rpc_resp =
    PruneImagesResp pruneImagesResponse
  | PruneBuildCacheResp pruneBuildCacheResponse
  | PruneBuildCacheRecordResp pruneBuildCacheRecordResponse
  | PruneVolumesResp pruneVolumesResponse
  | PruneNetworksResp pruneNetworksResponse
  | StartContainerResp startContainerResponse
  | StopContainerResp stopContainerResponse
  | CheckContainerUpdatesResp checkContainerUpdatesResponse
  | GetMeResp getMeResponse
  | OtherResp

definition truncateNames :: "string list \<Rightarrow> string" where
  "truncateNames names =
     (if length names \<le> 3 then join '', '' names
      else join '', '' (take 3 names) @ '', +'' @ string_of_nat (length names - 3) @ '' more'')"

definition previous_state :: "rpc_resp \<Rightarrow> string" where
  "previous_state resp =
     (case resp of
        StartContainerResp r \<Rightarrow> ''previous state: '' @ str_previousState r
      | StopContainerResp r \<Rightarrow> ''previous state: '' @ spr_previousState r
      | _ \<Rightarrow> [])"

fun auditSuccessDetail :: "rpc_call \<Rightarrow> rpc_resp \<Rightarrow> string \<times> string" where
  "auditSuccessDetail (AdminCall (DeleteImage q)) resp =
     (dir_id q, if dir_force q then ''image deleted (force)'' else ''image deleted'')"
| "auditSuccessDetail (AdminCall (PruneImages q)) resp =
     (case resp of
        PruneImagesResp m \<Rightarrow>
          ([], ''pruned '' @ string_of_nat (length (pim_imagesDeleted m)) @ '' image(s), reclaimed ''
               @ string_of_nat (pim_spaceReclaimed m) @ '' bytes'')
      | _ \<Rightarrow> ([], []))"
| "auditSuccessDetail (AdminCall (PruneBuildCache q)) resp =
     (case resp of
        PruneBuildCacheResp m \<Rightarrow>
          ([], ''pruned '' @ string_of_nat (pbc_cachesDeleted m) @ '' cache record(s), reclaimed ''
               @ string_of_nat (pbc_spaceReclaimed m) @ '' bytes'')
      | _ \<Rightarrow> ([], []))"
| "auditSuccessDetail (AdminCall (PruneBuildCacheRecord q)) resp =
     (prq_id q,
      case resp of
        PruneBuildCacheRecordResp r \<Rightarrow> ''pruned '' @ string_of_nat (pbr_cachesDeleted r) @ '' record(s)''
      | _ \<Rightarrow> [])"
| "auditSuccessDetail (AdminCall PruneVolumes) resp =
     (case resp of
        PruneVolumesResp m \<Rightarrow>
          ([], ''pruned '' @ string_of_nat (pv_volumesDeleted m) @ '' volume(s) ('' @ truncateNames (pv_names m)
               @ ''), reclaimed '' @ string_of_nat (pv_spaceReclaimed m) @ '' bytes'')
      | _ \<Rightarrow> ([], []))"
| "auditSuccessDetail (AdminCall (DeleteNetwork q)) resp = (dnr_id q, ''network deleted'')"
| "auditSuccessDetail (AdminCall PruneNetworks) resp =
     (case resp of
        PruneNetworksResp m \<Rightarrow>
          ([], ''pruned '' @ string_of_nat (pn_networksDeleted m) @ '' network(s) ('' @ truncateNames (pn_names m) @ '')'')
      | _ \<Rightarrow> ([], []))"
| "auditSuccessDetail (ContainerCall (StartContainer q)) resp = (stc_id q, previous_state resp)"
| "auditSuccessDetail (ContainerCall (StopContainer q)) resp = (spc_id q, previous_state resp)"
| "auditSuccessDetail (ContainerCall (SetContainerAutoUpdate q)) resp =
     (sau_id q, if sau_autoUpdate q then ''auto-update enabled'' else ''auto-update disabled'')"
| "auditSuccessDetail (ContainerCall (CheckContainerUpdates q)) resp =
     (ccu_id q,
      case resp of
        CheckContainerUpdatesResp r \<Rightarrow>
          if cu_updateAvailable r then ''update available: '' @ cu_latestImageDigest r else ''container up to date''
      | _ \<Rightarrow> [])"
| "auditSuccessDetail (SettingsCall (UpdateSettings q)) resp = ([], ''settings updated'')"
| "auditSuccessDetail (SettingsCall (TestGotifyNotification q)) resp = ([], ''notification test succeeded'')"
| "auditSuccessDetail _ resp = ([], [])"

definition entry_of :: "auditSpec \<Rightarrow> db_user \<Rightarrow> string \<Rightarrow> string \<Rightarrow> string \<Rightarrow> audit_entry" where
  "entry_of spec u rid outcome detail =
     \<lparr>ae_actor = usr_username u, ae_actorRole = usr_role u, ae_source = sourceUser, ae_action = as_action spec,
      ae_resourceType = as_resourceType spec, ae_resourceId = rid, ae_outcome = outcome, ae_detail = detail\<rparr>"

definition audit :: "failing \<Rightarrow> int \<Rightarrow> audit_entry \<Rightarrow> server_db \<Rightarrow> server_db" where
  "audit fails now e d = d\<lparr>sv_audit := record_entry fails now e (sv_audit d)\<rparr>"

text \<open>\<open>auditor\<close> says that recording is enabled (the auditor is not nil).\<close>

definition recordDenied :: "bool \<Rightarrow> failing \<Rightarrow> int \<Rightarrow> rpc_call \<Rightarrow> db_user \<Rightarrow> server_db \<Rightarrow> server_db" where
  "recordDenied auditor fails now call u d =
     (case map_of auditSpecs (procedure call) of
        None \<Rightarrow> d
      | Some spec \<Rightarrow>
          if \<not> auditor then d else audit fails now (entry_of spec u [] outcomeDenied ''admin role required'') d)"

definition outcome_entry :: "auditSpec \<Rightarrow> rpc_call \<Rightarrow> connect_error + rpc_resp \<Rightarrow> db_user \<Rightarrow> audit_entry" where
  "outcome_entry spec call res u =
     (case res of
        Inl e \<Rightarrow> entry_of spec u [] outcomeFailure (cn_msg e)
      | Inr resp \<Rightarrow> entry_of spec u (fst (auditSuccessDetail call resp)) outcomeSuccess (snd (auditSuccessDetail call resp)))"

definition recordOutcome ::
  "bool \<Rightarrow> failing \<Rightarrow> int \<Rightarrow> rpc_call \<Rightarrow> connect_error + rpc_resp \<Rightarrow> db_user \<Rightarrow> server_db \<Rightarrow> server_db" where
  "recordOutcome auditor fails now call res u d =
     (case map_of auditSpecs (procedure call) of
        None \<Rightarrow> d
      | Some spec \<Rightarrow> if \<not> auditor then d else audit fails now (outcome_entry spec call res u) d)"

section \<open>The interceptor\<close>

text \<open>
  What both interceptors do before the handler: the error that blocks the call, or the context it
  runs in. Only a unary call's denial is recorded.
\<close>

definition authorize ::
  "bool \<Rightarrow> failing \<Rightarrow> (db_query \<Rightarrow> string) \<Rightarrow> int \<Rightarrow> int \<Rightarrow> string \<Rightarrow> rpc_call \<Rightarrow> server_db \<Rightarrow> (connect_error + ctx) \<times> server_db" where
  "authorize auditor fails dbtext idleTimeout now cookieHeader call d =
     (case getProcedureRole (procedure call) of
        None \<Rightarrow> (Inl (NewError codeInternal ''procedure is not registered in access control matrix''), d)
      | Some requiredRole \<Rightarrow>
          if requiredRole = RoleUnauthenticated
          then (if parseSessionCookie cookieHeader \<noteq> []
                then (case authenticate fails dbtext idleTimeout now cookieHeader d of
                        (Inr actx, d1) \<Rightarrow> (Inr actx, d1)
                      | (Inl e, d1) \<Rightarrow> (Inr background, d1))
                else (Inr background, d))
          else (case authenticate fails dbtext idleTimeout now cookieHeader d of
                  (Inl e, d1) \<Rightarrow> (Inl e, d1)
                | (Inr authCtx, d1) \<Rightarrow>
                    (case cx_user authCtx of
                       Some u \<Rightarrow>
                         if requiredRole = RoleAdmin \<and> usr_role u \<noteq> adminRole
                         then (Inl (NewError codePermissionDenied ''admin role required''),
                               if method_kind call = Unary then recordDenied auditor fails now call u d1 else d1)
                         else (Inr authCtx, d1)
                     | None \<Rightarrow> (Inr authCtx, d1))))"

type_synonym handler = "ctx \<Rightarrow> rpc_call \<Rightarrow> server_db \<Rightarrow> (connect_error + rpc_resp) \<times> server_db"

definition wrapUnary ::
  "bool \<Rightarrow> failing \<Rightarrow> (db_query \<Rightarrow> string) \<Rightarrow> int \<Rightarrow> int \<Rightarrow> string \<Rightarrow> handler \<Rightarrow> rpc_call \<Rightarrow> server_db \<Rightarrow>
     (connect_error + rpc_resp) \<times> server_db" where
  "wrapUnary auditor fails dbtext idleTimeout now cookieHeader next call d =
     (case authorize auditor fails dbtext idleTimeout now cookieHeader call d of
        (Inl e, d1) \<Rightarrow> (Inl e, d1)
      | (Inr authCtx, d1) \<Rightarrow>
          (case next authCtx call d1 of
             (res, d2) \<Rightarrow>
               (case cx_user authCtx of
                  Some u \<Rightarrow> (res, recordOutcome auditor fails now call res u d2)
                | None \<Rightarrow> (res, d2))))"

definition wrapStreamingHandler ::
  "bool \<Rightarrow> failing \<Rightarrow> (db_query \<Rightarrow> string) \<Rightarrow> int \<Rightarrow> int \<Rightarrow> string \<Rightarrow> handler \<Rightarrow> rpc_call \<Rightarrow> server_db \<Rightarrow>
     (connect_error + rpc_resp) \<times> server_db" where
  "wrapStreamingHandler auditor fails dbtext idleTimeout now cookieHeader next call d =
     (case authorize auditor fails dbtext idleTimeout now cookieHeader call d of
        (Inl e, d1) \<Rightarrow> (Inl e, d1)
      | (Inr authCtx, d1) \<Rightarrow> next authCtx call d1)"

section \<open>The matrix is complete\<close>

text \<open>The minimum role of each method as \<open>docs/security.md\<close> and the comments of the services give it.\<close>

fun admin_role :: "adminService \<Rightarrow> procedureRole" where
  "admin_role (DeleteImage q) = RoleAdmin"
| "admin_role (PruneImages q) = RoleAdmin"
| "admin_role PruneVolumes = RoleAdmin"
| "admin_role (DeleteNetwork q) = RoleAdmin"
| "admin_role PruneNetworks = RoleAdmin"
| "admin_role (PruneBuildCache q) = RoleAdmin"
| "admin_role (PruneBuildCacheRecord q) = RoleAdmin"
| "admin_role (ListAuditLogs q) = RoleAdmin"
| "admin_role _ = RoleViewer"

fun auth_role :: "authService \<Rightarrow> procedureRole" where
  "auth_role GetServerStatus = RoleUnauthenticated"
| "auth_role (SetupAdmin q) = RoleUnauthenticated"
| "auth_role (Login q) = RoleUnauthenticated"
| "auth_role BeginPasskeyLogin = RoleUnauthenticated"
| "auth_role (FinishPasskeyLogin q) = RoleUnauthenticated"
| "auth_role _ = RoleViewer"

fun container_role :: "containerService \<Rightarrow> procedureRole" where
  "container_role ListContainers = RoleViewer"
| "container_role (GetContainerLogs q) = RoleViewer"
| "container_role StreamContainers = RoleViewer"
| "container_role _ = RoleAdmin"

fun settings_role :: "settingsService \<Rightarrow> procedureRole" where
  "settings_role (UpdateSettings q) = RoleAdmin"
| "settings_role (TestGotifyNotification q) = RoleAdmin"
| "settings_role _ = RoleViewer"

fun required_role :: "rpc_call \<Rightarrow> procedureRole" where
  "required_role (AdminCall c) = admin_role c"
| "required_role (AuthCall c) = auth_role c"
| "required_role (ContainerCall c) = container_role c"
| "required_role (LogCall c) = RoleViewer"
| "required_role (SettingsCall c) = settings_role c"

lemma role_admin: "getProcedureRole (procedure (AdminCall c)) = Some (admin_role c)"
  by (cases c; simp only: procedure.simps; code_simp)

lemma role_auth: "getProcedureRole (procedure (AuthCall c)) = Some (auth_role c)"
  by (cases c; simp only: procedure.simps; code_simp)

lemma role_container: "getProcedureRole (procedure (ContainerCall c)) = Some (container_role c)"
  by (cases c; simp only: procedure.simps; code_simp)

lemma role_log: "getProcedureRole (procedure (LogCall c)) = Some RoleViewer"
  by (cases c; simp only: procedure.simps; code_simp)

lemma role_settings: "getProcedureRole (procedure (SettingsCall c)) = Some (settings_role c)"
  by (cases c; simp only: procedure.simps; code_simp)

lemma role_of [simp]: "getProcedureRole (procedure c) = Some (required_role c)"
  by (cases c) (simp_all only: role_admin role_auth role_container role_log role_settings required_role.simps)

section \<open>Who a cookie belongs to\<close>

text \<open>The user of a session that exists and has not expired on either clock.\<close>

definition session_user :: "failing \<Rightarrow> int \<Rightarrow> string \<Rightarrow> server_db \<Rightarrow> db_user option" where
  "session_user fails now cookieHeader d =
     (let sid = parseSessionCookie cookieHeader in
      if sid = [] \<or> fails QGetSession \<or> fails QGetUser then None
      else case List.find (\<lambda>s. ses_id s = sid) (sv_sessions d) of
        None \<Rightarrow> None
      | Some s \<Rightarrow>
          if now \<le> ses_expiresAt s \<and> now \<le> ses_absoluteExpiresAt s
          then List.find (\<lambda>u. usr_id u = ses_userId s) (sv_users d) else None)"

lemma session_db_simps [simp]:
  "sv_users (deleteSession fails sid d) = sv_users d" "sv_audit (deleteSession fails sid d) = sv_audit d"
  "sv_users (slideSession fails idle now s d) = sv_users d" "sv_audit (slideSession fails idle now s d) = sv_audit d"
  by (simp_all add: deleteSession_def slideSession_def touchSession_def)

lemma authenticate_db [simp]:
  "sv_users (snd (authenticate fails dbtext idle now cookie d)) = sv_users d"
  "sv_audit (snd (authenticate fails dbtext idle now cookie d)) = sv_audit d"
  by (simp_all add: authenticate_def Let_def split: option.splits)

text \<open>No session is stored under the cookie's id, or it has expired on one of the two clocks.\<close>

definition no_session :: "int \<Rightarrow> string \<Rightarrow> server_db \<Rightarrow> bool" where
  "no_session now cookieHeader d \<longleftrightarrow>
     (case List.find (\<lambda>s. ses_id s = parseSessionCookie cookieHeader) (sv_sessions d) of
        None \<Rightarrow> True
      | Some s \<Rightarrow> now > ses_expiresAt s \<or> now > ses_absoluteExpiresAt s)"

text \<open>
  Authentication finds exactly that user. A caller is only called unauthenticated when there is no
  such user; a failing query is reported as an internal error.
\<close>

lemma authenticate_user:
  "case session_user fails now cookie d of
     Some u \<Rightarrow> fst (authenticate fails dbtext idle now cookie d)
                 = Inr \<lparr>cx_user = Some u, cx_sessionId = Some (parseSessionCookie cookie)\<rparr>
   | None \<Rightarrow> (\<exists>e. fst (authenticate fails dbtext idle now cookie d) = Inl e
                \<and> cn_code e = (if parseSessionCookie cookie \<noteq> []
                                 \<and> (fails QGetSession \<or> \<not> no_session now cookie d \<and> fails QGetUser)
                               then codeInternal else codeUnauthenticated))"
  by (auto simp: session_user_def authenticate_def no_session_def Let_def split: option.splits if_splits)

lemma authenticate_SomeE:
  assumes "session_user fails now cookie d = Some u"
  obtains d1 where "authenticate fails dbtext idle now cookie d
      = (Inr \<lparr>cx_user = Some u, cx_sessionId = Some (parseSessionCookie cookie)\<rparr>, d1)"
    and "sv_users d1 = sv_users d" "sv_audit d1 = sv_audit d"
  using authenticate_user [where fails = fails and now = now and cookie = cookie and d = d and dbtext = dbtext and idle = idle] authenticate_db [of fails dbtext idle now cookie d] assms
  by (cases "authenticate fails dbtext idle now cookie d") simp

lemma authenticate_NoneE:
  assumes "session_user fails now cookie d = None"
  obtains e d1 where "authenticate fails dbtext idle now cookie d = (Inl e, d1)"
    and "cn_code e = codeInternal \<or> cn_code e = codeUnauthenticated"
    and "sv_users d1 = sv_users d" "sv_audit d1 = sv_audit d"
  using authenticate_user [where fails = fails and now = now and cookie = cookie and d = d and dbtext = dbtext and idle = idle] authenticate_db [of fails dbtext idle now cookie d] assms
  by (cases "authenticate fails dbtext idle now cookie d") (auto split: if_splits)

section \<open>Audit entries of a call\<close>

text \<open>The entries that are still in the retention window.\<close>

definition kept :: "failing \<Rightarrow> int \<Rightarrow> server_db \<Rightarrow> (int \<times> audit_entry) list" where
  "kept fails now d =
     filter (\<lambda>(t, _). fails QTrimAuditLogs \<or> t \<ge> cutoff now (retentionDays fails (sv_audit d))) (audit_logs (sv_audit d))"

definition trail :: "server_db \<Rightarrow> (int \<times> audit_entry) list" where
  "trail d = audit_logs (sv_audit d)"

lemma audit_simps [simp]:
  "trail (audit fails now e d) = (if fails QCreateAuditLog then trail d else kept fails now d @ [stored_entry now e])"
  "sv_users (audit fails now e d) = sv_users d" "sv_sessions (audit fails now e d) = sv_sessions d"
  by (simp_all add: audit_def trail_def kept_def record_entry_logs)

lemma kept_audit: "sv_audit d1 = sv_audit d \<Longrightarrow> kept fails now d1 = kept fails now d"
  by (simp add: kept_def)

lemma logs_audit: "sv_audit d1 = sv_audit d \<Longrightarrow> trail d1 = trail d"
  by (simp add: trail_def)

section \<open>What is recorded\<close>

text \<open>
  The audited procedures are the administrator's, without the upgrade of a container (which its
  handler records) and without reading the audit trail.
\<close>

lemma audited_admin: "map_of auditSpecs (procedure (AdminCall c)) \<noteq> None
    \<longleftrightarrow> admin_role c = RoleAdmin \<and> (case c of ListAuditLogs q \<Rightarrow> False | _ \<Rightarrow> True)"
  by (cases c) (simp_all add: procedure.simps auditSpecs_def service_path_def)

lemma audited_container: "map_of auditSpecs (procedure (ContainerCall c)) \<noteq> None
    \<longleftrightarrow> container_role c = RoleAdmin \<and> (case c of UpgradeContainer q \<Rightarrow> False | _ \<Rightarrow> True)"
  by (cases c) (simp_all add: procedure.simps auditSpecs_def service_path_def)

lemma audited_settings: "map_of auditSpecs (procedure (SettingsCall c)) \<noteq> None \<longleftrightarrow> settings_role c = RoleAdmin"
  by (cases c) (simp_all add: procedure.simps auditSpecs_def service_path_def)

lemma audited_auth: "map_of auditSpecs (procedure (AuthCall c)) = None"
  by (cases c) (simp_all add: procedure.simps auditSpecs_def service_path_def)

lemma audited_log: "map_of auditSpecs (procedure (LogCall c)) = None"
  by (cases c) (simp_all add: procedure.simps auditSpecs_def service_path_def)

fun audited :: "rpc_call \<Rightarrow> bool" where
  "audited (AdminCall (ListAuditLogs q)) = False"
| "audited (ContainerCall (UpgradeContainer q)) = False"
| "audited c \<longleftrightarrow> required_role c = RoleAdmin"

lemma audited_iff: "map_of auditSpecs (procedure c) \<noteq> None \<longleftrightarrow> audited c"
proof (cases c)
  case (AdminCall a)
  then show ?thesis using audited_admin [of a] by (cases a) simp_all
next
  case (ContainerCall a)
  then show ?thesis using audited_container [of a] by (cases a) simp_all
next
  case (AuthCall a)
  then show ?thesis by (cases a) (simp_all add: audited_auth)
qed (use audited_settings in \<open>simp_all add: audited_log\<close>)

lemma audited_is_admin: "audited c \<Longrightarrow> required_role c = RoleAdmin"
  by (induction c rule: audited.induct) auto

text \<open>The entry of a call by \<open>u\<close> that ended with \<open>res\<close>, or was denied.\<close>

definition entry_for :: "rpc_call \<Rightarrow> db_user \<Rightarrow> connect_error + rpc_resp \<Rightarrow> audit_entry" where
  "entry_for c u res =
     (let spec = the (map_of auditSpecs (procedure c))
      in if usr_role u \<noteq> adminRole then entry_of spec u [] outcomeDenied ''admin role required''
         else outcome_entry spec c res u)"

lemma recordDenied_users [simp]: "sv_users (recordDenied auditor fails now c u d) = sv_users d"
  by (simp add: recordDenied_def split: option.splits)

lemma recordDenied_logs [simp]:
  "trail (recordDenied auditor fails now c u d) =
     (if audited c \<and> auditor \<and> \<not> fails QCreateAuditLog
      then kept fails now d @ [stored_entry now (entry_of (the (map_of auditSpecs (procedure c))) u [] outcomeDenied ''admin role required'')]
      else trail d)"
  using audited_iff [of c] by (auto simp: recordDenied_def split: option.splits)

lemma recordOutcome_logs [simp]:
  "trail (recordOutcome auditor fails now c res u d) =
     (if audited c \<and> auditor \<and> \<not> fails QCreateAuditLog
      then kept fails now d @ [stored_entry now (outcome_entry (the (map_of auditSpecs (procedure c))) c res u)]
      else trail d)"
  using audited_iff [of c] by (auto simp: recordOutcome_def split: option.splits)

lemma audited_unary: "audited c \<Longrightarrow> method_kind c = Unary"
  by (induction c rule: audited.induct) auto


section \<open>Properties\<close>

text \<open>The outcome of the checks before the handler, by who the caller is.\<close>

lemma authorize_anonymous:
  assumes "session_user fails now cookie d = None"
  obtains d1 where "sv_users d1 = sv_users d" "sv_audit d1 = sv_audit d"
    and "if required_role c = RoleUnauthenticated
         then authorize auditor fails dbtext idle now cookie c d = (Inr background, d1)
         else \<exists>e. authorize auditor fails dbtext idle now cookie c d = (Inl e, d1)
                \<and> (cn_code e = codeUnauthenticated \<or> cn_code e = codeInternal)"
proof -
  obtain e d1 where a: "authenticate fails dbtext idle now cookie d = (Inl e, d1)"
      "cn_code e = codeInternal \<or> cn_code e = codeUnauthenticated" "sv_users d1 = sv_users d" "sv_audit d1 = sv_audit d"
    using authenticate_NoneE [OF assms] by blast
  show thesis
  proof (cases "required_role c = RoleUnauthenticated \<and> parseSessionCookie cookie = []")
    case True
    then show ?thesis by (intro that [of d]) (simp_all add: authorize_def)
  next
    case False
    with a show ?thesis by (intro that [of d1]) (auto simp: authorize_def)
  qed
qed

definition user_ctx :: "db_user \<Rightarrow> string \<Rightarrow> ctx" where
  "user_ctx u cookieHeader = \<lparr>cx_user = Some u, cx_sessionId = Some (parseSessionCookie cookieHeader)\<rparr>"

definition role_denied :: "rpc_call \<Rightarrow> db_user \<Rightarrow> bool" where
  "role_denied c u \<longleftrightarrow> required_role c = RoleAdmin \<and> usr_role u \<noteq> adminRole"

lemma authorize_user:
  assumes "session_user fails now cookie d = Some u"
  obtains d1 where "sv_users d1 = sv_users d" "sv_audit d1 = sv_audit d"
    and "authorize auditor fails dbtext idle now cookie c d =
      (if role_denied c u
       then (Inl (NewError codePermissionDenied ''admin role required''),
             if method_kind c = Unary then recordDenied auditor fails now c u d1 else d1)
       else (Inr (user_ctx u cookie), d1))"
proof -
  obtain d1 where "authenticate fails dbtext idle now cookie d = (Inr (user_ctx u cookie), d1)"
      "sv_users d1 = sv_users d" "sv_audit d1 = sv_audit d"
    using authenticate_SomeE [OF assms] unfolding user_ctx_def by blast
  moreover have "parseSessionCookie cookie \<noteq> []"
    using assms by (auto simp: session_user_def Let_def split: if_splits)
  ultimately show thesis by (intro that [of d1]) (auto simp: authorize_def user_ctx_def role_denied_def)
qed



text \<open>A database for concrete runs: one administrator and one viewer, with a session each.\<close>

definition sample_db :: server_db where
  "sample_db =
     \<lparr>sv_sessions = [\<lparr>ses_id = ''a'', ses_userId = 1, ses_userAgent = [], ses_expiresAt = 100, ses_absoluteExpiresAt = 200, ses_lastSeenAt = 0, ses_createdAt = 0\<rparr>,
                     \<lparr>ses_id = ''v'', ses_userId = 2, ses_userAgent = [], ses_expiresAt = 100, ses_absoluteExpiresAt = 200, ses_lastSeenAt = 0, ses_createdAt = 0\<rparr>],
      sv_users = [\<lparr>usr_id = 1, usr_username = ''root'', usr_passwordHash = ''h1'', usr_role = ''admin''\<rparr>,
                  \<lparr>usr_id = 2, usr_username = ''bob'', usr_passwordHash = ''h2'', usr_role = ''viewer''\<rparr>],
      sv_authEvents = [],
      sv_audit = \<lparr>settings_rows = [], audit_logs = []\<rparr>\<rparr>"


text \<open>
  A denied upgrade leaves no entry: the interceptor skips the procedure, and the handler that
  would write the entry is never reached.
\<close>

lemma denied_upgrade_unrecorded:
  assumes "session_user fails now cookie d = Some u" "usr_role u \<noteq> adminRole"
  shows "fst (wrapUnary True fails dbtext idle now cookie nxt (ContainerCall (UpgradeContainer q)) d)
      = Inl (NewError codePermissionDenied ''admin role required'')
    \<and> trail (snd (wrapUnary True fails dbtext idle now cookie nxt (ContainerCall (UpgradeContainer q)) d)) = trail d"
proof -
  let ?c = "ContainerCall (UpgradeContainer q)"
  obtain d1 where "sv_audit d1 = sv_audit d" "authorize True fails dbtext idle now cookie ?c d =
      (if role_denied ?c u
       then (Inl (NewError codePermissionDenied ''admin role required''),
             if method_kind ?c = Unary then recordDenied True fails now ?c u d1 else d1)
       else (Inr (user_ctx u cookie), d1))"
    using authorize_user [OF assms(1)] by metis
  then show ?thesis using assms(2) logs_audit [of d1 d] by (simp add: wrapUnary_def role_denied_def)
qed

end
