(* ===== verification/Rate_Limit.thy ===== *)
theory Rate_Limit
  imports Server_Audit
begin

text \<open>
  The limiter of failed sign-ins (\<open>internal/auth/ratelimit.go\<close>): per user name and per address, the
  times of the failures in a sliding window and the time until which the key is locked. Times and
  durations are nanoseconds.

  A duration is a 64-bit integer, and the lockout is computed in floating point and converted back.
  The product is exact (a power of two times the base), but Go leaves the conversion of a value
  outside the range of the integer to the implementation: \<open>ovf\<close> is the value it gives.
\<close>

section \<open>State\<close>

definition second :: int where "second = 10 ^ 9"
definition minute :: int where "minute = 60 * second"
definition rateLimitWindow :: int where "rateLimitWindow = 15 * minute"
definition rateLimitThreshold :: nat where "rateLimitThreshold = 5"
definition rateLimitMaxLockout :: int where "rateLimitMaxLockout = 15 * minute"
definition rateLimitBaseLockout :: int where "rateLimitBaseLockout = 1 * minute"

text \<open>A time that was never set (Go's zero time) lies before every reading of the clock: \<open>None\<close>.\<close>

record attemptRecord =
  failures :: "int list"
  lockedUntil :: "int option"

record rateLimiter =
  userRecords :: "(string, attemptRecord) map"
  ipRecords :: "(string, attemptRecord) map"

definition newRateLimiter :: rateLimiter where
  "newRateLimiter = \<lparr>userRecords = Map.empty, ipRecords = Map.empty\<rparr>"

section \<open>Operations\<close>

definition now_after :: "int \<Rightarrow> int option \<Rightarrow> bool" where
  "now_after now l = (case l of None \<Rightarrow> True | Some t \<Rightarrow> now > t)"

definition int64 :: "int \<Rightarrow> int \<Rightarrow> int" where
  "int64 ovf x = (if - (2 ^ 63) \<le> x \<and> x < 2 ^ 63 then x else ovf)"

definition lockoutDuration :: "int \<Rightarrow> nat \<Rightarrow> int" where
  "lockoutDuration ovf count =
     (let d = int64 ovf (rateLimitBaseLockout * 2 ^ (count - rateLimitThreshold))
      in if d > rateLimitMaxLockout then rateLimitMaxLockout else d)"

definition evict :: "int \<Rightarrow> (string, attemptRecord) map \<Rightarrow> (string, attemptRecord) map" where
  "evict now recs =
     (\<lambda>k. case recs k of
            None \<Rightarrow> None
          | Some rec \<Rightarrow>
              if now_after now (lockedUntil rec) \<and> \<not> list_ex (\<lambda>t. t > now - rateLimitWindow) (failures rec)
              then None else Some rec)"

definition evictExpired :: "int \<Rightarrow> rateLimiter \<Rightarrow> rateLimiter" where
  "evictExpired now rl = \<lparr>userRecords = evict now (userRecords rl), ipRecords = evict now (ipRecords rl)\<rparr>"

definition remaining :: "int option \<Rightarrow> int \<Rightarrow> int" where
  "remaining l now = (case l of None \<Rightarrow> 0 | Some t \<Rightarrow> if now < t then t - now else 0)"

definition checkKey :: "(string, attemptRecord) map \<Rightarrow> string \<Rightarrow> int \<Rightarrow> int" where
  "checkKey recs key now =
     (if key = [] then 0
      else case recs key of None \<Rightarrow> 0 | Some rec \<Rightarrow> remaining (lockedUntil rec) now)"

definition check :: "string \<Rightarrow> string \<Rightarrow> int \<Rightarrow> rateLimiter \<Rightarrow> (bool \<times> int) \<times> rateLimiter" where
  "check username ip now rl =
     (let rl = evictExpired now rl;
          userWait = checkKey (userRecords rl) username now;
          ipWait = checkKey (ipRecords rl) ip now;
          maxWait = (if ipWait > userWait then ipWait else userWait)
      in (if maxWait > 0 then (True, maxWait) else (False, 0), rl))"

definition recordFailureKey ::
  "int \<Rightarrow> (string, attemptRecord) map \<Rightarrow> string \<Rightarrow> int \<Rightarrow> int \<times> (string, attemptRecord) map" where
  "recordFailureKey ovf recs key now =
     (if key = [] then (0, recs)
      else (let rec = (case recs key of None \<Rightarrow> \<lparr>failures = [], lockedUntil = None\<rparr> | Some rec \<Rightarrow> rec);
                validFailures = filter (\<lambda>t. t > now - rateLimitWindow) (failures rec);
                rec = rec\<lparr>failures := validFailures @ [now]\<rparr>;
                count = length (failures rec)
            in if count \<ge> rateLimitThreshold
               then (lockoutDuration ovf count,
                     recs(key \<mapsto> rec\<lparr>lockedUntil := Some (now + lockoutDuration ovf count)\<rparr>))
               else (0, recs(key \<mapsto> rec))))"

definition recordFailure :: "int \<Rightarrow> string \<Rightarrow> string \<Rightarrow> int \<Rightarrow> rateLimiter \<Rightarrow> int \<times> rateLimiter" where
  "recordFailure ovf username ip now rl =
     (let rl = evictExpired now rl;
          (userWait, us) = recordFailureKey ovf (userRecords rl) username now;
          (ipWait, ips) = recordFailureKey ovf (ipRecords rl) ip now
      in (if ipWait > userWait then ipWait else userWait, \<lparr>userRecords = us, ipRecords = ips\<rparr>))"

definition recordSuccess :: "string \<Rightarrow> rateLimiter \<Rightarrow> rateLimiter" where
  "recordSuccess username rl = rl\<lparr>userRecords := (userRecords rl)(username := None)\<rparr>"

text \<open>
  The address a request counts for: the first entry of a proxy's header when the server trusts
  one, else the host of the connection. \<open>splitHostPort\<close> is the library's, \<open>None\<close> its error.
\<close>

definition extractClientIP :: "(string \<Rightarrow> string option) \<Rightarrow> string option \<Rightarrow> string \<Rightarrow> bool \<Rightarrow> string" where
  "extractClientIP splitHostPort forwardedFor remoteAddr trustedProxy =
     (let direct = (if remoteAddr = [] then []
                    else case splitHostPort remoteAddr of Some host \<Rightarrow> host | None \<Rightarrow> remoteAddr)
      in case forwardedFor of
           Some xff \<Rightarrow>
             if trustedProxy \<and> xff \<noteq> [] \<and> trimSpace (takeWhile (\<lambda>c. c \<noteq> CHR '','') xff) \<noteq> []
             then trimSpace (takeWhile (\<lambda>c. c \<noteq> CHR '','') xff) else direct
         | None \<Rightarrow> direct)"

text \<open>A sequence of uses, each with the reading of the clock it is given.\<close>

datatype limiter_use = Checked string string int | Failed string string int | Succeeded string

fun limiter_step :: "int \<Rightarrow> limiter_use \<Rightarrow> rateLimiter \<Rightarrow> rateLimiter" where
  "limiter_step ovf (Checked u ip t) rl = snd (check u ip t rl)"
| "limiter_step ovf (Failed u ip t) rl = snd (recordFailure ovf u ip t rl)"
| "limiter_step ovf (Succeeded u) rl = recordSuccess u rl"

section \<open>Specification\<close>

text \<open>
  The failures that count for a key, newest first: for a user name those since the last success,
  for an address all of them.
\<close>

fun user_failures :: "string \<Rightarrow> limiter_use list \<Rightarrow> int list" where
  "user_failures u [] = []"
| "user_failures u (Failed v ip t # es) = (if v = u then t # user_failures u es else user_failures u es)"
| "user_failures u (Succeeded v # es) = (if v = u then [] else user_failures u es)"
| "user_failures u (e # es) = user_failures u es"

fun ip_failures :: "string \<Rightarrow> limiter_use list \<Rightarrow> int list" where
  "ip_failures a [] = []"
| "ip_failures a (Failed v ip t # es) = (if ip = a then t # ip_failures a es else ip_failures a es)"
| "ip_failures a (e # es) = ip_failures a es"

definition recent :: "int \<Rightarrow> int list \<Rightarrow> int list" where
  "recent now fs = filter (\<lambda>t. t > now - rateLimitWindow) fs"

text \<open>The latest failure that was at least the fifth of its window sets the lock.\<close>

fun lock_until :: "int \<Rightarrow> int list \<Rightarrow> int option" where
  "lock_until ovf [] = None"
| "lock_until ovf (t # fs) =
     (let n = Suc (length (recent t fs))
      in if n \<ge> rateLimitThreshold then Some (t + lockoutDuration ovf n) else lock_until ovf fs)"

fun use_time :: "limiter_use \<Rightarrow> int option" where
  "use_time (Checked u ip t) = Some t"
| "use_time (Failed u ip t) = Some t"
| "use_time (Succeeded u) = None"

text \<open>The clock does not go back; the latest use comes first.\<close>

definition clock_ok :: "int \<Rightarrow> limiter_use list \<Rightarrow> bool" where
  "clock_ok now es \<longleftrightarrow> sorted_wrt (\<ge>) (now # List.map_filter use_time es)"

definition limiter_after :: "int \<Rightarrow> limiter_use list \<Rightarrow> rateLimiter" where
  "limiter_after ovf es = foldr (limiter_step ovf) es newRateLimiter"

section \<open>The records stand for the history\<close>

definition fails_of :: "attemptRecord option \<Rightarrow> int list" where
  "fails_of r = (case r of None \<Rightarrow> [] | Some rec \<Rightarrow> rev (failures rec))"

definition lock_of :: "attemptRecord option \<Rightarrow> int option" where
  "lock_of r = (case r of None \<Rightarrow> None | Some rec \<Rightarrow> lockedUntil rec)"

text \<open>
  A record stands for the failures of its key when it has the same ones in the window and locks
  for the same time, both from now on: what has left the window and a lock that is over may be
  forgotten.
\<close>

definition stands_for :: "int \<Rightarrow> int \<Rightarrow> int list \<Rightarrow> attemptRecord option \<Rightarrow> bool" where
  "stands_for ovf now fs r \<longleftrightarrow>
     recent now (fails_of r) = recent now fs
     \<and> (\<forall>t\<ge>now. remaining (lock_of r) t = remaining (lock_until ovf fs) t)"

lemma recent_recent: "now \<le> t \<Longrightarrow> recent t (recent now fs) = recent t fs"
  by (auto simp: recent_def intro: filter_cong)

lemma stands_for_later: "stands_for ovf now fs r \<Longrightarrow> now \<le> t \<Longrightarrow> stands_for ovf t fs r"
  unfolding stands_for_def by (metis order_trans recent_recent)

lemma stands_for_none: "stands_for ovf now [] None"
  by (simp add: stands_for_def fails_of_def lock_of_def)

lemma stands_for_evict:
  assumes "stands_for ovf now fs (recs k)"
  shows "stands_for ovf now fs (evict now recs k)"
proof (cases "evict now recs k = recs k")
  case False
  then obtain rec where r: "recs k = Some rec" "now_after now (lockedUntil rec)"
      "\<not> list_ex (\<lambda>t. t > now - rateLimitWindow) (failures rec)" "evict now recs k = None"
    by (auto simp: evict_def split: option.splits if_splits)
  have "remaining (lockedUntil rec) t = 0" if "t \<ge> now" for t
    using r(2) that by (auto simp: remaining_def now_after_def split: option.splits)
  moreover have "recent now (fails_of (recs k)) = []"
    using r by (auto simp: recent_def fails_of_def list_ex_iff filter_empty_conv)
  moreover have "recent now (fails_of None) = []" by (simp add: recent_def fails_of_def)
  ultimately show ?thesis
    using assms r by (auto simp: stands_for_def lock_of_def remaining_def)
qed (use assms in simp)

lemma stands_for_failure:
  assumes "stands_for ovf now fs (recs k)" "k \<noteq> []"
  shows "stands_for ovf now (now # fs) (snd (recordFailureKey ovf recs k now) k)"
proof -
  let ?rec = "case recs k of None \<Rightarrow> \<lparr>failures = [], lockedUntil = None\<rparr> | Some rec \<Rightarrow> rec"
  have f: "rev (failures ?rec) = fails_of (recs k)" and l: "lockedUntil ?rec = lock_of (recs k)"
    by (auto simp: fails_of_def lock_of_def split: option.splits)
  have same: "recent now (fails_of (recs k)) = recent now fs"
    and locks: "\<forall>t\<ge>now. remaining (lock_of (recs k)) t = remaining (lock_until ovf fs) t"
    using assms by (simp_all add: stands_for_def)
  have "length (filter (\<lambda>t. t > now - rateLimitWindow) (failures ?rec)) = length (recent now fs)"
    by (metis f length_rev recent_def rev_filter same)
  moreover have "recent now (rev (filter (\<lambda>t. t > now - rateLimitWindow) (failures ?rec))) = recent now fs"
    by (metis f order_refl recent_def recent_recent rev_filter same)
  ultimately show ?thesis
    using assms(2) locks l
    by (auto simp: recordFailureKey_def Let_def stands_for_def fails_of_def lock_of_def recent_def)
qed

lemma failure_others: "j \<noteq> k \<Longrightarrow> snd (recordFailureKey ovf recs k now) j = recs j"
  by (simp add: recordFailureKey_def Let_def)

definition limiter_ok :: "int \<Rightarrow> int \<Rightarrow> limiter_use list \<Rightarrow> rateLimiter \<Rightarrow> bool" where
  "limiter_ok ovf now es rl \<longleftrightarrow>
     (\<forall>k. k \<noteq> [] \<longrightarrow> stands_for ovf now (user_failures k es) (userRecords rl k)
                  \<and> stands_for ovf now (ip_failures k es) (ipRecords rl k))"

lemma limiter_ok_later: "limiter_ok ovf now es rl \<Longrightarrow> now \<le> t \<Longrightarrow> limiter_ok ovf t es rl"
  by (meson limiter_ok_def stands_for_later)

lemma limiter_ok_evict: "limiter_ok ovf now es rl \<Longrightarrow> limiter_ok ovf now es (evictExpired now rl)"
  by (simp add: limiter_ok_def evictExpired_def stands_for_evict)

lemma limiter_ok_failure:
  assumes "limiter_ok ovf now es rl"
  shows "limiter_ok ovf now (Failed u ip now # es) (snd (recordFailure ovf u ip now rl))"
proof -
  let ?rl = "evictExpired now rl"
  have ok: "limiter_ok ovf now es ?rl" using assms by (rule limiter_ok_evict)
  have "userRecords (snd (recordFailure ovf u ip now rl)) = snd (recordFailureKey ovf (userRecords ?rl) u now)"
    "ipRecords (snd (recordFailure ovf u ip now rl)) = snd (recordFailureKey ovf (ipRecords ?rl) ip now)"
    by (simp_all add: recordFailure_def Let_def split: prod.splits)
  then show ?thesis
    using ok unfolding limiter_ok_def
    by (auto simp: failure_others intro: stands_for_failure)
qed

lemma limiter_ok_check: "limiter_ok ovf now es rl \<Longrightarrow> limiter_ok ovf now (Checked u ip now # es) (snd (check u ip now rl))"
  using limiter_ok_evict [of ovf now es rl] by (simp add: check_def Let_def limiter_ok_def)

lemma limiter_ok_success: "limiter_ok ovf now es rl \<Longrightarrow> limiter_ok ovf now (Succeeded u # es) (recordSuccess u rl)"
  by (auto simp: limiter_ok_def recordSuccess_def stands_for_none)

lemma limiter_ok_after: "clock_ok now es \<Longrightarrow> limiter_ok ovf now es (limiter_after ovf es)"
proof (induction es arbitrary: now)
  case Nil
  then show ?case by (simp add: limiter_ok_def limiter_after_def newRateLimiter_def stands_for_none)
next
  case (Cons e es)
  show ?case
  proof (cases "use_time e")
    case None
    then obtain u where "e = Succeeded u" by (cases e) auto
    with Cons show ?thesis by (simp add: clock_ok_def limiter_after_def limiter_ok_success List.map_filter_def)
  next
    case (Some t)
    with Cons.prems have t: "clock_ok t es" "t \<le> now" by (auto simp: clock_ok_def List.map_filter_def)
    have "limiter_ok ovf t (e # es) (limiter_after ovf (e # es))"
      using Cons.IH [OF t(1)] Some by (cases e) (auto simp: limiter_after_def limiter_ok_check limiter_ok_failure)
    then show ?thesis using t(2) by (rule limiter_ok_later)
  qed
qed

definition wait_for :: "int \<Rightarrow> string \<Rightarrow> string \<Rightarrow> int \<Rightarrow> limiter_use list \<Rightarrow> int" where
  "wait_for ovf u ip now es =
     max (if u = [] then 0 else remaining (lock_until ovf (user_failures u es)) now)
         (if ip = [] then 0 else remaining (lock_until ovf (ip_failures ip es)) now)"

lemma checkKey_lock: "checkKey recs k now = (if k = [] then 0 else remaining (lock_of (recs k)) now)"
  by (simp add: checkKey_def lock_of_def remaining_def split: option.splits)

lemma check_wait:
  assumes "clock_ok now es"
  shows "fst (check u ip now (limiter_after ovf es)) = (wait_for ovf u ip now es > 0, wait_for ovf u ip now es)"
proof -
  let ?rl = "evictExpired now (limiter_after ovf es)"
  have "limiter_ok ovf now es ?rl" using limiter_ok_after [OF assms] by (rule limiter_ok_evict)
  then have "checkKey (userRecords ?rl) u now = (if u = [] then 0 else remaining (lock_until ovf (user_failures u es)) now)"
    and "checkKey (ipRecords ?rl) ip now = (if ip = [] then 0 else remaining (lock_until ovf (ip_failures ip es)) now)"
    by (auto simp: checkKey_lock limiter_ok_def stands_for_def)
  then have "fst (check u ip now (limiter_after ovf es)) =
      (if wait_for ovf u ip now es > 0 then (True, wait_for ovf u ip now es) else (False, 0))"
    unfolding check_def by (simp add: Let_def wait_for_def max_def)
  moreover have "wait_for ovf u ip now es \<ge> 0" by (auto simp: wait_for_def remaining_def split: option.splits)
  ultimately show ?thesis by auto
qed

section \<open>Sign-ins one after the other\<close>

text \<open>
  The uses of sign-ins that do not overlap: a failure is recorded only after the check just before
  it, for the same user name and address, let the attempt through.
\<close>

fun serial :: "int \<Rightarrow> limiter_use list \<Rightarrow> bool" where
  "serial ovf [] = True"
| "serial ovf (Failed u ip t # es) =
     (case es of
        Checked v a t0 # fs \<Rightarrow> v = u \<and> a = ip \<and> \<not> fst (fst (check u ip t0 (limiter_after ovf fs))) \<and> serial ovf es
      | _ \<Rightarrow> False)"
| "serial ovf (e # es) = serial ovf es"

text \<open>No failure while the ones before it lock the key, and none before them.\<close>

fun spaced :: "int \<Rightarrow> int list \<Rightarrow> bool" where
  "spaced ovf [] = True"
| "spaced ovf (t # fs) \<longleftrightarrow>
     spaced ovf fs \<and> (\<forall>x \<in> set fs. x \<le> t) \<and> (case lock_until ovf fs of None \<Rightarrow> True | Some l \<Rightarrow> l \<le> t)"

fun few :: "int list \<Rightarrow> bool" where
  "few [] = True"
| "few (t # fs) \<longleftrightarrow> few fs \<and> length (recent t fs) \<le> 7"

lemma lockout_steps:
  "lockoutDuration ovf 5 = 1 * minute" "lockoutDuration ovf 6 = 2 * minute"
  "lockoutDuration ovf 7 = 4 * minute" "lockoutDuration ovf 8 = 8 * minute"
  by (simp_all add: lockoutDuration_def int64_def rateLimitBaseLockout_def rateLimitThreshold_def
      rateLimitMaxLockout_def minute_def second_def)

lemma lockout_grows:
  assumes "5 \<le> k" "k \<le> n" "n \<le> 8"
  shows "lockoutDuration ovf n \<ge> 2 ^ (k - 5) * minute"
proof -
  have "n \<in> {5, 6, 7, 8}" "k \<in> {5, 6, 7, 8}" using assms by auto
  then show ?thesis using assms(2) lockout_steps [of ovf] by (auto simp: minute_def second_def)
qed

text \<open>After a failure that was at least the fifth of its window, the next one has to wait.\<close>

lemma spaced_wait:
  assumes "spaced ovf (y # x # fs)" "few (x # fs)" "5 \<le> k" "k \<le> Suc (length (recent x fs))"
  shows "x + 2 ^ (k - 5) * minute \<le> y"
  using assms lockout_grows [of k "Suc (length (recent x fs))" ovf] by (auto simp: rateLimitThreshold_def Let_def)

lemma spaced_tl: "spaced ovf (t # fs) \<Longrightarrow> spaced ovf fs"
  by simp

lemma few_tl: "few (t # fs) \<Longrightarrow> few fs"
  by simp

text \<open>A ninth failure within a window would have had to wait for one, two, four and eight minutes.\<close>

lemma no_ninth:
  assumes sp: "spaced ovf (x0 # x1 # x2 # x3 # x4 # x5 # x6 # x7 # x8 # fs)"
    and few: "few (x1 # x2 # x3 # x4 # x5 # x6 # x7 # x8 # fs)"
  shows "x8 \<le> x0 - rateLimitWindow"
proof (rule ccontr)
  assume "\<not> ?thesis"
  then have win: "x8 > x0 - rateLimitWindow" by simp
  have order: "x1 \<le> x0" "x2 \<le> x1" "x3 \<le> x2" "x4 \<le> x3" "x5 \<le> x4" "x6 \<le> x5" "x7 \<le> x6" "x8 \<le> x7"
    using sp by auto
  have n: "5 \<le> Suc (length (recent x4 (x5 # x6 # x7 # x8 # fs)))"
    "6 \<le> Suc (length (recent x3 (x4 # x5 # x6 # x7 # x8 # fs)))"
    "7 \<le> Suc (length (recent x2 (x3 # x4 # x5 # x6 # x7 # x8 # fs)))"
    "8 \<le> Suc (length (recent x1 (x2 # x3 # x4 # x5 # x6 # x7 # x8 # fs)))"
    using win order by (simp_all add: recent_def)
  note s1 = spaced_tl [OF sp] and f2 = few_tl [OF few]
  note s2 = spaced_tl [OF s1] and f3 = few_tl [OF f2]
  have "x4 + 2 ^ (5 - 5) * minute \<le> x3"
    by (rule spaced_wait [OF spaced_tl [OF s2] few_tl [OF f3] _ n(1)]) simp
  moreover have "x3 + 2 ^ (6 - 5) * minute \<le> x2" by (rule spaced_wait [OF s2 f3 _ n(2)]) simp
  moreover have "x2 + 2 ^ (7 - 5) * minute \<le> x1" by (rule spaced_wait [OF s1 f2 _ n(3)]) simp
  moreover have "x1 + 2 ^ (8 - 5) * minute \<le> x0" by (rule spaced_wait [OF sp few _ n(4)]) simp
  ultimately show False using win order by (simp add: rateLimitWindow_def)
qed

lemma nine_first:
  assumes "8 \<le> length (recent x0 fs)"
  obtains x1 x2 x3 x4 x5 x6 x7 x8 rest where "fs = x1 # x2 # x3 # x4 # x5 # x6 # x7 # x8 # rest"
proof -
  have "8 \<le> length fs" using assms length_filter_le [of _ fs] unfolding recent_def by (meson order_trans)
  then show thesis using that by (auto simp: numeral_eq_Suc Suc_le_length_iff)
qed

lemma spaced_few: "spaced ovf fs \<Longrightarrow> few fs"
proof (induction fs)
  case (Cons x0 fs)
  then have few: "few fs" by simp
  have "length (recent x0 fs) \<le> 7"
  proof (rule ccontr)
    assume "\<not> ?thesis"
    then have len: "8 \<le> length (recent x0 fs)" by simp
    then obtain x1 x2 x3 x4 x5 x6 x7 x8 rest where fs: "fs = x1 # x2 # x3 # x4 # x5 # x6 # x7 # x8 # rest"
      by (rule nine_first)
    have old: "x8 \<le> x0 - rateLimitWindow" using no_ninth Cons.prems few unfolding fs by blast
    have "\<forall>x \<in> set rest. x \<le> x8" using Cons.prems unfolding fs by simp
    with old have "recent x0 (x8 # rest) = []" by (auto simp: recent_def filter_empty_conv)
    then have "recent x0 fs = recent x0 [x1, x2, x3, x4, x5, x6, x7]" unfolding fs recent_def by auto
    moreover have "length (recent x0 [x1, x2, x3, x4, x5, x6, x7]) \<le> 7"
      using length_filter_le [of _ "[x1, x2, x3, x4, x5, x6, x7]"] unfolding recent_def by force
    ultimately show False using len by simp
  qed
  then show ?case using few by simp
qed simp

text \<open>So no window of a quarter of an hour has more than eight failures.\<close>

lemma few_window:
  assumes "few fs" "spaced ovf fs"
  shows "length (filter (\<lambda>t. s < t \<and> t \<le> s + rateLimitWindow) fs) \<le> 8"
  using assms
proof (induction fs)
  case (Cons t fs)
  show ?case
  proof (cases "s < t \<and> t \<le> s + rateLimitWindow")
    case True
    have "length (filter (\<lambda>x. s < x \<and> x \<le> s + rateLimitWindow) fs) \<le> length (recent t fs)"
      unfolding recent_def
      using True by (induction fs) auto
    with Cons.prems True show ?thesis by simp
  qed (use Cons in auto)
qed simp

lemma clock_tl: "clock_ok now (e # es) \<Longrightarrow> clock_ok (case use_time e of None \<Rightarrow> now | Some t \<Rightarrow> t) es"
  by (force simp: clock_ok_def List.map_filter_def split: option.splits)

lemma clock_hd: "clock_ok now (e # es) \<Longrightarrow> use_time e = Some t \<Longrightarrow> t \<le> now"
  by (simp add: clock_ok_def List.map_filter_def)

definition spaced_by :: "int \<Rightarrow> int \<Rightarrow> int list \<Rightarrow> bool" where
  "spaced_by ovf now fs \<longleftrightarrow> spaced ovf fs \<and> (\<forall>x \<in> set fs. x \<le> now)"

lemma spaced_by_later: "spaced_by ovf now fs \<Longrightarrow> now \<le> t \<Longrightarrow> spaced_by ovf t fs"
  by (auto simp: spaced_by_def)

lemma spaced_by_next:
  assumes "spaced_by ovf t0 fs" "remaining (lock_until ovf fs) t0 = 0" "t0 \<le> t"
  shows "spaced_by ovf t (t # fs)"
  using assms by (auto simp: spaced_by_def remaining_def split: option.splits if_splits)

lemma serial_failure:
  assumes "clock_ok now (Failed u ip t # es)" "serial ovf (Failed u ip t # es)"
  obtains t0 fs where "es = Checked u ip t0 # fs" "clock_ok t0 fs" "t0 \<le> t" "t \<le> now"
    "wait_for ovf u ip t0 fs = 0" "serial ovf fs"
proof -
  obtain t0 fs where es: "es = Checked u ip t0 # fs" "\<not> fst (fst (check u ip t0 (limiter_after ovf fs)))" "serial ovf fs"
    using assms(2) by (auto split: list.splits limiter_use.splits)
  have clk: "clock_ok t es" "t \<le> now" using clock_tl [OF assms(1)] clock_hd [OF assms(1)] by simp_all
  then have t0: "clock_ok t0 fs" "t0 \<le> t" using clock_tl [of t "Checked u ip t0" fs] clock_hd [of t "Checked u ip t0" fs t0] es
    by simp_all
  have "wait_for ovf u ip t0 fs \<ge> 0" by (auto simp: wait_for_def remaining_def split: option.splits)
  then have "wait_for ovf u ip t0 fs = 0" using check_wait [OF t0(1), of u ip ovf] es(2) by simp
  then show thesis using that es t0 clk by blast
qed

lemma wait_for_zero:
  "wait_for ovf u ip t fs = 0 \<longleftrightarrow>
     (u \<noteq> [] \<longrightarrow> remaining (lock_until ovf (user_failures u fs)) t = 0)
     \<and> (ip \<noteq> [] \<longrightarrow> remaining (lock_until ovf (ip_failures ip fs)) t = 0)"
  by (auto simp: wait_for_def remaining_def max_def split: option.splits)

lemma serial_spaced:
  "clock_ok now es \<Longrightarrow> serial ovf es \<Longrightarrow>
     (u \<noteq> [] \<longrightarrow> spaced_by ovf now (user_failures u es)) \<and> (a \<noteq> [] \<longrightarrow> spaced_by ovf now (ip_failures a es))"
proof (induction es arbitrary: now rule: length_induct)
  case (1 es)
  show ?case
  proof (cases es)
    case Nil
    then show ?thesis by (simp add: spaced_by_def)
  next
    case (Cons e es')
    show ?thesis
    proof (cases e)
      case (Failed v ip t)
      obtain t0 fs where f: "es' = Checked v ip t0 # fs" "clock_ok t0 fs" "t0 \<le> t" "t \<le> now"
          "wait_for ovf v ip t0 fs = 0" "serial ovf fs"
        using serial_failure 1(2,3) Cons Failed by metis
      have len: "length fs < length es" using Cons f(1) by simp
      have ih: "u \<noteq> [] \<longrightarrow> spaced_by ovf t0 (user_failures u fs)" "a \<noteq> [] \<longrightarrow> spaced_by ovf t0 (ip_failures a fs)"
        using "1.IH" len f(2,6) by blast+
      have "u \<noteq> [] \<longrightarrow> spaced_by ovf t (user_failures u es)" "a \<noteq> [] \<longrightarrow> spaced_by ovf t (ip_failures a es)"
        using ih f Cons Failed spaced_by_next [of ovf t0] spaced_by_later [of ovf t0 _ t]
        by (auto simp: wait_for_zero)
      then show ?thesis using spaced_by_later f(4) by blast
    next
      case (Checked v ip t)
      then have "t \<le> now" "clock_ok t es'" "serial ovf es'"
        using 1(2,3) Cons clock_tl [of now e es'] clock_hd [of now e es'] by simp_all
      then show ?thesis using "1.IH" Cons Checked spaced_by_later by (metis ip_failures.simps(3) length_Cons lessI user_failures.simps(4))
    next
      case (Succeeded v)
      then have "clock_ok now es'" "serial ovf es'" using 1(2,3) Cons clock_tl [of now e es'] by simp_all
      then show ?thesis using "1.IH" Cons Succeeded by (auto simp: spaced_by_def)
    qed
  qed
qed

section \<open>Properties\<close>

text \<open>With few failures in a window the lockout does not leave the range of a duration.\<close>

lemma lockout_small:
  assumes "n \<le> 8"
  shows "lockoutDuration ovf n = lockoutDuration ovf' n"
proof -
  define q :: int where "q = 2 ^ (n - 5)"
  have "q \<le> 2 ^ 3" unfolding q_def using assms by (intro power_increasing) auto
  moreover have "0 < q" by (simp add: q_def)
  ultimately have "int64 v (rateLimitBaseLockout * q) = rateLimitBaseLockout * q" for v
    by (simp add: int64_def rateLimitBaseLockout_def minute_def second_def)
  then show ?thesis by (simp add: lockoutDuration_def rateLimitThreshold_def q_def)
qed

lemma few_lock: "few fs \<Longrightarrow> lock_until ovf fs = lock_until ovf' fs"
  using lockout_small by (induction fs) (auto simp: Let_def)

lemma lockout_max: "lockoutDuration ovf n \<le> rateLimitMaxLockout"
  by (simp add: lockoutDuration_def Let_def)

lemma lock_until_max:
  "lock_until ovf fs = Some l \<Longrightarrow> \<forall>x \<in> set fs. x \<le> now \<Longrightarrow> l \<le> now + rateLimitMaxLockout"
proof (induction fs)
  case (Cons t fs)
  then show ?case using lockout_max [of ovf "Suc (length (recent t fs))"] by (auto simp: Let_def split: if_splits)
qed simp

lemma failures_before:
  "clock_ok now es \<Longrightarrow> (\<forall>x \<in> set (user_failures u es). x \<le> now) \<and> (\<forall>x \<in> set (ip_failures a es). x \<le> now)"
proof (induction es arbitrary: now)
  case (Cons e es)
  note tl = clock_tl [OF Cons.prems] and first = clock_hd [OF Cons.prems]
  show ?case
  proof (cases e)
    case (Succeeded v)
    then show ?thesis using Cons.IH [of now] tl by simp
  next
    case (Checked v ip t)
    then have "t \<le> now" "clock_ok t es" using tl first by simp_all
    with Cons.IH [of t] Checked show ?thesis by (auto intro: order_trans)
  next
    case (Failed v ip t)
    then have "t \<le> now" "clock_ok t es" using tl first by simp_all
    with Cons.IH [of t] Failed show ?thesis by (auto intro: order_trans)
  qed
qed simp


definition sample_uses :: "limiter_use list" where
  "sample_uses = map (\<lambda>i. Failed ''bob'' ''10.0.0.1'' (i * second)) [5, 4, 3, 2, 1]"



text \<open>The same on the history, for evaluation.\<close>

fun serial_spec :: "int \<Rightarrow> limiter_use list \<Rightarrow> bool" where
  "serial_spec ovf [] = True"
| "serial_spec ovf (Failed u ip t # es) =
     (case es of
        Checked v a t0 # fs \<Rightarrow> v = u \<and> a = ip \<and> wait_for ovf u ip t0 fs = 0 \<and> serial_spec ovf es
      | _ \<Rightarrow> False)"
| "serial_spec ovf (e # es) = serial_spec ovf es"

lemma serial_of_spec: "clock_ok now es \<Longrightarrow> serial_spec ovf es \<Longrightarrow> serial ovf es"
proof (induction es arbitrary: now)
  case (Cons e es)
  note c = clock_tl [OF Cons.prems(1)]
  show ?case
  proof (cases e)
    case (Failed u ip t)
    then obtain t0 fs where es: "es = Checked u ip t0 # fs" "wait_for ovf u ip t0 fs = 0" "serial_spec ovf es"
      using Cons.prems(2) by (auto split: list.splits limiter_use.splits)
    have "clock_ok t es" using c Failed by simp
    then have "clock_ok t0 fs" "serial ovf es" using clock_tl [of t "Checked u ip t0" fs] Cons.IH es by simp_all
    then show ?thesis using Failed es check_wait [of t0 fs u ip ovf] by simp
  qed (use Cons c in auto)
qed simp

definition sample_serial :: "limiter_use list" where
  "sample_serial = concat (map (\<lambda>i. [Failed ''bob'' ''10.0.0.1'' (i * second), Checked ''bob'' ''10.0.0.1'' (i * second)])
     [425, 185, 65, 5, 4, 3, 2, 1])"


section \<open>Overlapping attempts\<close>

text \<open>
  Attempts that overlap are all checked before the first failure is recorded, so a window can have
  more. From the 33rd failure in a window on, the lockout in nanoseconds exceeds the range of a
  duration. Where the conversion gives the least integer (as it does on amd64), the lock then ends
  in the past: the key is unlocked, and stays so for as long as there are that many failures in the
  window.
\<close>

lemma lockout_overflow:
  assumes "33 \<le> n"
  shows "lockoutDuration (- (2 ^ 63)) n = - (2 ^ 63)"
proof -
  have "(2::int) ^ 28 \<le> 2 ^ (n - 5)" using assms by (intro power_increasing) auto
  then have "(2::int) ^ 63 \<le> 60000000000 * 2 ^ (n - 5)" by simp
  then show ?thesis
    by (simp add: lockoutDuration_def int64_def rateLimitBaseLockout_def rateLimitThreshold_def rateLimitMaxLockout_def
        minute_def second_def Let_def)
qed

lemma overlapping_unlocks:
  "fst (check ''bob'' ''10.0.0.1'' 1 (limiter_after (- (2 ^ 63)) (replicate 33 (Failed ''bob'' ''10.0.0.1'' 0)))) = (False, 0)"
proof -
  let ?es = "replicate 33 (Failed ''bob'' ''10.0.0.1'' 0)"
  have "clock_ok 1 ?es" by code_simp
  moreover have "wait_for (- (2 ^ 63)) ''bob'' ''10.0.0.1'' 1 ?es = 0" by code_simp
  ultimately show ?thesis using check_wait by simp
qed

end
