(* ===== verification/Server_Sessions.thy ===== *)
theory Server_Sessions
  imports Server_Access Rate_Limit "HOL-Library.Word"
begin

text \<open>
  The part of the authentication service that opens and ends sessions
  (\<open>internal/auth/service.go\<close>, \<open>password.go\<close>, \<open>purge.go\<close>): the first administrator, signing in with
  a password, signing out, revoking sessions, and the removal of expired ones.

  Arguments are the comparison and computation of password hashes, the answer of the breach
  service, the random bytes of a session token (reading them
  does not fail), the splitting of an address, which queries fail and
  with what text, and the readings of the clock; a new row gets the time the database reads
  (\<open>en_timestamp\<close>) and a new event the next id (\<open>en_eventId\<close>), and
  \<open>en_timestamppb\<close> is the protobuf library's form of a time. A sign-in is two steps, the check of the limiter
  and the rest, because the handler holds no lock in between and others run.
\<close>

section \<open>State and environment\<close>

record auth_service =
  av_db :: server_db
  av_limiter :: rateLimiter

record auth_config =
  ac_idleTimeout :: int
  ac_absoluteTimeout :: int
  ac_rememberIdleTimeout :: int
  ac_rememberAbsoluteTimeout :: int
  ac_secureCookies :: string
  ac_trustedProxy :: bool
  ac_breachedCheck :: bool

record auth_env =
  en_matches :: "string \<Rightarrow> string \<Rightarrow> bool"
  en_hash :: "string \<Rightarrow> string + string"
  en_breached :: "string \<Rightarrow> bool"
  en_splitHostPort :: "string \<Rightarrow> string option"
  en_fails :: failing
  en_dbtext :: "db_query \<Rightarrow> string"
  en_timestamp :: int
  en_eventId :: int
  en_timestamppb :: "int \<Rightarrow> timestamp"

record req_header =
  rh_cookie :: string
  rh_userAgent :: string
  rh_forwardedFor :: "string option"
  rh_forwardedProto :: string
  rh_peer :: string

definition client_ip :: "auth_env \<Rightarrow> auth_config \<Rightarrow> req_header \<Rightarrow> string" where
  "client_ip en cfg h = extractClientIP (en_splitHostPort en) (rh_forwardedFor h) (rh_peer h) (ac_trustedProxy cfg)"

definition recordAuthEvent :: "auth_env \<Rightarrow> int option \<Rightarrow> string \<Rightarrow> string \<Rightarrow> string \<Rightarrow> server_db \<Rightarrow> server_db" where
  "recordAuthEvent en uid username eventType detail d =
     (if en_fails en QCreateAuthEvent then d
      else d\<lparr>sv_authEvents := sv_authEvents d
               @ [\<lparr>dv_id = en_eventId en, dv_userId = uid, dv_username = username, dv_event = eventType, dv_detail = detail,
                   dv_createdAt = en_timestamp en\<rparr>]\<rparr>)"

definition event :: "auth_env \<Rightarrow> int option \<Rightarrow> string \<Rightarrow> string \<Rightarrow> string \<Rightarrow> auth_service \<Rightarrow> auth_service" where
  "event en uid username eventType detail s = s\<lparr>av_db := recordAuthEvent en uid username eventType detail (av_db s)\<rparr>"

section \<open>Opening a session\<close>

definition hex_digit :: "nat \<Rightarrow> char" where
  "hex_digit n = char_of (if n < 10 then 48 + n else 87 + n)"

definition hex :: "8 word list \<Rightarrow> string" where
  "hex bs = concat (map (\<lambda>b. [hex_digit (unat b div 16), hex_digit (unat b mod 16)]) bs)"

definition formatSessionCookie :: "string \<Rightarrow> int \<Rightarrow> string \<Rightarrow> string \<Rightarrow> string" where
  "formatSessionCookie sessionID maxAge secureCookies forwardedProto =
     (let secureSuffix =
            (if secureCookies = ''always'' then ''; Secure''
             else if secureCookies = ''never'' then []
             else if secureCookies = ''auto''
             then (if toLowerCase forwardedProto = ''https'' then ''; Secure'' else [])
             else [])
      in ''session_id='' @ sessionID @ ''; Path=/; HttpOnly; SameSite=Lax; Max-Age='' @ string_of_int maxAge @ secureSuffix)"

definition createSession :: "auth_env \<Rightarrow> db_session \<Rightarrow> server_db \<Rightarrow> server_db option" where
  "createSession en ses d =
     (if en_fails en QCreateSession \<or> ses_id ses \<in> ses_id ` set (sv_sessions d) then None
      else Some (d\<lparr>sv_sessions := sv_sessions d @ [ses]\<rparr>))"

definition issueSession ::
  "auth_env \<Rightarrow> auth_config \<Rightarrow> 8 word list \<Rightarrow> int \<Rightarrow> int \<Rightarrow> bool \<Rightarrow> req_header \<Rightarrow> server_db \<Rightarrow> (string + string) \<times> server_db" where
  "issueSession en cfg tokenBytes now userID rememberMe h d =
     (let idle = (if rememberMe then ac_rememberIdleTimeout cfg else ac_idleTimeout cfg);
          absolute = (if rememberMe then ac_rememberAbsoluteTimeout cfg else ac_absoluteTimeout cfg);
          sessionID = hex tokenBytes
      in case createSession en \<lparr>ses_id = sessionID, ses_userId = userID, ses_userAgent = rh_userAgent h,
                  ses_expiresAt = now + idle, ses_absoluteExpiresAt = now + absolute, ses_lastSeenAt = now,
                  ses_createdAt = en_timestamp en\<rparr> d of
           None \<Rightarrow> (Inl (''failed to save session: '' @ en_dbtext en QCreateSession), d)
         | Some d' \<Rightarrow>
             (Inr (formatSessionCookie sessionID (idle div second) (ac_secureCookies cfg) (rh_forwardedProto h)), d'))"

section \<open>Signing in\<close>

definition retry_seconds :: "int \<Rightarrow> int" where
  "retry_seconds wait = max 1 (- ((- wait) div second))"

definition login_check ::
  "auth_env \<Rightarrow> auth_config \<Rightarrow> int \<Rightarrow> loginRequest \<Rightarrow> req_header \<Rightarrow> auth_service \<Rightarrow> connect_error option \<times> auth_service" where
  "login_check en cfg now q h s =
     (if lq_username q = [] \<or> lq_password q = []
      then (Some (NewError codeInvalidArgument ''username and password are required''), s)
      else (let ip = client_ip en cfg h in
            case check (lq_username q) ip now (av_limiter s) of
              ((locked, retryAfter), rl) \<Rightarrow>
                if locked
                then (Some (NewError codeResourceExhausted
                              (''too many failed login attempts, please try again in ''
                               @ string_of_int (retry_seconds retryAfter) @ '' seconds'')),
                      event en None (lq_username q) ''rate_limited'' (''ip: '' @ ip) (s\<lparr>av_limiter := rl\<rparr>))
                else (None, s\<lparr>av_limiter := rl\<rparr>)))"

definition fail_login ::
  "auth_env \<Rightarrow> int \<Rightarrow> int \<Rightarrow> int option \<Rightarrow> string \<Rightarrow> string \<Rightarrow> string \<Rightarrow> auth_service \<Rightarrow> auth_service" where
  "fail_login en ovf now uid username name ip s =
     event en uid name ''login_failed'' (''method: password, reason: invalid credentials, ip: '' @ ip)
       (s\<lparr>av_limiter := snd (recordFailure ovf username ip now (av_limiter s))\<rparr>)"

definition login_finish ::
  "auth_env \<Rightarrow> auth_config \<Rightarrow> int \<Rightarrow> 8 word list \<Rightarrow> int \<Rightarrow> loginRequest \<Rightarrow> req_header \<Rightarrow> auth_service \<Rightarrow>
     (connect_error + loginResponse \<times> string) \<times> auth_service" where
  "login_finish en cfg ovf tokenBytes now q h s =
     (let ip = client_ip en cfg h; username = lq_username q; password = lq_password q in
      if en_fails en QGetUserByUsername
      then (Inl (NewError codeInternal (''failed to query user: '' @ en_dbtext en QGetUserByUsername)), s)
      else case List.find (\<lambda>u. usr_username u = username) (sv_users (av_db s)) of
        None \<Rightarrow>
          (Inl (NewError codeUnauthenticated ''invalid credentials''), fail_login en ovf now None username username ip s)
      | Some user \<Rightarrow>
          if \<not> en_matches en (usr_passwordHash user) password
          then (Inl (NewError codeUnauthenticated ''invalid credentials''),
                fail_login en ovf now (Some (usr_id user)) username (usr_username user) ip s)
          else (let s1 = s\<lparr>av_limiter := recordSuccess username (av_limiter s)\<rparr> in
                case issueSession en cfg tokenBytes now (usr_id user) (lq_rememberMe q) h (av_db s1) of
                  (Inl err, d) \<Rightarrow> (Inl (NewError codeInternal err), s1\<lparr>av_db := d\<rparr>)
                | (Inr cookieHeader, d) \<Rightarrow>
                    (Inr (\<lparr>lr_username = usr_username user, lr_role = usr_role user\<rparr>, cookieHeader),
                     event en (Some (usr_id user)) (usr_username user) ''login_success'' (''method: password, ip: '' @ ip)
                       (s1\<lparr>av_db := d\<rparr>))))"

definition loginRpc ::
  "auth_env \<Rightarrow> auth_config \<Rightarrow> int \<Rightarrow> 8 word list \<Rightarrow> int \<Rightarrow> int \<Rightarrow> loginRequest \<Rightarrow> req_header \<Rightarrow> auth_service \<Rightarrow>
     (connect_error + loginResponse \<times> string) \<times> auth_service" where
  "loginRpc en cfg ovf tokenBytes now now1 q h s =
     (case login_check en cfg now q h s of
        (Some e, s1) \<Rightarrow> (Inl e, s1)
      | (None, s1) \<Rightarrow> login_finish en cfg ovf tokenBytes now1 q h s1)"

section \<open>Ending sessions\<close>

definition logoutRpc :: "auth_env \<Rightarrow> auth_config \<Rightarrow> ctx \<Rightarrow> req_header \<Rightarrow> server_db \<Rightarrow> string \<times> server_db" where
  "logoutRpc en cfg cx h d =
     (let sessionID = (case cx_sessionId cx of Some sid \<Rightarrow> sid | None \<Rightarrow> parseSessionCookie (rh_cookie h));
          d1 = (case cx_user cx of Some u \<Rightarrow> recordAuthEvent en (Some (usr_id u)) (usr_username u) ''logout'' [] d | None \<Rightarrow> d);
          d2 = (if sessionID \<noteq> [] then deleteSession (en_fails en) sessionID d1 else d1)
      in (formatSessionCookie [] 0 (ac_secureCookies cfg) (rh_forwardedProto h), d2))"

definition getMeRpc :: "ctx \<Rightarrow> connect_error + getMeResponse" where
  "getMeRpc cx =
     (case cx_user cx of
        None \<Rightarrow> Inl (NewError codeUnauthenticated ''unauthenticated'')
      | Some u \<Rightarrow> Inr \<lparr>me_userId = usr_id u, me_username = usr_username u, me_role = usr_role u\<rparr>)"

definition revokeSessionRpc ::
  "auth_env \<Rightarrow> ctx \<Rightarrow> revokeSessionRequest \<Rightarrow> server_db \<Rightarrow> (connect_error + unit) \<times> server_db" where
  "revokeSessionRpc en cx q d =
     (case cx_user cx of
        None \<Rightarrow> (Inl (NewError codeUnauthenticated ''unauthenticated''), d)
      | Some u \<Rightarrow>
          (let sessionID = rsq_sessionId q; hit = (\<lambda>x. ses_id x = sessionID \<and> ses_userId x = usr_id u) in
           if sessionID = [] then (Inl (NewError codeInvalidArgument ''session_id is required''), d)
           else if en_fails en QRevokeSessions
           then (Inl (NewError codeInternal (''failed to revoke session: '' @ en_dbtext en QRevokeSessions)), d)
           else if filter hit (sv_sessions d) = [] then (Inl (NewError codeNotFound ''session not found''), d)
           else (Inr (), recordAuthEvent en (Some (usr_id u)) (usr_username u) ''session_revoked'' ''action: revoke_single''
                           (d\<lparr>sv_sessions := filter (\<lambda>x. \<not> hit x) (sv_sessions d)\<rparr>))))"

definition revokeAllOtherSessionsRpc :: "auth_env \<Rightarrow> ctx \<Rightarrow> server_db \<Rightarrow> (connect_error + nat) \<times> server_db" where
  "revokeAllOtherSessionsRpc en cx d =
     (case cx_user cx of
        None \<Rightarrow> (Inl (NewError codeUnauthenticated ''unauthenticated''), d)
      | Some u \<Rightarrow>
          (let current = (case cx_sessionId cx of Some sid \<Rightarrow> sid | None \<Rightarrow> []);
               hit = (\<lambda>x. ses_userId x = usr_id u \<and> ses_id x \<noteq> current) in
           if en_fails en QRevokeSessions
           then (Inl (NewError codeInternal (''failed to revoke other sessions: '' @ en_dbtext en QRevokeSessions)), d)
           else (Inr (length (filter hit (sv_sessions d))),
                 recordAuthEvent en (Some (usr_id u)) (usr_username u) ''session_revoked'' ''action: revoke_all_other''
                   (d\<lparr>sv_sessions := filter (\<lambda>x. \<not> hit x) (sv_sessions d)\<rparr>))))"

definition purgeExpiredSessions :: "int \<Rightarrow> server_db \<Rightarrow> server_db" where
  "purgeExpiredSessions now d =
     d\<lparr>sv_sessions := filter (\<lambda>x. \<not> (ses_expiresAt x < now \<or> ses_absoluteExpiresAt x < now)) (sv_sessions d)\<rparr>"

section \<open>The first administrator\<close>

definition minPasswordLength :: nat where "minPasswordLength = 12"

definition validate :: "auth_env \<Rightarrow> auth_config \<Rightarrow> string \<Rightarrow> connect_error option" where
  "validate en cfg password =
     (if length password < minPasswordLength
      then Some (NewError codeInvalidArgument ''password must be at least 12 characters'')
      else if \<not> ac_breachedCheck cfg then None
      else if en_breached en password
      then Some (NewError codeInvalidArgument
             ''the chosen password appears in a known data breach; please choose a different password'')
      else None)"

definition createUser :: "string \<Rightarrow> string \<Rightarrow> string \<Rightarrow> server_db \<Rightarrow> (db_user \<times> server_db) option" where
  "createUser username hash role d =
     (if username \<in> usr_username ` set (sv_users d) then None
      else (let u = \<lparr>usr_id = foldr max (map usr_id (sv_users d)) 0 + 1, usr_username = username,
                     usr_passwordHash = hash, usr_role = role\<rparr>
            in Some (u, d\<lparr>sv_users := sv_users d @ [u]\<rparr>)))"

definition setupAdminRpc ::
  "auth_env \<Rightarrow> auth_config \<Rightarrow> setupAdminRequest \<Rightarrow> req_header \<Rightarrow> server_db \<Rightarrow> (connect_error + string \<times> string) \<times> server_db" where
  "setupAdminRpc en cfg q h d =
     (let username = sar_username q; password = sar_password q in
      if username = [] \<or> password = []
      then (Inl (NewError codeInvalidArgument ''username and password are required''), d)
      else case validate en cfg password of
        Some e \<Rightarrow> (Inl e, d)
      | None \<Rightarrow>
          if en_fails en QCountUsers
          then (Inl (NewError codeInternal (''failed to check existing users: '' @ en_dbtext en QCountUsers)), d)
          else if sv_users d \<noteq> [] then (Inl (NewError codeFailedPrecondition ''admin account already setup''), d)
          else case en_hash en password of
            Inl err \<Rightarrow> (Inl (NewError codeInternal (''failed to hash password: '' @ err)), d)
          | Inr hashed \<Rightarrow>
              if en_fails en QCreateUser
              then (Inl (NewError codeInternal (''failed to create admin: '' @ en_dbtext en QCreateUser)), d)
              else case createUser username hashed adminRole d of
                None \<Rightarrow> (Inl (NewError codeInternal (''failed to create admin: '' @ en_dbtext en QCreateUser)), d)
              | Some (u, d1) \<Rightarrow>
                  (Inr (usr_username u, usr_role u),
                   recordAuthEvent en (Some (usr_id u)) (usr_username u) ''setup_admin'' (''ip: '' @ client_ip en cfg h) d1))"

definition serverStatus_needsSetup :: "auth_env \<Rightarrow> server_db \<Rightarrow> connect_error + bool" where
  "serverStatus_needsSetup en d =
     (if en_fails en QCountUsers then Inl (NewError codeInternal (''failed to count users: '' @ en_dbtext en QCountUsers))
      else Inr (sv_users d = []))"

section \<open>Cookies\<close>

lemma hex_digit_char: "n < 16 \<Longrightarrow> hex_digit n \<in> set ''0123456789abcdef''"
proof -
  have "list_all (\<lambda>n. hex_digit n \<in> set ''0123456789abcdef'') [0..<16]" by code_simp
  then show "n < 16 \<Longrightarrow> ?thesis" by (simp add: list_all_iff)
qed

lemma hex_chars: "set (hex bs) \<subseteq> set ''0123456789abcdef''"
proof -
  define D where "D = set ''0123456789abcdef''"
  have "unat b div 16 < 16" for b :: "8 word" using unsigned_less [where ?'a = nat, of b] by (simp add: less_mult_imp_div_less)
  then have "hex_digit (unat b div 16) \<in> D \<and> hex_digit (unat b mod 16) \<in> D" for b :: "8 word"
    unfolding D_def by (blast intro: hex_digit_char mod_less_divisor zero_less_numeral)
  then show ?thesis unfolding hex_def D_def [symmetric] by auto
qed

lemma hex_Nil [simp]: "hex bs = [] \<longleftrightarrow> bs = []"
  by (simp add: hex_def)

lemma split_on_none: "d \<notin> set s \<Longrightarrow> split_on d s = [s]"
  by (induction s) auto

lemma trimSpace_id:
  assumes "s \<noteq> []" "\<not> is_space (hd s)" "hd s \<noteq> char_of (133::nat)" "\<not> is_space (last s)" "last s \<noteq> char_of (133::nat)"
  shows "trimSpace s = s"
proof -
  obtain c cs where s: "s = c # cs" using assms(1) by (cases s) auto
  obtain z zs where r: "rev s = z # zs" "z = last s" using assms(1) by (cases "rev s") (auto simp: last_rev rev_swap)
  from assms s r have "rev (z # zs) = s" by (metis rev_swap)
  with assms s r show ?thesis by (auto simp: trimSpace_def Let_def)
qed

text \<open>The cookie of a response, sent back, names the session.\<close>

definition sent_back :: "string \<Rightarrow> string" where
  "sent_back setCookie = takeWhile (\<lambda>c. c \<noteq> CHR '';'') setCookie"

lemma sent_back_format:
  assumes "CHR '';'' \<notin> set sid"
  shows "sent_back (formatSessionCookie sid age sec proto) = ''session_id='' @ sid"
proof -
  have "takeWhile (\<lambda>c. c \<noteq> CHR '';'') (''session_id='' @ sid @ CHR '';'' # rest) = ''session_id='' @ sid" for rest
  proof -
    have "takeWhile (\<lambda>c. c \<noteq> CHR '';'') (sid @ CHR '';'' # rest) = sid @ takeWhile (\<lambda>c. c \<noteq> CHR '';'') (CHR '';'' # rest)"
      using assms by (intro takeWhile_append2) auto
    then show ?thesis by simp
  qed
  then show ?thesis by (simp add: sent_back_def formatSessionCookie_def Let_def)
qed

lemma parse_sent_back:
  assumes "CHR '';'' \<notin> set sid" "sid \<noteq> []" "\<not> is_space (last sid)" "last sid \<noteq> char_of (133::nat)"
  shows "parseSessionCookie (''session_id='' @ sid) = sid"
proof -
  have "split_on (CHR '';'') (''session_id='' @ sid) = [''session_id='' @ sid]"
    using assms(1) by (intro split_on_none) simp
  moreover have "trimSpace (''session_id='' @ sid) = ''session_id='' @ sid"
    using assms by (intro trimSpace_id) (simp_all add: is_space_def char_of_def)
  ultimately show ?thesis by (simp only: parseSessionCookie_def first_session.simps cookie_prefix_def) simp
qed

lemma issued_cookie:
  assumes "bs \<noteq> []"
  shows "parseSessionCookie (sent_back (formatSessionCookie (hex bs) age sec proto)) = hex bs"
proof -
  have sub: "last (hex bs) \<in> set ''0123456789abcdef''" "CHR '';'' \<notin> set (hex bs)"
    using hex_chars [of bs] assms last_in_set [of "hex bs"] by (simp_all only: hex_Nil subset_iff) (fast, auto)
  then have "\<not> is_space (last (hex bs))" "last (hex bs) \<noteq> char_of (133::nat)"
    by (auto simp: is_space_def char_of_def)
  then show ?thesis using sub(2) assms by (simp only: sent_back_format parse_sent_back hex_Nil not_False_eq_True)
qed

section \<open>Sessions\<close>

definition db_keys :: "server_db \<Rightarrow> bool" where
  "db_keys d \<longleftrightarrow> distinct (map usr_id (sv_users d)) \<and> distinct (map ses_id (sv_sessions d))"

lemma find_key: "distinct (map f xs) \<Longrightarrow> x \<in> set xs \<Longrightarrow> List.find (\<lambda>y. f y = f x) xs = Some x"
  by (induction xs) (auto simp: image_iff)

lemma event_simps [simp]:
  "sv_sessions (av_db (event en uid n e x s)) = sv_sessions (av_db s)"
  "sv_users (av_db (event en uid n e x s)) = sv_users (av_db s)"
  "av_limiter (event en uid n e x s) = av_limiter s"
  by (simp_all add: event_def recordAuthEvent_def)

lemma fail_login_simps [simp]:
  "sv_sessions (av_db (fail_login en ovf now uid u n ip s)) = sv_sessions (av_db s)"
  "sv_users (av_db (fail_login en ovf now uid u n ip s)) = sv_users (av_db s)"
  by (simp_all add: fail_login_def)

lemma login_check_db [simp]:
  "sv_sessions (av_db (snd (login_check en cfg now q h s))) = sv_sessions (av_db s)"
  "sv_users (av_db (snd (login_check en cfg now q h s))) = sv_users (av_db s)"
  by (simp_all add: login_check_def Let_def split: prod.splits)

text \<open>The idle and the absolute lifetime a sign-in asks for.\<close>

definition idle_of :: "auth_config \<Rightarrow> loginRequest \<Rightarrow> int" where
  "idle_of cfg q = (if lq_rememberMe q then ac_rememberIdleTimeout cfg else ac_idleTimeout cfg)"

definition absolute_of :: "auth_config \<Rightarrow> loginRequest \<Rightarrow> int" where
  "absolute_of cfg q = (if lq_rememberMe q then ac_rememberAbsoluteTimeout cfg else ac_absoluteTimeout cfg)"

definition new_session :: "auth_env \<Rightarrow> auth_config \<Rightarrow> 8 word list \<Rightarrow> int \<Rightarrow> loginRequest \<Rightarrow> req_header \<Rightarrow> db_user \<Rightarrow> db_session" where
  "new_session en cfg bs now q h u =
     \<lparr>ses_id = hex bs, ses_userId = usr_id u, ses_userAgent = rh_userAgent h, ses_expiresAt = now + idle_of cfg q,
      ses_absoluteExpiresAt = now + absolute_of cfg q, ses_lastSeenAt = now, ses_createdAt = en_timestamp en\<rparr>"

lemma login_finish_cases:
  assumes "login_finish en cfg ovf bs now q h s = (res, s')"
  shows "sv_users (av_db s') = sv_users (av_db s)
     \<and> (case res of
          Inl e \<Rightarrow> sv_sessions (av_db s') = sv_sessions (av_db s)
        | Inr (resp, cookie) \<Rightarrow>
            \<exists>u \<in> set (sv_users (av_db s)). usr_username u = lq_username q \<and> en_matches en (usr_passwordHash u) (lq_password q)
              \<and> resp = \<lparr>lr_username = usr_username u, lr_role = usr_role u\<rparr>
              \<and> hex bs \<notin> ses_id ` set (sv_sessions (av_db s))
              \<and> sv_sessions (av_db s') = sv_sessions (av_db s) @ [new_session en cfg bs now q h u]
              \<and> cookie = formatSessionCookie (hex bs) (idle_of cfg q div second) (ac_secureCookies cfg) (rh_forwardedProto h))"
proof (cases "en_fails en QGetUserByUsername \<or> List.find (\<lambda>u. usr_username u = lq_username q) (sv_users (av_db s)) = None")
  case True
  then show ?thesis using assms by (cases "en_fails en QGetUserByUsername") (auto simp: login_finish_def Let_def)
next
  case False
  then obtain u where u: "List.find (\<lambda>u. usr_username u = lq_username q) (sv_users (av_db s)) = Some u" by auto
  then have mem: "u \<in> set (sv_users (av_db s))" "usr_username u = lq_username q"
    by (auto simp: find_Some_iff intro: nth_mem)
  show ?thesis
  proof (cases "en_matches en (usr_passwordHash u) (lq_password q)
      \<and> createSession en (new_session en cfg bs now q h u) (av_db s) \<noteq> None")
    case True
    then show ?thesis
      using assms False u mem
      by (auto simp: login_finish_def Let_def issueSession_def createSession_def new_session_def idle_of_def absolute_of_def
          intro!: bexI [of _ u] split: if_splits)
  next
    case no: False
    then show ?thesis
      using assms False u
      by (auto simp: login_finish_def Let_def issueSession_def createSession_def new_session_def idle_of_def absolute_of_def
          split: if_splits)
  qed
qed

section \<open>Properties\<close>

text \<open>A session that was appended under a new id belongs to its user until it expires.\<close>

lemma new_session_user:
  assumes "db_keys d" "u \<in> set (sv_users d)" "sv_users d' = sv_users d"
    and "sv_sessions d' = sv_sessions d @ [new_session en cfg bs now q h u]" "hex bs \<notin> ses_id ` set (sv_sessions d)"
    and "parseSessionCookie cookie = hex bs" "bs \<noteq> []" "\<not> fails QGetSession" "\<not> fails QGetUser"
    and "t \<le> now + idle_of cfg q" "t \<le> now + absolute_of cfg q"
  shows "session_user fails t cookie d' = Some u"
proof -
  let ?n = "new_session en cfg bs now q h u"
  have "List.find (\<lambda>x. ses_id x = ses_id ?n) (sv_sessions d') = Some ?n"
    using assms(1,4,5) by (intro find_key) (auto simp: db_keys_def new_session_def)
  moreover have "List.find (\<lambda>x. usr_id x = usr_id u) (sv_users d') = Some u"
    using assms(1,2,3) by (intro find_key) (auto simp: db_keys_def)
  ultimately show ?thesis using assms by (simp add: session_user_def new_session_def)
qed

text \<open>
  C4: Signing in opens a session for exactly the caller who knows the password. Whatever the state
  of the limiter and whichever queries fail: a refused sign-in opens no session. An accepted one is
  for a user of that name whose hash matches the password, answers the name and role of that user,
  and adds one session, whose cookie, when the browser sends it back, the interceptor takes for
  that user, until the idle or the absolute lifetime of the kind of session asked for has passed.
\<close>

theorem login_opens_session:
  assumes "db_keys (av_db s)" and "length bs = 32"
    and "t \<le> now1 + idle_of cfg q" and "t \<le> now1 + absolute_of cfg q"
    and "\<not> fails QGetSession" and "\<not> fails QGetUser"
  shows "case loginRpc en cfg ovf bs now now1 q h s of
     (Inl e, s') \<Rightarrow> sv_sessions (av_db s') = sv_sessions (av_db s)
   | (Inr (resp, cookie), s') \<Rightarrow>
       (\<exists>u \<in> set (sv_users (av_db s)). usr_username u = lq_username q \<and> en_matches en (usr_passwordHash u) (lq_password q)
          \<and> resp = \<lparr>lr_username = usr_username u, lr_role = usr_role u\<rparr>
          \<and> length (sv_sessions (av_db s')) = Suc (length (sv_sessions (av_db s)))
          \<and> session_user fails t (sent_back cookie) (av_db s') = Some u)"
proof (cases "login_check en cfg now q h s")
  case (Pair r s1)
  have same: "sv_sessions (av_db s1) = sv_sessions (av_db s)" "sv_users (av_db s1) = sv_users (av_db s)"
    using login_check_db [of en cfg now q h s] Pair by simp_all
  then have keys: "db_keys (av_db s1)" using assms(1) by (simp add: db_keys_def)
  have bs: "bs \<noteq> []" using assms(2) by auto
  show ?thesis
  proof (cases r)
    case (Some e)
    then show ?thesis using Pair same by (simp add: loginRpc_def)
  next
    case None
    obtain res s' where f: "login_finish en cfg ovf bs now1 q h s1 = (res, s')" by (cases "login_finish en cfg ovf bs now1 q h s1")
    note c = login_finish_cases [OF f]
    have run: "loginRpc en cfg ovf bs now now1 q h s = (res, s')" using Pair None f by (simp add: loginRpc_def)
    show ?thesis
    proof (cases res)
      case (Inl e)
      then show ?thesis using run c same by simp
    next
      case (Inr rc)
      obtain resp cookie where rc: "rc = (resp, cookie)" by (cases rc)
      from c Inr rc obtain u where u: "u \<in> set (sv_users (av_db s1))" "usr_username u = lq_username q"
          "en_matches en (usr_passwordHash u) (lq_password q)" "resp = \<lparr>lr_username = usr_username u, lr_role = usr_role u\<rparr>"
          "hex bs \<notin> ses_id ` set (sv_sessions (av_db s1))" "sv_users (av_db s') = sv_users (av_db s1)"
          "sv_sessions (av_db s') = sv_sessions (av_db s1) @ [new_session en cfg bs now1 q h u]"
          "cookie = formatSessionCookie (hex bs) (idle_of cfg q div second) (ac_secureCookies cfg) (rh_forwardedProto h)"
        by auto
      have "parseSessionCookie (sent_back cookie) = hex bs" using issued_cookie [OF bs] u(8) by simp
      then have "session_user fails t (sent_back cookie) (av_db s') = Some u"
        using new_session_user [OF keys u(1,6,7,5) _ bs] assms(3-6) by blast
      then show ?thesis using run Inr rc u same by (auto intro!: bexI [of _ u])
    qed
  qed
qed

text \<open>A deployment for concrete runs.\<close>

definition sample_cfg :: auth_config where
  "sample_cfg =
     \<lparr>ac_idleTimeout = 168 * 60 * minute, ac_absoluteTimeout = 720 * 60 * minute, ac_rememberIdleTimeout = 720 * 60 * minute,
      ac_rememberAbsoluteTimeout = 2160 * 60 * minute, ac_secureCookies = ''auto'', ac_trustedProxy = False, ac_breachedCheck = False\<rparr>"

definition sample_env :: auth_env where
  "sample_env =
     \<lparr>en_matches = (\<lambda>hash p. hash = CHR ''#'' # p), en_hash = (\<lambda>p. Inr (CHR ''#'' # p)), en_breached = (\<lambda>_. False),
      en_splitHostPort = (\<lambda>a. Some (takeWhile (\<lambda>c. c \<noteq> CHR '':'') a)), en_fails = (\<lambda>_. False), en_dbtext = (\<lambda>_. []), en_timestamp = 0, en_eventId = 1,
      en_timestamppb = (\<lambda>t. \<lparr>ts_seconds = t div second, ts_nanos = t mod second\<rparr>)\<rparr>"

definition sample_header :: req_header where
  "sample_header =
     \<lparr>rh_cookie = [], rh_userAgent = ''agent'', rh_forwardedFor = None, rh_forwardedProto = [], rh_peer = ''10.0.0.1:4000''\<rparr>"

definition sample_service :: auth_service where
  "sample_service =
     \<lparr>av_db = \<lparr>sv_sessions = [],
               sv_users = [\<lparr>usr_id = 1, usr_username = ''root'', usr_passwordHash = ''#correct horse'', usr_role = ''admin''\<rparr>],
               sv_authEvents = [], sv_audit = \<lparr>settings_rows = [], audit_logs = []\<rparr>\<rparr>,
      av_limiter = newRateLimiter\<rparr>"

definition sample_request :: "string \<Rightarrow> loginRequest" where
  "sample_request p = \<lparr>lq_username = ''root'', lq_password = p, lq_rememberMe = False\<rparr>"

definition sample_login :: "string \<Rightarrow> (connect_error + loginResponse \<times> string) \<times> auth_service" where
  "sample_login p =
     loginRpc sample_env sample_cfg 0 (replicate 32 255) 0 1 (sample_request p) sample_header sample_service"

theorem login_opens_session_witness:
  "case sample_login ''correct horse'' of
     (Inl e, s') \<Rightarrow> False
   | (Inr (resp, cookie), s') \<Rightarrow> lr_role resp = ''admin'' \<and> session_user (\<lambda>_. False) minute (sent_back cookie) (av_db s') \<noteq> None"
proof -
  let ?q = "sample_request ''correct horse''"
  have keys: "db_keys (av_db sample_service)" by code_simp
  have len: "length (replicate 32 (255 :: 8 word)) = 32" by simp
  have idle: "minute \<le> 1 + idle_of sample_cfg ?q" by code_simp
  have cap: "minute \<le> 1 + absolute_of sample_cfg ?q" by code_simp
  note opened = login_opens_session [OF keys len idle cap, where fails = "\<lambda>_. False" and en = sample_env and ovf = 0
      and now = 0 and h = sample_header]
  have "\<not> isl (fst (sample_login ''correct horse''))"
    by (simp add: sample_login_def loginRpc_def login_check_def login_finish_def issueSession_def createSession_def
        sample_env_def sample_service_def sample_request_def check_def evictExpired_def evict_def checkKey_def
        newRateLimiter_def Let_def)
  then obtain resp cookie s' where r: "sample_login ''correct horse'' = (Inr (resp, cookie), s')"
    by (metis isl_def obj_sumE prod.collapse)
  have users: "list_all (\<lambda>u. usr_role u = ''admin'') (sv_users (av_db sample_service))" by code_simp
  from opened r users show ?thesis by (auto simp: sample_login_def list_all_iff)
qed

section \<open>Sessions end\<close>

lemma recordAuthEvent_simps [simp]:
  "sv_sessions (recordAuthEvent en uid n e x d) = sv_sessions d" "sv_users (recordAuthEvent en uid n e x d) = sv_users d"
  by (simp_all add: recordAuthEvent_def)

lemma find_filter_none: "List.find P (filter (\<lambda>x. \<not> P x) xs) = None"
  by (auto simp: find_None_iff)

text \<open>After signing out the cookie is no session any more, unless the deletion failed.\<close>

lemma logout_ends:
  assumes "\<not> en_fails en QDeleteSession" "cx = user_ctx u cookie"
  shows "session_user fails t cookie (snd (logoutRpc en cfg cx h d)) = None"
  using assms find_filter_none [of "\<lambda>x. ses_id x = parseSessionCookie cookie" "sv_sessions d"]
  by (auto simp: logoutRpc_def user_ctx_def Let_def session_user_def deleteSession_def)

text \<open>A user revokes only own sessions, and of those exactly the one named.\<close>

lemma revoke_own:
  assumes "revokeSessionRpc en cx q d = (res, d')" "cx_user cx = Some u"
  shows "sv_sessions d' = (case res of Inl e \<Rightarrow> sv_sessions d
       | Inr _ \<Rightarrow> filter (\<lambda>x. \<not> (ses_id x = rsq_sessionId q \<and> ses_userId x = usr_id u)) (sv_sessions d))"
  using assms by (auto simp: revokeSessionRpc_def Let_def split: if_splits)

text \<open>Revoking the others leaves the current session and those of other users, and counts the rest.\<close>

lemma revoke_others:
  assumes "revokeAllOtherSessionsRpc en (user_ctx u cookie) d = (Inr n, d')"
  shows "sv_sessions d' = filter (\<lambda>x. ses_userId x = usr_id u \<longrightarrow> ses_id x = parseSessionCookie cookie) (sv_sessions d)
     \<and> length (sv_sessions d) = length (sv_sessions d') + n"
proof -
  let ?hit = "\<lambda>x. ses_userId x = usr_id u \<and> ses_id x \<noteq> parseSessionCookie cookie"
  from assms have d': "sv_sessions d' = filter (\<lambda>x. \<not> ?hit x) (sv_sessions d)" "n = length (filter ?hit (sv_sessions d))"
    by (auto simp: revokeAllOtherSessionsRpc_def user_ctx_def Let_def split: if_splits)
  then show ?thesis using sum_length_filter_compl [of ?hit "sv_sessions d"] by (simp add: imp_conv_disj disj_commute)
qed

text \<open>The purge changes no answer: it only drops what the interceptor would refuse.\<close>

lemma purge_invisible:
  assumes "db_keys d" "now \<le> t"
  shows "session_user fails t cookie (purgeExpiredSessions now d) = session_user fails t cookie d"
proof (cases "List.find (\<lambda>x. ses_id x = parseSessionCookie cookie) (sv_sessions d)")
  case None
  then have "List.find (\<lambda>x. ses_id x = parseSessionCookie cookie) (sv_sessions (purgeExpiredSessions now d)) = None"
    by (auto simp: find_None_iff purgeExpiredSessions_def)
  with None show ?thesis by (simp add: session_user_def Let_def)
next
  case (Some x)
  then have x: "x \<in> set (sv_sessions d)" "ses_id x = parseSessionCookie cookie"
    by (auto simp: find_Some_iff intro: nth_mem)
  let ?p = "\<lambda>y. \<not> (ses_expiresAt y < now \<or> ses_absoluteExpiresAt y < now)"
  have keys: "distinct (map ses_id (filter ?p (sv_sessions d)))" using assms(1) by (simp add: db_keys_def distinct_map_filter)
  show ?thesis
  proof (cases "?p x")
    case True
    then have "List.find (\<lambda>y. ses_id y = ses_id x) (filter ?p (sv_sessions d)) = Some x" using x keys by (intro find_key) auto
    then show ?thesis using Some x by (simp add: session_user_def Let_def purgeExpiredSessions_def)
  next
    case False
    have "List.find (\<lambda>y. ses_id y = ses_id x) (filter ?p (sv_sessions d)) = None"
      using False x(1) assms(1) by (auto simp: find_None_iff db_keys_def distinct_map dest!: inj_onD [of ses_id _ _ x])
    then show ?thesis using Some x False assms(2) by (auto simp: session_user_def Let_def purgeExpiredSessions_def)
  qed
qed

section \<open>Sliding\<close>

text \<open>
  The interceptor slides every session by the one idle timeout it was built with, the ordinary one:
  a session that was to be remembered keeps its long deadline at first and then only lives on from
  one ordinary timeout to the next. The cookie is not issued again, so the browser drops it at the
  first deadline whatever the server's says.
\<close>

lemma remembered_slides_short:
  assumes "\<not> fails QTouchSession" "s \<in> set (sv_sessions d)" "db_keys d"
    and "now > ses_expiresAt s - idleTimeout div 2" "now + idleTimeout \<le> ses_absoluteExpiresAt s"
  shows "\<exists>s' \<in> set (sv_sessions (slideSession fails idleTimeout now s d)). ses_id s' = ses_id s \<and> ses_expiresAt s' = now + idleTimeout"
  using assms by (force simp: slideSession_def touchSession_def intro!: bexI [of _ "s\<lparr>ses_expiresAt := now + idleTimeout, ses_lastSeenAt := now\<rparr>"])

lemma slide_extends:
  assumes "0 < idleTimeout" "now > ses_expiresAt s - idleTimeout div 2" "ses_expiresAt s \<le> ses_absoluteExpiresAt s"
  shows "ses_expiresAt s \<le> min (now + idleTimeout) (ses_absoluteExpiresAt s)"
  using assms by auto

section \<open>The first administrator\<close>

text \<open>Only an empty installation can be set up, and then by one administrator.\<close>

lemma setup_once:
  assumes "setupAdminRpc en cfg q h d = (res, d')"
  shows "case res of
     Inl e \<Rightarrow> d' = d
   | Inr (name, role) \<Rightarrow> sv_users d = [] \<and> name = sar_username q \<and> role = adminRole
       \<and> length (sar_password q) \<ge> 12
       \<and> (\<exists>hash. en_hash en (sar_password q) = Inr hash
           \<and> sv_users d' = [\<lparr>usr_id = 1, usr_username = name, usr_passwordHash = hash, usr_role = role\<rparr>])
       \<and> sv_sessions d' = sv_sessions d"
  using assms
  by (auto simp: setupAdminRpc_def validate_def createUser_def minPasswordLength_def Let_def split: if_splits option.splits sum.splits)

end
