(* ===== verification/Server_Logs.thy ===== *)
theory Server_Logs
  imports Wire_Messages "HOL-Library.AList"
begin

text \<open>
  The logging of the server (\<open>internal/logging/buffer.go\<close>, \<open>service.go\<close>): the ring buffer of the
  latest entries, the handler that copies every record of the structured logger into it, and the
  two procedures of the log service. Case is folded as the frontend's \<open>toLowerCase\<close> does.

  Arguments are whether a level is enabled (the handler's threshold), the text of the current time,
  and the encoding of the remaining attributes as JSON (\<open>None\<close> when it fails).
\<close>

section \<open>The ring buffer\<close>

record ringBuffer =
  rb_capacity :: nat
  rb_entries :: "logEntry list"
  rb_cursor :: nat

definition newRingBuffer :: "nat \<Rightarrow> ringBuffer" where
  "newRingBuffer capacity = \<lparr>rb_capacity = capacity, rb_entries = [], rb_cursor = 0\<rparr>"

text \<open>
  The assignment is to a position that exists whenever the capacity is positive (the server's is
  1000).
\<close>

definition add :: "logEntry \<Rightarrow> ringBuffer \<Rightarrow> ringBuffer" where
  "add entry rb =
     (if length (rb_entries rb) < rb_capacity rb then rb\<lparr>rb_entries := rb_entries rb @ [entry]\<rparr>
      else rb\<lparr>rb_entries := (rb_entries rb)[rb_cursor rb := entry], rb_cursor := (rb_cursor rb + 1) mod rb_capacity rb\<rparr>)"

definition chronological :: "ringBuffer \<Rightarrow> logEntry list" where
  "chronological rb =
     (if length (rb_entries rb) < rb_capacity rb then rb_entries rb
      else map (\<lambda>i. rb_entries rb ! ((rb_cursor rb + i) mod rb_capacity rb)) [0..<rb_capacity rb])"

definition matches :: "string \<Rightarrow> string \<Rightarrow> logEntry \<Rightarrow> bool" where
  "matches levelFilter searchQuery entry \<longleftrightarrow>
     \<not> (levelFilter \<noteq> [] \<and> toLowerCase (le_level entry) \<noteq> toLowerCase levelFilter)
     \<and> (searchQuery = []
        \<or> str_includes (toLowerCase (le_message entry)) (toLowerCase searchQuery)
        \<or> str_includes (toLowerCase (le_component entry)) (toLowerCase searchQuery)
        \<or> str_includes (toLowerCase (le_metadata entry)) (toLowerCase searchQuery))"

text \<open>The loop from the newest entry to the oldest, which ends early once there are enough.\<close>

fun collect :: "int \<Rightarrow> (logEntry \<Rightarrow> bool) \<Rightarrow> logEntry list \<Rightarrow> logEntry list \<Rightarrow> logEntry list" where
  "collect limit p [] filtered = filtered"
| "collect limit p (entry # rest) filtered =
     (if \<not> p entry then collect limit p rest filtered
      else (let filtered = filtered @ [entry]
            in if limit > 0 \<and> int (length filtered) \<ge> limit then filtered else collect limit p rest filtered))"

definition get :: "int \<Rightarrow> string \<Rightarrow> string \<Rightarrow> ringBuffer \<Rightarrow> logEntry list" where
  "get limit levelFilter searchQuery rb =
     collect limit (matches levelFilter searchQuery) (rev (chronological rb)) []"

section \<open>The handler\<close>

datatype attr_val = StrVal string | OtherVal string

datatype slog_level = LevelDebug | LevelInfo | LevelWarn | LevelError

fun level_string :: "slog_level \<Rightarrow> string" where
  "level_string LevelDebug = ''DEBUG''"
| "level_string LevelInfo = ''INFO''"
| "level_string LevelWarn = ''WARN''"
| "level_string LevelError = ''ERROR''"

type_synonym attrs = "(string \<times> attr_val) list"

text \<open>The map of attributes, by key; the encoding sorts it, so its order does not matter.\<close>

definition str_attr :: "string \<Rightarrow> attrs \<Rightarrow> string option" where
  "str_attr k m = (case map_of m k of Some (StrVal v) \<Rightarrow> Some v | _ \<Rightarrow> None)"

definition take_attr :: "string \<Rightarrow> string option \<Rightarrow> attrs \<Rightarrow> attrs" where
  "take_attr k v m = (case v of None \<Rightarrow> m | Some _ \<Rightarrow> AList.delete k m)"

definition handled_entry ::
  "(attrs \<Rightarrow> string option) \<Rightarrow> attrs \<Rightarrow> string \<Rightarrow> slog_level \<Rightarrow> string \<Rightarrow> attrs \<Rightarrow> logEntry" where
  "handled_entry marshal handlerAttrs now level message recordAttrs =
     (let m0 = foldl (\<lambda>m (k, v). AList.update k v m) [] (handlerAttrs @ recordAttrs);
          comp = str_attr ''component'' m0;
          modl = (if comp = None then str_attr ''module'' m0 else None);
          component = (case comp of Some c \<Rightarrow> c | None \<Rightarrow> (case modl of Some c \<Rightarrow> c | None \<Rightarrow> []));
          m1 = take_attr ''module'' modl (take_attr ''component'' comp m0);
          cl = str_attr ''client_level'' m1;
          levelStr = (case cl of Some l \<Rightarrow> l | None \<Rightarrow> level_string level);
          m2 = take_attr ''client_level'' cl m1;
          ct = str_attr ''client_timestamp'' m2;
          timestamp = (case ct of Some t \<Rightarrow> t | None \<Rightarrow> now);
          m3 = AList.delete ''source'' (take_attr ''client_timestamp'' ct m2);
          metaStr = (if m3 = [] then [] else case marshal m3 of Some b \<Rightarrow> b | None \<Rightarrow> [])
      in \<lparr>le_level = levelStr, le_message = message, le_timestamp = timestamp, le_component = component,
          le_metadata = metaStr\<rparr>)"

definition handle ::
  "(attrs \<Rightarrow> string option) \<Rightarrow> attrs \<Rightarrow> string \<Rightarrow> slog_level \<Rightarrow> string \<Rightarrow> attrs \<Rightarrow> ringBuffer \<Rightarrow> ringBuffer" where
  "handle marshal handlerAttrs now level message recordAttrs rb =
     add (handled_entry marshal handlerAttrs now level message recordAttrs) rb"

section \<open>The service\<close>

definition getSystemLogs :: "getSystemLogsRequest \<Rightarrow> ringBuffer \<Rightarrow> logEntry list" where
  "getSystemLogs q rb =
     (let limit = (if gsl_limit q \<le> 0 \<or> gsl_limit q > 500 then 100 else gsl_limit q)
      in get limit (gsl_levelFilter q) (gsl_searchQuery q) rb)"

definition entry_level :: "string \<Rightarrow> slog_level" where
  "entry_level l =
     (let u = toUpperCase l in
      if u = ''DEBUG'' then LevelDebug
      else if u = ''INFO'' then LevelInfo
      else if u = ''WARN'' \<or> u = ''WARNING'' then LevelWarn
      else if u = ''ERROR'' then LevelError
      else LevelInfo)"

definition entry_attrs :: "clientLogEntry \<Rightarrow> attrs" where
  "entry_attrs entry =
     [(''source'', StrVal ''frontend''), (''client_level'', StrVal (cle_level entry)),
      (''client_timestamp'', StrVal (cle_timestamp entry))]
     @ (if cle_component entry \<noteq> [] then [(''component'', StrVal (cle_component entry))] else [])
     @ (if cle_metadata entry \<noteq> [] then [(''metadata'', StrVal (cle_metadata entry))] else [])"

text \<open>The service's logger carries the attribute \<open>module\<close> it was made with (\<open>cmd/serve.go\<close>).\<close>

definition service_attrs :: attrs where
  "service_attrs = [(''module'', StrVal ''logging'')]"

definition logger_log ::
  "(slog_level \<Rightarrow> bool) \<Rightarrow> (attrs \<Rightarrow> string option) \<Rightarrow> string \<Rightarrow> clientLogEntry \<Rightarrow> ringBuffer \<Rightarrow> ringBuffer" where
  "logger_log enabled marshal now entry rb =
     (if enabled (entry_level (cle_level entry))
      then handle marshal service_attrs now (entry_level (cle_level entry)) (cle_message entry) (entry_attrs entry) rb
      else rb)"

definition syncLogs ::
  "(slog_level \<Rightarrow> bool) \<Rightarrow> (attrs \<Rightarrow> string option) \<Rightarrow> string \<Rightarrow> syncLogsRequest \<Rightarrow> ringBuffer \<Rightarrow>
     syncLogsResponse \<times> ringBuffer" where
  "syncLogs enabled marshal now q rb =
     (let (n, rb') = fold (\<lambda>entry (n, rb). (n + 1, logger_log enabled marshal now entry rb)) (slq_entries q) (0, rb)
      in (\<lparr>sl_processedCount = (n + 2 ^ 31) mod 2 ^ 32 - 2 ^ 31\<rparr>, rb'))"

section \<open>The buffer holds the latest entries\<close>

definition latest :: "nat \<Rightarrow> 'a list \<Rightarrow> 'a list" where
  "latest n xs = drop (length xs - n) xs"

text \<open>Positions run around: the oldest entry is at the cursor once the buffer is full.\<close>

definition ring_ok :: "ringBuffer \<Rightarrow> bool" where
  "ring_ok rb \<longleftrightarrow>
     0 < rb_capacity rb \<and> length (rb_entries rb) \<le> rb_capacity rb
     \<and> (if length (rb_entries rb) < rb_capacity rb then rb_cursor rb = 0 else rb_cursor rb < rb_capacity rb)"

lemma ring_ok_new: "0 < n \<Longrightarrow> ring_ok (newRingBuffer n)"
  by (simp add: ring_ok_def newRingBuffer_def)

lemma ring_ok_add: "ring_ok rb \<Longrightarrow> ring_ok (add e rb)"
  by (auto simp: ring_ok_def add_def)

lemma rb_capacity_add [simp]: "rb_capacity (add e rb) = rb_capacity rb"
  by (simp add: add_def)

lemma chronological_add:
  assumes "ring_ok rb"
  shows "chronological (add e rb) = latest (rb_capacity rb) (chronological rb @ [e])"
proof (cases "length (rb_entries rb) < rb_capacity rb")
  case True
  then have cur: "rb_cursor rb = 0" using assms by (simp add: ring_ok_def)
  show ?thesis
  proof (cases "Suc (length (rb_entries rb)) < rb_capacity rb")
    case True
    then show ?thesis by (simp add: chronological_def add_def latest_def)
  next
    case False
    with True have n: "rb_capacity rb = Suc (length (rb_entries rb))" by simp
    have "map (\<lambda>i. (rb_entries rb @ [e]) ! (i mod Suc (length (rb_entries rb)))) [0..<Suc (length (rb_entries rb))] = rb_entries rb @ [e]"
      by (rule nth_equalityI) (auto simp del: upt_Suc)
    then show ?thesis using n cur by (simp add: chronological_def add_def latest_def del: upt_Suc)
  qed
next
  case False
  let ?n = "rb_capacity rb" and ?c = "rb_cursor rb" and ?xs = "rb_entries rb"
  have ok: "0 < ?n" "length ?xs = ?n" "?c < ?n" using assms False by (auto simp: ring_ok_def)
  have "chronological (add e rb) = map (\<lambda>i. ?xs[?c := e] ! (((?c + 1) mod ?n + i) mod ?n)) [0..<?n]"
    using False ok by (simp add: chronological_def add_def)
  also have "\<dots> = tl (map (\<lambda>i. ?xs ! ((?c + i) mod ?n)) [0..<?n]) @ [e]"
  proof (rule nth_equalityI)
    fix i assume "i < length (map (\<lambda>i. ?xs[?c := e] ! (((?c + 1) mod ?n + i) mod ?n)) [0..<?n])"
    then have i: "i < ?n" by simp
    have shift: "((?c + 1) mod ?n + i) mod ?n = (?c + Suc i) mod ?n" by (simp add: mod_add_left_eq)
    show "map (\<lambda>i. ?xs[?c := e] ! (((?c + 1) mod ?n + i) mod ?n)) [0..<?n] ! i
        = (tl (map (\<lambda>i. ?xs ! ((?c + i) mod ?n)) [0..<?n]) @ [e]) ! i"
    proof (cases "Suc i < ?n")
      case True
      have "(?c + Suc i) mod ?n \<noteq> ?c"
        using True ok by (cases "?c + Suc i < ?n") (auto simp: mod_if)
      then show ?thesis using True i shift ok by (simp add: nth_append nth_tl)
    next
      case False
      then have last: "Suc i = ?n" using i by simp
      then have "(?c + Suc i) mod ?n = ?c" using ok by simp
      then show ?thesis using last i shift ok by (simp add: nth_append)
    qed
  qed (use ok in simp)
  also have "\<dots> = latest ?n (chronological rb @ [e])"
    using False ok by (simp add: chronological_def latest_def drop_Suc)
  finally show ?thesis .
qed

lemma latest_snoc: "latest n (latest n xs @ [x]) = latest n (xs @ [x])"
proof (cases "length xs < n")
  case False
  then have "Suc (length xs) - (length xs - n + n) + (length xs - n) = Suc (length xs) - n" by arith
  then show ?thesis by (simp add: latest_def)
qed (simp add: latest_def)

lemma chronological_fold:
  assumes "ring_ok rb"
  shows "ring_ok (fold add es rb) \<and> rb_capacity (fold add es rb) = rb_capacity rb
     \<and> chronological (fold add es rb) = latest (rb_capacity rb) (chronological rb @ es)"
proof (induction es rule: rev_induct)
  case Nil
  have "length (chronological rb) \<le> rb_capacity rb" using assms by (simp add: chronological_def ring_ok_def)
  then show ?case using assms by (simp add: latest_def)
next
  case (snoc e es)
  then show ?case using chronological_add ring_ok_add latest_snoc [of "rb_capacity rb" "chronological rb @ es" e] by simp
qed

lemma collect_take:
  "limit \<le> 0 \<or> int (length acc) < limit \<Longrightarrow>
     collect limit p es acc = (if limit > 0 then take (nat limit) (acc @ filter p es) else acc @ filter p es)"
proof (induction es arbitrary: acc)
  case (Cons e es)
  show ?case
  proof (cases "p e \<and> limit > 0 \<and> int (length (acc @ [e])) \<ge> limit")
    case True
    then have "nat limit = Suc (length acc)" using Cons.prems by auto
    then show ?thesis using True by simp
  next
    case False
    then show ?thesis using Cons.prems Cons.IH [of acc] Cons.IH [of "acc @ [e]"] by (auto simp: Let_def)
  qed
qed auto

section \<open>The entries of the clients\<close>

text \<open>
  What is stored for an entry of a client: its own level, text and time; its component, or the
  module of the service when it names none; as metadata the JSON of its metadata, together with the
  module when it does name a component.
\<close>

definition client_metadata :: "clientLogEntry \<Rightarrow> attrs" where
  "client_metadata e =
     (if cle_component e \<noteq> [] then [(''module'', StrVal ''logging'')] else [])
     @ (if cle_metadata e \<noteq> [] then [(''metadata'', StrVal (cle_metadata e))] else [])"

definition client_entry :: "(attrs \<Rightarrow> string option) \<Rightarrow> clientLogEntry \<Rightarrow> logEntry" where
  "client_entry marshal e =
     \<lparr>le_level = cle_level e, le_message = cle_message e, le_timestamp = cle_timestamp e,
      le_component = (if cle_component e \<noteq> [] then cle_component e else ''logging''),
      le_metadata = (if client_metadata e = [] then []
                     else case marshal (client_metadata e) of Some b \<Rightarrow> b | None \<Rightarrow> [])\<rparr>"

lemma handled_client:
  "handled_entry marshal service_attrs now level (cle_message e) (entry_attrs e) = client_entry marshal e"
proof -
  define m0 where "m0 = foldl (\<lambda>m (k, v). AList.update k v m) [] (service_attrs @ entry_attrs e)"
  have m0: "m0 = [(''module'', StrVal ''logging''), (''source'', StrVal ''frontend''), (''client_level'', StrVal (cle_level e)),
      (''client_timestamp'', StrVal (cle_timestamp e))]
     @ (if cle_component e \<noteq> [] then [(''component'', StrVal (cle_component e))] else [])
     @ (if cle_metadata e \<noteq> [] then [(''metadata'', StrVal (cle_metadata e))] else [])"
    by (simp add: m0_def service_attrs_def entry_attrs_def)
  have comp: "str_attr ''component'' m0 = (if cle_component e \<noteq> [] then Some (cle_component e) else None)"
    and modl: "str_attr ''module'' m0 = Some ''logging''"
    by (simp_all add: m0 str_attr_def)
  define m1 where "m1 = take_attr ''module'' (if str_attr ''component'' m0 = None then str_attr ''module'' m0 else None)
      (take_attr ''component'' (str_attr ''component'' m0) m0)"
  have m1: "m1 = (if cle_component e \<noteq> [] then [(''module'', StrVal ''logging'')] else [])
     @ [(''source'', StrVal ''frontend''), (''client_level'', StrVal (cle_level e)), (''client_timestamp'', StrVal (cle_timestamp e))]
     @ (if cle_metadata e \<noteq> [] then [(''metadata'', StrVal (cle_metadata e))] else [])"
    unfolding m1_def comp modl by (simp add: m0 take_attr_def)
  have cl: "str_attr ''client_level'' m1 = Some (cle_level e)" by (simp add: m1 str_attr_def)
  define m2 where "m2 = take_attr ''client_level'' (str_attr ''client_level'' m1) m1"
  have m2: "m2 = (if cle_component e \<noteq> [] then [(''module'', StrVal ''logging'')] else [])
     @ [(''source'', StrVal ''frontend''), (''client_timestamp'', StrVal (cle_timestamp e))]
     @ (if cle_metadata e \<noteq> [] then [(''metadata'', StrVal (cle_metadata e))] else [])"
    unfolding m2_def cl by (simp add: m1 take_attr_def)
  have ct: "str_attr ''client_timestamp'' m2 = Some (cle_timestamp e)" by (simp add: m2 str_attr_def)
  have rest: "AList.delete ''source'' (take_attr ''client_timestamp'' (str_attr ''client_timestamp'' m2) m2) = client_metadata e"
    unfolding ct by (simp add: m2 take_attr_def client_metadata_def)
  show ?thesis
    unfolding handled_entry_def client_entry_def Let_def m0_def [symmetric]
    unfolding m1_def [symmetric] unfolding m2_def [symmetric] unfolding rest unfolding cl ct comp modl
    by simp
qed

lemma logger_log_client:
  "logger_log enabled marshal now e rb =
     (if enabled (entry_level (cle_level e)) then add (client_entry marshal e) rb else rb)"
  by (simp add: logger_log_def handle_def handled_client)

definition accepted :: "(slog_level \<Rightarrow> bool) \<Rightarrow> (attrs \<Rightarrow> string option) \<Rightarrow> clientLogEntry list \<Rightarrow> logEntry list" where
  "accepted enabled marshal es = map (client_entry marshal) (filter (\<lambda>e. enabled (entry_level (cle_level e))) es)"

lemma sync_fold:
  "fold (\<lambda>entry (n, rb). (n + 1, logger_log enabled marshal now entry rb)) es (n, rb)
     = (n + int (length es), fold add (accepted enabled marshal es) rb)"
  by (induction es arbitrary: n rb) (auto simp: accepted_def logger_log_client)

lemma syncLogs_effect:
  assumes "length (slq_entries q) < 2 ^ 31"
  shows "syncLogs enabled marshal now q rb =
     (\<lparr>sl_processedCount = int (length (slq_entries q))\<rparr>, fold add (accepted enabled marshal (slq_entries q)) rb)"
proof -
  have "int (length (slq_entries q)) < 2 ^ 31" using assms by simp
  then show ?thesis by (simp add: syncLogs_def sync_fold)
qed

section \<open>Properties\<close>

text \<open>What happens to the buffer: the server's own records, and batches of the clients.\<close>

datatype log_op = OwnRecord attrs slog_level string attrs | ClientBatch syncLogsRequest

fun log_step ::
  "(slog_level \<Rightarrow> bool) \<Rightarrow> (attrs \<Rightarrow> string option) \<Rightarrow> string \<Rightarrow> log_op \<Rightarrow> ringBuffer \<Rightarrow> ringBuffer" where
  "log_step enabled marshal now (OwnRecord hs level msg rs) rb =
     (if enabled level then handle marshal hs now level msg rs rb else rb)"
| "log_step enabled marshal now (ClientBatch q) rb = snd (syncLogs enabled marshal now q rb)"

fun entries_of ::
  "(slog_level \<Rightarrow> bool) \<Rightarrow> (attrs \<Rightarrow> string option) \<Rightarrow> string \<Rightarrow> log_op \<Rightarrow> logEntry list" where
  "entries_of enabled marshal now (OwnRecord hs level msg rs) =
     (if enabled level then [handled_entry marshal hs now level msg rs] else [])"
| "entries_of enabled marshal now (ClientBatch q) = accepted enabled marshal (slq_entries q)"

lemma log_step_adds: "log_step enabled marshal now op rb = fold add (entries_of enabled marshal now op) rb"
  by (cases op) (simp_all add: handle_def syncLogs_def sync_fold)

lemma log_steps_add:
  "fold (log_step enabled marshal now) ops rb = fold add (concat (map (entries_of enabled marshal now) ops)) rb"
  by (induction ops arbitrary: rb) (simp_all add: log_step_adds)

definition system_limit :: "getSystemLogsRequest \<Rightarrow> nat" where
  "system_limit q = (if 0 < gsl_limit q \<and> gsl_limit q \<le> 500 then nat (gsl_limit q) else 100)"

text \<open>
  C3: The system logs are the latest entries, newest first, whatever was logged before. After any
  sequence of records of the server and batches of the clients, a request is answered by those of
  the last \<open>n\<close> entries (\<open>n\<close> the capacity) that pass its level and search filter, newest first, at
  most as many as it asks for (a hundred when it asks for none, or for more than 500). An entry of
  a client appears with its own level, text, time and component; every entry of a batch is counted
  as processed, and all at an enabled level are stored, in order.
\<close>

theorem system_logs_latest:
  assumes "0 < n"
  shows "getSystemLogs q (fold (log_step enabled marshal now) ops (newRingBuffer n)) =
     take (system_limit q)
       (filter (matches (gsl_levelFilter q) (gsl_searchQuery q))
         (rev (latest n (concat (map (entries_of enabled marshal now) ops)))))"
proof -
  have "chronological (newRingBuffer n) = []" "rb_capacity (newRingBuffer n) = n"
    using assms by (simp_all add: chronological_def newRingBuffer_def)
  then have "chronological (fold (log_step enabled marshal now) ops (newRingBuffer n))
      = latest n (concat (map (entries_of enabled marshal now) ops))"
    using chronological_fold [OF ring_ok_new [OF assms]] by (simp add: log_steps_add)
  then show ?thesis by (simp add: getSystemLogs_def get_def collect_take system_limit_def Let_def)
qed

definition sample_batch :: syncLogsRequest where
  "sample_batch =
     \<lparr>slq_entries = map (\<lambda>(l, m). \<lparr>cle_level = l, cle_message = m, cle_timestamp = ''t'', cle_component = ''Console'', cle_metadata = []\<rparr>)
        [(''WARN'', ''one''), (''INFO'', ''two''), (''warn'', ''three''), (''WARN'', ''four'')]\<rparr>"

theorem system_logs_latest_witness:
  "map le_message (getSystemLogs \<lparr>gsl_limit = 5, gsl_levelFilter = ''Warn'', gsl_searchQuery = ''O''\<rparr>
      (fold (log_step (\<lambda>_. True) (\<lambda>_. None) []) [ClientBatch sample_batch] (newRingBuffer 3))) = [''four'', ''three'']"
proof -
  let ?q = "\<lparr>gsl_limit = 5, gsl_levelFilter = ''Warn'', gsl_searchQuery = ''O''\<rparr>"
  have "(0::nat) < 3" by simp
  note shown = system_logs_latest [OF this, of ?q "\<lambda>_. True" "\<lambda>_. None" "[]" "[ClientBatch sample_batch]"]
  have "map le_message (take (system_limit ?q) (filter (matches (gsl_levelFilter ?q) (gsl_searchQuery ?q))
      (rev (latest 3 (concat (map (entries_of (\<lambda>_. True) (\<lambda>_. None) []) [ClientBatch sample_batch])))))) = [''four'', ''three'']"
    by code_simp
  then show ?thesis by (simp only: shown)
qed

text \<open>An entry below the server's threshold is counted as processed and kept nowhere.\<close>

lemma disabled_dropped:
  "\<not> enabled LevelDebug \<Longrightarrow>
     syncLogs enabled marshal now \<lparr>slq_entries = [\<lparr>cle_level = ''DEBUG'', cle_message = m, cle_timestamp = t, cle_component = c, cle_metadata = d\<rparr>]\<rparr> rb
       = (\<lparr>sl_processedCount = 1\<rparr>, rb)"
proof -
  have "entry_level ''DEBUG'' = LevelDebug" by code_simp
  then show "\<not> enabled LevelDebug \<Longrightarrow> ?thesis" by (simp add: syncLogs_effect accepted_def)
qed

end
