(* ===== verification/Server_Settings.thy ===== *)
theory Server_Settings
  imports Server_Access "HOL-Library.AList"
begin

text \<open>
  The settings service of the server (\<open>internal/settings/service.go\<close>) and the sender of
  notifications that reads what it stores (\<open>internal/notification/gotify.go\<close>).

  Arguments are which queries fail and with what text, the HTTP client (\<open>newRequest\<close>: the text of
  the error for an address it cannot use; \<open>post\<close>: the status and body of the answer, or the text of
  the error), whether there is a Docker client, and its login to a
  registry (the text of the error, if there is one).
\<close>

section \<open>The service\<close>

definition checkAdmin :: "ctx \<Rightarrow> connect_error option" where
  "checkAdmin cx =
     (case cx_user cx of
        None \<Rightarrow> Some (NewError codeUnauthenticated ''unauthenticated'')
      | Some u \<Rightarrow>
          if usr_role u \<noteq> adminRole then Some (NewError codePermissionDenied ''admin privilege required'') else None)"

text \<open>The loop over the rows of the table.\<close>

definition setting_row :: "string \<times> string \<Rightarrow> getSettingsResponse \<Rightarrow> getSettingsResponse" where
  "setting_row row res =
     (let (k, v) = row in
      if k = ''gotify_url'' then res\<lparr>gs_gotifyUrl := v\<rparr>
      else if k = ''gotify_token'' then res\<lparr>gs_gotifyToken := v\<rparr>
      else if k = retentionSettingKey
      then (case atoi v of
              Some days \<Rightarrow> if isValidRetentionDays days then res\<lparr>gs_auditRetentionDays := days\<rparr> else res
            | None \<Rightarrow> res)
      else res)"

definition getSettingsRpc ::
  "failing \<Rightarrow> (db_query \<Rightarrow> string) \<Rightarrow> ctx \<Rightarrow> server_db \<Rightarrow> connect_error + getSettingsResponse" where
  "getSettingsRpc fails dbtext cx d =
     (case checkAdmin cx of
        Some e \<Rightarrow> Inl e
      | None \<Rightarrow>
          if fails QListSettings
          then Inl (NewError codeInternal (''failed to retrieve settings: '' @ dbtext QListSettings))
          else Inr (fold setting_row (settings_rows (sv_audit d))
                     \<lparr>gs_gotifyUrl = [], gs_gotifyToken = [], gs_auditRetentionDays = defaultRetentionDays\<rparr>))"

definition updateSetting :: "failing \<Rightarrow> string \<Rightarrow> string \<Rightarrow> server_db \<Rightarrow> server_db option" where
  "updateSetting fails k v d =
     (if fails (QUpdateSetting k) then None
      else Some (d\<lparr>sv_audit := (sv_audit d)\<lparr>settings_rows := AList.update k v (settings_rows (sv_audit d))\<rparr>\<rparr>))"

definition updateSettingsRpc ::
  "failing \<Rightarrow> (db_query \<Rightarrow> string) \<Rightarrow> ctx \<Rightarrow> updateSettingsRequest \<Rightarrow> server_db \<Rightarrow> (connect_error + unit) \<times> server_db" where
  "updateSettingsRpc fails dbtext cx q d =
     (case checkAdmin cx of
        Some e \<Rightarrow> (Inl e, d)
      | None \<Rightarrow>
          if \<not> isValidRetentionDays (us_auditRetentionDays q)
          then (Inl (NewError codeInvalidArgument ''audit_retention_days must be one of [7 30 90 180 365]''), d)
          else case updateSetting fails ''gotify_url'' (us_gotifyUrl q) d of
            None \<Rightarrow> (Inl (NewError codeInternal (''failed to save gotify_url: '' @ dbtext (QUpdateSetting ''gotify_url''))), d)
          | Some d1 \<Rightarrow>
              (case updateSetting fails ''gotify_token'' (us_gotifyToken q) d1 of
                 None \<Rightarrow> (Inl (NewError codeInternal (''failed to save gotify_token: '' @ dbtext (QUpdateSetting ''gotify_token''))), d1)
               | Some d2 \<Rightarrow>
                   (case updateSetting fails retentionSettingKey (string_of_int (us_auditRetentionDays q)) d2 of
                      None \<Rightarrow> (Inl (NewError codeInternal
                                  (''failed to save audit_retention_days: '' @ dbtext (QUpdateSetting retentionSettingKey))), d2)
                    | Some d3 \<Rightarrow> (Inr (), d3))))"

section \<open>Notifications\<close>

definition targetURL :: "string \<Rightarrow> string" where
  "targetURL url =
     (let u = (if \<not> prefix ''http://'' url \<and> \<not> prefix ''https://'' url then ''http://'' @ url else url);
          w = (if u \<noteq> [] \<and> last u = CHR ''/'' then butlast u else u)
      in w @ ''/message'')"

text \<open>
  A value of the request, or else the stored one: an error, an answer that ends the test, or the
  value.
\<close>

definition stored_or ::
  "failing \<Rightarrow> (db_query \<Rightarrow> string) \<Rightarrow> string \<Rightarrow> string \<Rightarrow> string \<Rightarrow> server_db \<Rightarrow>
     (connect_error + testGotifyNotificationResponse) + string" where
  "stored_or fails dbtext k missing v d =
     (if v \<noteq> [] then Inr v
      else if fails (QGetSetting k) then Inl (Inl (NewError codeInternal (''failed to query '' @ k @ '': '' @ dbtext (QGetSetting k))))
      else case map_of (settings_rows (sv_audit d)) k of
        None \<Rightarrow> Inl (Inr \<lparr>tg_success = False, tg_errorMessage = missing\<rparr>)
      | Some w \<Rightarrow> Inr w)"

definition testGotifyRpc ::
  "failing \<Rightarrow> (db_query \<Rightarrow> string) \<Rightarrow> (string \<Rightarrow> string option) \<Rightarrow> (string \<Rightarrow> string \<Rightarrow> string + nat \<times> string) \<Rightarrow> ctx \<Rightarrow> testGotifyNotificationRequest \<Rightarrow>
     server_db \<Rightarrow> connect_error + testGotifyNotificationResponse" where
  "testGotifyRpc fails dbtext newRequest post cx q d =
     (case checkAdmin cx of
        Some e \<Rightarrow> Inl e
      | None \<Rightarrow>
          (case stored_or fails dbtext ''gotify_url'' ''Gotify URL is not configured'' (tgr_gotifyUrl q) d of
             Inl r \<Rightarrow> r
           | Inr url \<Rightarrow>
               (case stored_or fails dbtext ''gotify_token'' ''Gotify token is not configured'' (tgr_gotifyToken q) d of
                  Inl r \<Rightarrow> r
                | Inr token \<Rightarrow>
                    if url = [] \<or> token = []
                    then Inr \<lparr>tg_success = False, tg_errorMessage = ''Both Gotify URL and Application Token must be configured''\<rparr>
                    else (case newRequest (targetURL url) of
                      Some err \<Rightarrow> Inl (NewError codeInternal (''failed to create http request: '' @ err))
                    | None \<Rightarrow>
                         (case post (targetURL url) token of
                            Inl err \<Rightarrow> Inr \<lparr>tg_success = False, tg_errorMessage = ''Failed to connect to Gotify: '' @ err\<rparr>
                          | Inr (status, body) \<Rightarrow>
                              if status \<noteq> 200
                              then Inr \<lparr>tg_success = False,
                                        tg_errorMessage = ''Gotify returned status '' @ string_of_nat status @ '': '' @ body\<rparr>
                              else Inr \<lparr>tg_success = True, tg_errorMessage = []\<rparr>)))))"

text \<open>The sender: where a notification goes, if anywhere, and with which key.\<close>

definition sendGotify :: "failing \<Rightarrow> (string \<Rightarrow> string option) \<Rightarrow> server_db \<Rightarrow> (string \<times> string) option" where
  "sendGotify fails newRequest d =
     (case map_of (settings_rows (sv_audit d)) ''gotify_url'' of
        None \<Rightarrow> None
      | Some url \<Rightarrow>
          if fails (QGetSetting ''gotify_url'') \<or> url = [] then None
          else (case map_of (settings_rows (sv_audit d)) ''gotify_token'' of
                  None \<Rightarrow> None
                | Some token \<Rightarrow>
                    if fails (QGetSetting ''gotify_token'') \<or> token = [] then None
                    else if newRequest (targetURL url) \<noteq> None then None else Some (targetURL url, token)))"

section \<open>Registries\<close>

record registry =
  rg_host :: string
  rg_username :: string
  rg_password :: string

definition registry_status :: "bool \<Rightarrow> (registry \<Rightarrow> string option) \<Rightarrow> registry \<Rightarrow> registryStatus" where
  "registry_status docker login reg =
     (let configured = (rg_host reg \<noteq> [] \<and> rg_username reg \<noteq> [] \<and> rg_password reg \<noteq> []);
          st = \<lparr>rs_host = rg_host reg, rs_username = rg_username reg, rs_isConfigured = configured, rs_isHealthy = False,
                rs_errorMessage = []\<rparr>
      in if \<not> configured then st\<lparr>rs_errorMessage := ''Missing host, username, or password in configuration''\<rparr>
         else if \<not> docker then st\<lparr>rs_errorMessage := ''Docker client is not initialized on host''\<rparr>
         else (case login reg of
                 Some err \<Rightarrow> st\<lparr>rs_isHealthy := False, rs_errorMessage := err\<rparr>
               | None \<Rightarrow> st\<lparr>rs_isHealthy := True\<rparr>))"

definition getRegistryStatusRpc ::
  "bool \<Rightarrow> (registry \<Rightarrow> string option) \<Rightarrow> registry list \<Rightarrow> ctx \<Rightarrow> connect_error + registryStatus list" where
  "getRegistryStatusRpc docker login registries cx =
     (case checkAdmin cx of Some e \<Rightarrow> Inl e | None \<Rightarrow> Inr (map (registry_status docker login) registries))"

section \<open>What is stored is what is read\<close>

lemma checkAdmin_user [simp]:
  "checkAdmin (user_ctx u cookie) =
     (if usr_role u = adminRole then None else Some (NewError codePermissionDenied ''admin privilege required''))"
  by (simp add: checkAdmin_def user_ctx_def)

lemma atoi_preset:
  assumes "isValidRetentionDays days"
  shows "atoi (string_of_int days) = Some days"
proof -
  have "list_all (\<lambda>n. atoi (string_of_int n) = Some n) validRetentionDays" by code_simp
  then show ?thesis using assms by (simp add: isValidRetentionDays_def list_all_iff)
qed

text \<open>The answer is determined by the rows as a map, whatever their order.\<close>

definition read_rows :: "(string \<Rightarrow> string option) \<Rightarrow> getSettingsResponse" where
  "read_rows m =
     \<lparr>gs_gotifyUrl = (case m ''gotify_url'' of Some v \<Rightarrow> v | None \<Rightarrow> []),
      gs_gotifyToken = (case m ''gotify_token'' of Some v \<Rightarrow> v | None \<Rightarrow> []),
      gs_auditRetentionDays =
        (case m retentionSettingKey of
           None \<Rightarrow> defaultRetentionDays
         | Some v \<Rightarrow> (case atoi v of Some days \<Rightarrow> if isValidRetentionDays days then days else defaultRetentionDays
                                   | None \<Rightarrow> defaultRetentionDays))\<rparr>"

lemma read_row:
  assumes "m k = None"
  shows "setting_row (k, v) (read_rows m) = read_rows (m(k \<mapsto> v))"
proof -
  consider "k = ''gotify_url''" | "k = ''gotify_token''" | "k = retentionSettingKey"
    | "k \<noteq> ''gotify_url''" "k \<noteq> ''gotify_token''" "k \<noteq> retentionSettingKey" by blast
  then show ?thesis
    using assms
    by cases (simp_all add: read_rows_def setting_row_def retentionSettingKey_def split: option.splits)
qed

lemma fold_rows:
  "distinct (map fst rows) \<Longrightarrow>
     fold setting_row rows \<lparr>gs_gotifyUrl = [], gs_gotifyToken = [], gs_auditRetentionDays = defaultRetentionDays\<rparr> = read_rows (map_of rows)"
proof (induction rows rule: rev_induct)
  case Nil
  then show ?case by (simp add: read_rows_def)
next
  case (snoc row rows)
  obtain k v where kv: "row = (k, v)" by (cases row)
  have new: "map_of rows k = None" using snoc.prems kv by (simp add: map_of_eq_None_iff)
  have "map_of (rows @ [row]) = (map_of rows)(k \<mapsto> v)"
    using new kv by (auto simp: map_add_def fun_eq_iff split: option.splits)
  then have "read_rows (map_of (rows @ [row])) = setting_row (k, v) (read_rows (map_of rows))"
    using read_row [where m = "map_of rows" and k = k and v = v, OF new] by (simp only:)
  then show ?case using snoc kv by (simp del: map_of_append)
qed

lemma getSettings_map:
  "distinct (map fst (settings_rows (sv_audit d))) \<Longrightarrow> \<not> fails QListSettings \<Longrightarrow> usr_role u = adminRole \<Longrightarrow>
     getSettingsRpc fails dbtext (user_ctx u cookie) d = Inr (read_rows (map_of (settings_rows (sv_audit d))))"
  by (simp add: getSettingsRpc_def fold_rows)

definition saved_map :: "updateSettingsRequest \<Rightarrow> (string \<Rightarrow> string option) \<Rightarrow> string \<Rightarrow> string option" where
  "saved_map q m = m(''gotify_url'' \<mapsto> us_gotifyUrl q, ''gotify_token'' \<mapsto> us_gotifyToken q,
                     retentionSettingKey \<mapsto> string_of_int (us_auditRetentionDays q))"

lemma updateSettings_saves:
  assumes "usr_role u = adminRole" "isValidRetentionDays (us_auditRetentionDays q)" "\<And>k. \<not> fails (QUpdateSetting k)"
  obtains d' where "updateSettingsRpc fails dbtext (user_ctx u cookie) q d = (Inr (), d')"
    "map_of (settings_rows (sv_audit d')) = saved_map q (map_of (settings_rows (sv_audit d)))"
    "distinct (map fst (settings_rows (sv_audit d))) \<Longrightarrow> distinct (map fst (settings_rows (sv_audit d')))"
proof -
  let ?rows = "AList.update retentionSettingKey (string_of_int (us_auditRetentionDays q))
      (AList.update ''gotify_token'' (us_gotifyToken q) (AList.update ''gotify_url'' (us_gotifyUrl q) (settings_rows (sv_audit d))))"
  let ?d = "d\<lparr>sv_audit := (sv_audit d)\<lparr>settings_rows := ?rows\<rparr>\<rparr>"
  have "updateSettingsRpc fails dbtext (user_ctx u cookie) q d = (Inr (), ?d)"
    using assms by (simp add: updateSettingsRpc_def updateSetting_def)
  moreover have "map_of ?rows = saved_map q (map_of (settings_rows (sv_audit d)))"
    by (simp only: saved_map_def update_conv')
  ultimately show thesis by (intro that [of ?d]) (simp_all add: distinct_update)
qed

text \<open>What the page shows is the window the audit writer enforces, whatever is stored.\<close>

lemma shown_is_enforced:
  assumes "distinct (map fst (settings_rows (sv_audit d)))" "\<not> fails (QGetSetting retentionSettingKey)"
    and "getSettingsRpc fails dbtext cx d = Inr r"
  shows "gs_auditRetentionDays r = retentionDays fails (sv_audit d)"
proof -
  have "r = read_rows (map_of (settings_rows (sv_audit d)))"
    using assms(1,3) by (simp add: getSettingsRpc_def fold_rows split: option.splits if_splits)
  then show ?thesis using assms(2) by (simp add: read_rows_def retentionDays_def)
qed

lemma saved_retention:
  assumes "map_of (settings_rows (sv_audit d)) = saved_map q m" "isValidRetentionDays (us_auditRetentionDays q)"
    and "\<not> fails (QGetSetting retentionSettingKey)"
  shows "retentionDays fails (sv_audit d) = us_auditRetentionDays q"
  using assms by (simp add: retentionDays_def saved_map_def atoi_preset)

lemma read_saved:
  assumes "isValidRetentionDays (us_auditRetentionDays q)"
  shows "read_rows (saved_map q m)
    = \<lparr>gs_gotifyUrl = us_gotifyUrl q, gs_gotifyToken = us_gotifyToken q, gs_auditRetentionDays = us_auditRetentionDays q\<rparr>"
  using assms by (simp add: read_rows_def saved_map_def atoi_preset retentionSettingKey_def)

lemma sendGotify_saved:
  assumes "map_of (settings_rows (sv_audit d)) = saved_map q m" "\<And>k. \<not> fails (QGetSetting k)"
  shows "sendGotify fails newRequest d =
     (if us_gotifyUrl q = [] \<or> us_gotifyToken q = [] \<or> newRequest (targetURL (us_gotifyUrl q)) \<noteq> None then None
      else Some (targetURL (us_gotifyUrl q), us_gotifyToken q))"
  using assms by (simp add: sendGotify_def saved_map_def retentionSettingKey_def)

text \<open>An update that is refused changes nothing.\<close>

lemma update_refused:
  assumes "usr_role u \<noteq> adminRole \<or> \<not> isValidRetentionDays (us_auditRetentionDays q)"
  shows "\<exists>e. updateSettingsRpc fails dbtext (user_ctx u cookie) q d = (Inl e, d)"
  using assms by (auto simp: updateSettingsRpc_def)

text \<open>
  The handlers ask for the admin role where the matrix asks for a viewer only: a viewer who opens
  the settings page passes the interceptor and is then refused.
\<close>

lemma viewer_reads_no_settings:
  assumes "usr_role u \<noteq> adminRole"
  shows "required_role (SettingsCall GetSettings) = RoleViewer \<and> required_role (SettingsCall GetRegistryStatus) = RoleViewer
    \<and> getSettingsRpc fails dbtext (user_ctx u cookie) d = Inl (NewError codePermissionDenied ''admin privilege required'')
    \<and> getRegistryStatusRpc docker login regs (user_ctx u cookie) = Inl (NewError codePermissionDenied ''admin privilege required'')"
  using assms by (simp add: getSettingsRpc_def getRegistryStatusRpc_def)

text \<open>The three updates are no transaction: when the second fails the first stays.\<close>

lemma partial_update:
  assumes "usr_role u = adminRole" "isValidRetentionDays (us_auditRetentionDays q)"
    and "fails (QUpdateSetting ''gotify_token'')" "\<not> fails (QUpdateSetting ''gotify_url'')"
  shows "\<exists>e d'. updateSettingsRpc fails dbtext (user_ctx u cookie) q d = (Inl e, d')
    \<and> map_of (settings_rows (sv_audit d')) ''gotify_url'' = Some (us_gotifyUrl q)"
  using assms by (simp add: updateSettingsRpc_def updateSetting_def update_conv')

end
