(* ===== verification/Client_Server.thy ===== *)
theory Client_Server
  imports Page_Calls Server_Sessions Server_Logs Server_Settings
begin

text \<open>
  The two ends together: the start-up check of the frontend against the interceptor and the
  handler of the server, the first run of a new installation, and the synchronisation of the
  client's logs with the server's buffer.

  The transport is an argument: \<open>deliver\<close> turns an error of the server into what the client's call
  throws.
\<close>

section \<open>The start-up check\<close>

definition getMe_handler :: handler where
  "getMe_handler cx c d = (case getMeRpc cx of Inl e \<Rightarrow> (Inl e, d) | Inr m \<Rightarrow> (Inr (GetMeResp m), d))"

definition client_view :: "(connect_error \<Rightarrow> js_error) \<Rightarrow> connect_error + rpc_resp \<Rightarrow> getMeResponse rpc" where
  "client_view deliver res =
     (case res of
        Inl e \<Rightarrow> Inl (deliver e)
      | Inr resp \<Rightarrow> (case resp of GetMeResp m \<Rightarrow> Inr m | _ \<Rightarrow> Inl (Thrown [])))"

definition startup_check ::
  "(connect_error \<Rightarrow> js_error) \<Rightarrow> bool \<Rightarrow> failing \<Rightarrow> (db_query \<Rightarrow> string) \<Rightarrow> int \<Rightarrow> int \<Rightarrow> string \<Rightarrow> server_db \<Rightarrow> auth \<Rightarrow> auth" where
  "startup_check deliver auditor fails dbtext idleTimeout now cookieHeader d a =
     checkAuth_me (client_view deliver
       (fst (wrapUnary auditor fails dbtext idleTimeout now cookieHeader getMe_handler (AuthCall GetMe) d))) a"

text \<open>
  What the code relies on of the transport and of the database: the code of an error arrives, and
  the text of a failing query is not taken for that of a missing session.
\<close>

definition transport_ok :: "(connect_error \<Rightarrow> js_error) \<Rightarrow> (db_query \<Rightarrow> string) \<Rightarrow> bool" where
  "transport_ok deliver dbtext \<longleftrightarrow>
     (\<forall>e. is_unauthenticated (deliver e) \<longleftrightarrow> cn_code e = codeUnauthenticated)
     \<and> \<not> says_unauthenticated (deliver (NewError codeInternal (''failed to query session: '' @ dbtext QGetSession)))
     \<and> \<not> says_unauthenticated (deliver (NewError codeInternal (''failed to query user: '' @ dbtext QGetUser)))"

definition query_failed :: "failing \<Rightarrow> int \<Rightarrow> string \<Rightarrow> server_db \<Rightarrow> bool" where
  "query_failed fails now cookieHeader d \<longleftrightarrow>
     parseSessionCookie cookieHeader \<noteq> [] \<and> (fails QGetSession \<or> \<not> no_session now cookieHeader d \<and> fails QGetUser)"

lemma authenticate_error:
  assumes "session_user fails now cookie d = None" "transport_ok deliver dbtext"
  obtains e d1 where "authenticate fails dbtext idleTimeout now cookie d = (Inl e, d1)"
    "says_unauthenticated (deliver e) \<longleftrightarrow> \<not> query_failed fails now cookie d"
proof -
  obtain e d1 where a: "authenticate fails dbtext idleTimeout now cookie d = (Inl e, d1)"
    using authenticate_NoneE [OF assms(1)] by metis
  have "says_unauthenticated (deliver e) \<longleftrightarrow> \<not> query_failed fails now cookie d"
  proof (cases "query_failed fails now cookie d")
    case True
    then have "e = NewError codeInternal (''failed to query session: '' @ dbtext QGetSession)
        \<or> e = NewError codeInternal (''failed to query user: '' @ dbtext QGetUser)"
      using a by (auto simp: query_failed_def authenticate_def no_session_def Let_def split: option.splits if_splits)
    with True assms(2) show ?thesis by (auto simp: transport_ok_def)
  next
    case False
    have "cn_code e = codeUnauthenticated"
      using authenticate_user [where fails = fails and now = now and cookie = cookie and d = d and dbtext = dbtext and idle = idleTimeout]
        assms(1) a False by (auto simp: query_failed_def)
    with False assms(2) show ?thesis by (simp add: transport_ok_def says_unauthenticated_def)
  qed
  with a show thesis by (rule that)
qed

lemma session_user_listed: "session_user fails now cookie d = Some u \<Longrightarrow> u \<in> set (sv_users d)"
  by (auto simp: session_user_def Let_def find_Some_iff split: if_splits option.splits intro: nth_mem)

section \<open>Properties\<close>

text \<open>
  C20: After the start-up check the frontend and the server agree on who is signed in. With a
  session that exists, has expired on neither clock and belongs to a user, the page is signed in as
  that user, with the role the server has stored, whatever the browser remembered; without one it
  is signed out and forgets the token; and when the server could not look the session up, what the
  browser remembered stays.
\<close>

theorem startup_agrees:
  assumes "transport_ok deliver dbtext" and "list_all (\<lambda>u. usr_username u \<noteq> []) (sv_users d)"
  shows "let a' = startup_check deliver auditor fails dbtext idleTimeout now cookie d a in
    (case session_user fails now cookie d of
       Some u \<Rightarrow> a_user a' = Some \<lparr>u_username = usr_username u, u_role = usr_role u\<rparr> \<and> isAuthenticated a'
     | None \<Rightarrow>
         if query_failed fails now cookie d
         then a_user a' = a_user a \<and> isAuthenticated a' = isAuthenticated a \<and> ls_token a' = ls_token a
         else a_user a' = None \<and> \<not> isAuthenticated a' \<and> ls_token a' = None)"
proof (cases "session_user fails now cookie d")
  case None
  obtain e d1 where a: "authenticate fails dbtext idleTimeout now cookie d = (Inl e, d1)"
      "says_unauthenticated (deliver e) \<longleftrightarrow> \<not> query_failed fails now cookie d"
    using authenticate_error [OF None assms(1)] by metis
  have "fst (wrapUnary auditor fails dbtext idleTimeout now cookie getMe_handler (AuthCall GetMe) d) = Inl e"
    using a by (simp add: wrapUnary_def authorize_def)
  then show ?thesis using None a(2)
    by (simp add: startup_check_def client_view_def checkAuth_me_def signed_out_def Let_def)
next
  case (Some u)
  have allowed: "\<not> role_denied (AuthCall GetMe) u" by (simp add: role_denied_def)
  obtain d1 where a: "authorize auditor fails dbtext idleTimeout now cookie (AuthCall GetMe) d = (Inr (user_ctx u cookie), d1)"
    by (rule authorize_user [OF Some, where c = "AuthCall GetMe" and auditor = auditor and dbtext = dbtext and idle = idleTimeout])
      (use allowed in simp)
  have "usr_username u \<noteq> []" using assms(2) session_user_listed [OF Some] by (simp add: list_all_iff)
  then show ?thesis using Some a
    by (simp add: startup_check_def client_view_def checkAuth_me_def signed_in_def wrapUnary_def getMe_handler_def getMeRpc_def
        user_ctx_def Let_def split: prod.splits)
qed

definition sample_deliver :: "connect_error \<Rightarrow> js_error" where
  "sample_deliver e = ConnectError (cn_code e) (cn_msg e) (cn_msg e)"

lemma sample_deliver_ok: "transport_ok sample_deliver (\<lambda>_. [])"
proof -
  have "\<not> str_includes (toLowerCase ''failed to query session: '') ''unauthenticated''"
    "\<not> str_includes (toLowerCase ''failed to query user: '') ''unauthenticated''" by code_simp+
  then show ?thesis
    by (simp add: transport_ok_def sample_deliver_def says_unauthenticated_def code_Unauthenticated_def codeUnauthenticated_def
        codeInternal_def)
qed

theorem startup_agrees_witness:
  "a_user (startup_check sample_deliver True (\<lambda>_. False) (\<lambda>_. []) 10 50 ''session_id=v'' sample_db
      (auth_init (Some \<lparr>u_username = ''root'', u_role = ''admin''\<rparr>) (Some ''session_active'')))
    = Some \<lparr>u_username = ''bob'', u_role = ''viewer''\<rparr>"
proof -
  have "list_all (\<lambda>u. usr_username u \<noteq> []) (sv_users sample_db)" by code_simp
  note agreed = startup_agrees [OF sample_deliver_ok this, of True "\<lambda>_. False" 10 50 "''session_id=v''"
      "auth_init (Some \<lparr>u_username = ''root'', u_role = ''admin''\<rparr>) (Some ''session_active'')"]
  have "session_user (\<lambda>_. False) 50 ''session_id=v'' sample_db
      = Some \<lparr>usr_id = 2, usr_username = ''bob'', usr_passwordHash = ''h2'', usr_role = ''viewer''\<rparr>" by code_simp
  with agreed show ?thesis by (simp add: Let_def)
qed

section \<open>The first run\<close>

text \<open>
  On a new installation a setup form that passes its checks succeeds on the server: the two calls
  it makes create the administrator and sign in, and the page is that of an administrator. The
  password must not be one the breach service knows, its hash must match it, the name must not be
  locked, and no query may fail.
\<close>

lemma first_run:
  assumes form: "snd (setup_submit f) = Some (u, p)" and fresh: "sv_users (av_db s) = []" "sv_sessions (av_db s) = []"
    and env: "\<And>x. \<not> en_fails en x" "en_hash en p = Inr hash" "en_matches en hash p" "\<not> (ac_breachedCheck cfg \<and> en_breached en p)"
    and free: "\<not> fst (fst (check u (client_ip en cfg h) now (av_limiter s)))"
  obtains d resp cookie s' where
    "setup_calls (u, p) = [AuthCall (SetupAdmin \<lparr>sar_username = u, sar_password = p\<rparr>), login_call (u, p, False)]"
    "setupAdminRpc en cfg \<lparr>sar_username = u, sar_password = p\<rparr> h (av_db s) = (Inr (u, adminRole), d)"
    "loginRpc en cfg ovf bs now now1 \<lparr>lq_username = u, lq_password = p, lq_rememberMe = False\<rparr> h (s\<lparr>av_db := d\<rparr>)
       = (Inr (resp, cookie), s')"
    "is_admin (a_user (fst (setupAdmin_end (Inr resp) a)))"
proof -
  have ok: "u \<noteq> []" "p \<noteq> []" "\<not> length p < 12"
    using form by (auto simp: setup_submit_def setup_validate_def username_error_None Let_def split: if_splits)
  let ?user = "\<lparr>usr_id = 1, usr_username = u, usr_passwordHash = hash, usr_role = adminRole\<rparr>"
  obtain d where d: "setupAdminRpc en cfg \<lparr>sar_username = u, sar_password = p\<rparr> h (av_db s) = (Inr (u, adminRole), d)"
      "sv_users d = [?user]" "sv_sessions d = []"
  proof -
    have "validate en cfg p = None" using ok env(4) by (simp add: validate_def minPasswordLength_def)
    then show ?thesis using ok env(1,2) fresh that by (simp add: setupAdminRpc_def createUser_def Let_def)
  qed
  let ?q = "\<lparr>lq_username = u, lq_password = p, lq_rememberMe = False\<rparr>"
  obtain wait rl where "check u (client_ip en cfg h) now (av_limiter s) = ((False, wait), rl)"
    using free by (metis prod.collapse)
  then have checked: "login_check en cfg now ?q h (s\<lparr>av_db := d\<rparr>) = (None, s\<lparr>av_db := d, av_limiter := rl\<rparr>)"
    using ok by (simp add: login_check_def Let_def)
  let ?resp = "\<lparr>lr_username = u, lr_role = adminRole\<rparr>"
  obtain cookie s' where login: "loginRpc en cfg ovf bs now now1 ?q h (s\<lparr>av_db := d\<rparr>) = (Inr (?resp, cookie), s')"
    using checked d env by (simp add: loginRpc_def login_finish_def issueSession_def createSession_def Let_def)
  have admin: "is_admin (a_user (fst (setupAdmin_end (Inr ?resp) a)))"
    by (simp add: setupAdmin_end_def signed_in_def user_of_def is_admin_def adminRole_def)
  have "setup_calls (u, p) = [AuthCall (SetupAdmin \<lparr>sar_username = u, sar_password = p\<rparr>), login_call (u, p, False)]"
    by (simp add: setup_calls_def)
  then show thesis using d(1) login admin by (rule that)
qed

section \<open>Settings\<close>

definition client_settings :: "(connect_error \<Rightarrow> js_error) \<Rightarrow> connect_error + 'a \<Rightarrow> 'a rpc" where
  "client_settings deliver res = (case res of Inl e \<Rightarrow> Inl (deliver e) | Inr r \<Rightarrow> Inr r)"

text \<open>The select of the page offers exactly the windows the server accepts.\<close>

lemma presets_agree: "map fst AUDIT_RETENTION_PRESETS = validRetentionDays"
  by (simp add: AUDIT_RETENTION_PRESETS_def validRetentionDays_def)

text \<open>
  C40: What an administrator saves on the settings page takes effect. With any window the select
  offers, and when no query fails, the request of the save is accepted; loading the page then shows
  the saved values, the text fields trimmed, and saving again would send the same request; the
  audit writer enforces the chosen window from then on; and a notification goes to the saved
  address with the saved token when both are given and the address can be used, and nowhere
  otherwise.
\<close>

theorem settings_take_effect:
  assumes "usr_role u = adminRole" and "auditRetentionDays s \<in> set (map fst AUDIT_RETENTION_PRESETS)"
    and "\<And>x. \<not> fails x" and "distinct (map fst (settings_rows (sv_audit d)))"
  shows "let q = snd (handleSave_begin s s);
      (res, d') = updateSettingsRpc fails dbtext (user_ctx u cookie) q d;
      s' = loadSettings_end (client_settings deliver (getSettingsRpc fails dbtext (user_ctx u cookie) d')) page;
      url = targetURL (trim (gotifyUrl s))
    in res = Inr () \<and> gotifyUrl s' = trim (gotifyUrl s) \<and> gotifyToken s' = trim (gotifyToken s)
      \<and> auditRetentionDays s' = auditRetentionDays s \<and> snd (handleSave_begin s' s') = q
      \<and> retentionDays fails (sv_audit d') = auditRetentionDays s
      \<and> sendGotify fails newRequest d' =
          (if trim (gotifyUrl s) = [] \<or> trim (gotifyToken s) = [] \<or> newRequest url \<noteq> None then None
           else Some (url, trim (gotifyToken s)))"
proof -
  let ?q = "snd (handleSave_begin s s)"
  have valid: "isValidRetentionDays (us_auditRetentionDays ?q)"
    using assms(2) by (simp add: handleSave_begin_def isValidRetentionDays_def presets_agree del: set_map)
  obtain d' where d': "updateSettingsRpc fails dbtext (user_ctx u cookie) ?q d = (Inr (), d')"
      "map_of (settings_rows (sv_audit d')) = saved_map ?q (map_of (settings_rows (sv_audit d)))"
      "distinct (map fst (settings_rows (sv_audit d')))"
    using updateSettings_saves [OF assms(1) valid, of fails dbtext cookie d] assms(3,4) by metis
  have load: "getSettingsRpc fails dbtext (user_ctx u cookie) d' = Inr (stored ?q)"
    using getSettings_map [OF d'(3) assms(3) assms(1)] by (simp add: d'(2) read_saved valid stored_def)
  have days: "retentionDays fails (sv_audit d') = us_auditRetentionDays ?q"
    by (rule saved_retention [OF d'(2) valid assms(3)])
  have gotify: "sendGotify fails newRequest d' =
      (if us_gotifyUrl ?q = [] \<or> us_gotifyToken ?q = [] \<or> newRequest (targetURL (us_gotifyUrl ?q)) \<noteq> None then None
       else Some (targetURL (us_gotifyUrl ?q), us_gotifyToken ?q))"
    by (rule sendGotify_saved [OF d'(2) assms(3)])
  show ?thesis
    using d'(1) load days gotify
    by (simp add: Let_def client_settings_def loadSettings_end_def stored_def handleSave_begin_def)
qed

theorem settings_take_effect_witness:
  "retentionDays (\<lambda>_. False) (sv_audit (snd (updateSettingsRpc (\<lambda>_. False) (\<lambda>_. [])
      (user_ctx \<lparr>usr_id = 1, usr_username = ''root'', usr_passwordHash = ''h1'', usr_role = ''admin''\<rparr> ''session_id=t'')
      (snd (handleSave_begin ((settings_mount None None)\<lparr>auditRetentionDays := 30\<rparr>) ((settings_mount None None)\<lparr>auditRetentionDays := 30\<rparr>)))
      sample_db))) = 30"
proof -
  let ?u = "\<lparr>usr_id = 1, usr_username = ''root'', usr_passwordHash = ''h1'', usr_role = ''admin''\<rparr>"
  let ?s = "(settings_mount None None)\<lparr>auditRetentionDays := 30\<rparr>"
  have "usr_role ?u = adminRole" "auditRetentionDays ?s \<in> set (map fst AUDIT_RETENTION_PRESETS)"
    "distinct (map fst (settings_rows (sv_audit sample_db)))"
    by (simp_all add: adminRole_def AUDIT_RETENTION_PRESETS_def sample_db_def)
  note effect = settings_take_effect [where fails = "\<lambda>_. False" and dbtext = "\<lambda>_. []" and cookie = "''session_id=t''"
      and deliver = sample_deliver and page = ?s and newRequest = "\<lambda>_. None", OF this(1,2) notI this(3)]
  have "auditRetentionDays ?s = 30" by simp
  with effect show ?thesis by (simp only: Let_def split_beta snd_conv fst_conv simp_thms)
qed

text \<open>The test that is sent with empty fields goes where notifications go.\<close>

lemma test_uses_stored:
  assumes "usr_role u = adminRole" "\<And>x. \<not> fails x" "sendGotify fails newRequest d = Some (url, token)"
  shows "testGotifyRpc fails dbtext newRequest post (user_ctx u cookie) \<lparr>tgr_gotifyUrl = [], tgr_gotifyToken = []\<rparr> d =
    (case post url token of
       Inl err \<Rightarrow> Inr \<lparr>tg_success = False, tg_errorMessage = ''Failed to connect to Gotify: '' @ err\<rparr>
     | Inr (status, body) \<Rightarrow>
         Inr (if status \<noteq> 200 then \<lparr>tg_success = False, tg_errorMessage = ''Gotify returned status '' @ string_of_nat status @ '': '' @ body\<rparr>
              else \<lparr>tg_success = True, tg_errorMessage = []\<rparr>))"
  using assms
  by (auto simp: testGotifyRpc_def sendGotify_def stored_or_def split: option.splits if_splits sum.splits)

section \<open>Logs\<close>

text \<open>
  What the syncer needs of a server: a batch it may send is acknowledged in full whatever the state
  of the buffer, and is stored entry by entry, in order.
\<close>

locale log_sink =
  fixes receive :: "clientLogEntry list \<Rightarrow> 'b \<Rightarrow> syncLogsResponse \<times> 'b"
    and kept :: "clientLogEntry list \<Rightarrow> 'e list"
    and put :: "'e \<Rightarrow> 'b \<Rightarrow> 'b"
  assumes receive_acks: "length batch \<le> batchSize \<Longrightarrow> sl_processedCount (fst (receive batch b)) = int (length batch)"
    and receive_stores: "snd (receive batch b) = fold put (kept batch) b"
    and kept_append: "kept (es @ fs) = kept es @ kept fs"
begin

lemma kept_Nil: "kept [] = []"
  using kept_append [of "[]" "[]"] by simp

lemma batches_stored: "fold (\<lambda>batch b. snd (receive batch b)) ps b = fold put (kept (concat ps)) b"
  by (induction ps arbitrary: b) (simp_all add: receive_stores kept_append kept_Nil)

lemma sink_acks: "acks_all (\<lambda>batch. Inr (fst (receive batch b)))"
  by (auto simp: acks_all_def receive_acks)

lemma sync_delivers:
  assumes "dexie_laws T content" "distinct (map fst (content d))"
  obtains d' ps where "sync_all (Suc (length (content d) div batchSize)) T (\<lambda>batch. Inr (fst (receive batch b))) d = Some (d', ps)"
    "content d' = []"
    "fold (\<lambda>batch b. snd (receive batch b)) ps b = fold put (kept (map (protoEntry \<circ> snd) (content d))) b"
proof -
  obtain r where r: "sync_all (Suc (length (content d) div batchSize)) T (\<lambda>batch. Inr (fst (receive batch b))) d = Some r"
      "sync_result content (\<lambda>batch. Inr (fst (receive batch b))) (content d) r"
    using sync_all_terminates [OF assms lessI] by blast
  then have "content (fst r) = []" "concat (snd r) = map (protoEntry \<circ> snd) (content d)"
    using sink_acks by (auto simp: sync_result_def)
  then show thesis using that [of "fst r" "snd r"] r(1) by (simp add: batches_stored)
qed

end

text \<open>The handler of the server is such a server: it stores what its logger enables.\<close>

definition log_server ::
  "(slog_level \<Rightarrow> bool) \<Rightarrow> (attrs \<Rightarrow> string option) \<Rightarrow> string \<Rightarrow> clientLogEntry list \<Rightarrow> ringBuffer \<Rightarrow> syncLogsResponse \<times> ringBuffer" where
  "log_server enabled marshal now batch rb = syncLogs enabled marshal now \<lparr>slq_entries = batch\<rparr> rb"

interpretation ring: log_sink "log_server enabled marshal now" "accepted enabled marshal" add
  by unfold_locales (simp_all add: log_server_def syncLogs_effect batchSize_def syncLogs_def sync_fold accepted_def)

text \<open>
  A synchronisation with this server empties the client's table, and the batches it sent put
  exactly the table's entries into the buffer, in order and with their own levels and times, as far
  as their levels are enabled.
\<close>

lemma sync_end_to_end:
  assumes "dexie_laws T content" "distinct (map fst (content d))"
  obtains d' ps where
    "sync_all (Suc (length (content d) div batchSize)) T (\<lambda>batch. Inr (fst (log_server enabled marshal now batch rb))) d = Some (d', ps)"
    "content d' = []"
    "fold (\<lambda>batch rb. snd (log_server enabled marshal now batch rb)) ps rb
       = fold add (accepted enabled marshal (map (protoEntry \<circ> snd) (content d))) rb"
  using ring.sync_delivers [OF assms] by metis

end
