(* ===== verification/Server_Account.thy ===== *)
theory Server_Account
  imports Server_Sessions "HOL-Library.Product_Lexorder"
begin

text \<open>
  What users see of their account on the server: the sessions that are open for them and the events
  of their sign-ins (\<open>ListSessions\<close>, \<open>ListAuthEvents\<close> and \<open>formatDeviceLabel\<close> of
  \<open>internal/auth/service.go\<close>), and the removal of old events (\<open>purge.go\<close>).
\<close>

section \<open>Devices\<close>

text \<open>Texts of the server are bytes; the dot between browser and system takes two.\<close>

definition middle_dot :: string where
  "middle_dot = [CHR 0xC2, CHR 0xB7]"

definition device_os :: "string \<Rightarrow> string" where
  "device_os uaLower =
     (if str_includes uaLower ''windows'' then ''Windows''
      else if str_includes uaLower ''android'' then ''Android''
      else if str_includes uaLower ''iphone'' \<or> str_includes uaLower ''ipad'' \<or> str_includes uaLower ''ipod'' \<or> str_includes uaLower ''ios''
      then ''iOS''
      else if str_includes uaLower ''macintosh'' \<or> str_includes uaLower ''mac os'' then ''macOS''
      else if str_includes uaLower ''linux'' then ''Linux'' else ''Unknown OS'')"

text \<open>\<open>Inl\<close> is a client that is named alone, without its system.\<close>

definition device_browser :: "string \<Rightarrow> string + string" where
  "device_browser uaLower =
     (if str_includes uaLower ''edg/'' \<or> str_includes uaLower ''edge/'' then Inr ''Edge''
      else if str_includes uaLower ''opr/'' \<or> str_includes uaLower ''opera/'' then Inr ''Opera''
      else if str_includes uaLower ''chrome/'' \<or> str_includes uaLower ''crios/'' then Inr ''Chrome''
      else if str_includes uaLower ''firefox/'' \<or> str_includes uaLower ''fxios/'' then Inr ''Firefox''
      else if str_includes uaLower ''safari/'' \<and> \<not> str_includes uaLower ''chrome'' then Inr ''Safari''
      else if str_includes uaLower ''curl/'' then Inl ''curl''
      else if str_includes uaLower ''postman'' then Inl ''Postman'' else Inr ''Browser'')"

definition formatDeviceLabel :: "string \<Rightarrow> string" where
  "formatDeviceLabel ua =
     (if ua = [] then ''Unknown Device''
      else case device_browser (toLowerCase ua) of
        Inl client \<Rightarrow> client
      | Inr browser \<Rightarrow>
          if device_os (toLowerCase ua) = ''Unknown OS'' \<and> browser = ''Browser''
          then (if length ua > 30 then take 30 ua @ ''...'' else ua)
          else browser @ '' '' @ middle_dot @ '' '' @ device_os (toLowerCase ua))"

section \<open>Sessions\<close>

definition listSessionsByUser :: "int \<Rightarrow> server_db \<Rightarrow> db_session list" where
  "listSessionsByUser uid d =
     sort_key (\<lambda>x. - ses_lastSeenAt x) (filter (\<lambda>x. ses_userId x = uid \<and> uid \<in> usr_id ` set (sv_users d)) (sv_sessions d))"

definition session_message :: "(int \<Rightarrow> timestamp) \<Rightarrow> string \<Rightarrow> db_session \<Rightarrow> session" where
  "session_message pb currentSessionID r =
     \<lparr>se_sessionId = ses_id r, se_userAgent = ses_userAgent r, se_deviceLabel = formatDeviceLabel (ses_userAgent r),
      se_createdAt = Some (pb (ses_createdAt r)), se_lastSeenAt = Some (pb (ses_lastSeenAt r)),
      se_expiresAt = Some (pb (ses_expiresAt r)), se_absoluteExpiresAt = Some (pb (ses_absoluteExpiresAt r)),
      se_isCurrent = (ses_id r = currentSessionID)\<rparr>"

definition listSessionsRpc :: "auth_env \<Rightarrow> ctx \<Rightarrow> server_db \<Rightarrow> connect_error + session list" where
  "listSessionsRpc en cx d =
     (case cx_user cx of
        None \<Rightarrow> Inl (NewError codeUnauthenticated ''unauthenticated'')
      | Some u \<Rightarrow>
          (let currentSessionID = (case cx_sessionId cx of Some sid \<Rightarrow> sid | None \<Rightarrow> []) in
           if en_fails en QListSessions
           then Inl (NewError codeInternal (''failed to list sessions: '' @ en_dbtext en QListSessions))
           else Inr (map (session_message (en_timestamppb en) currentSessionID) (listSessionsByUser (usr_id u) d))))"

section \<open>Events\<close>

record listAuthEventsResponse =
  lar_events :: "authEvent list"
  lar_totalCount :: int

definition events_limit :: "listAuthEventsRequest \<Rightarrow> nat" where
  "events_limit q = (if laq_limit q \<le> 0 then 50 else if laq_limit q > 100 then 100 else nat (laq_limit q))"

definition events_offset :: "listAuthEventsRequest \<Rightarrow> nat" where
  "events_offset q = (if laq_offset q < 0 then 0 else nat (laq_offset q))"

definition recent_first :: "db_authEvent list \<Rightarrow> db_authEvent list" where
  "recent_first evs = sort_key (\<lambda>e. (- dv_createdAt e, - dv_id e)) evs"

text \<open>Administrators see the events of everyone, others their own.\<close>

definition visible_events :: "db_user \<Rightarrow> server_db \<Rightarrow> db_authEvent list" where
  "visible_events u d =
     (if usr_role u = adminRole then sv_authEvents d else filter (\<lambda>e. dv_userId e = Some (usr_id u)) (sv_authEvents d))"

definition event_message :: "(int \<Rightarrow> timestamp) \<Rightarrow> db_authEvent \<Rightarrow> authEvent" where
  "event_message pb e =
     \<lparr>ev_id = dv_id e, ev_userId = dv_userId e, ev_username = dv_username e, ev_eventType = dv_event e, ev_detail = dv_detail e,
      ev_createdAt = Some (pb (dv_createdAt e))\<rparr>"

definition listAuthEventsRpc :: "auth_env \<Rightarrow> ctx \<Rightarrow> listAuthEventsRequest \<Rightarrow> server_db \<Rightarrow> connect_error + listAuthEventsResponse" where
  "listAuthEventsRpc en cx q d =
     (case cx_user cx of
        None \<Rightarrow> Inl (NewError codeUnauthenticated ''unauthenticated'')
      | Some u \<Rightarrow>
          (let whose = (if usr_role u = adminRole then [] else ''user '') in
           if en_fails en QListAuthEvents
           then Inl (NewError codeInternal (''failed to list '' @ whose @ ''auth events: '' @ en_dbtext en QListAuthEvents))
           else if en_fails en QCountAuthEvents
           then Inl (NewError codeInternal (''failed to count '' @ whose @ ''auth events: '' @ en_dbtext en QCountAuthEvents))
           else Inr \<lparr>lar_events = map (event_message (en_timestamppb en)) (take (events_limit q) (drop (events_offset q) (recent_first (visible_events u d)))),
                      lar_totalCount = int (length (visible_events u d))\<rparr>))"

definition events_retention :: "int \<Rightarrow> int" where
  "events_retention retention = (if retention \<le> 0 then 90 * 24 * 60 * minute else retention)"

definition purgeExpiredAuthEvents :: "int \<Rightarrow> int \<Rightarrow> server_db \<Rightarrow> server_db" where
  "purgeExpiredAuthEvents retention now d =
     d\<lparr>sv_authEvents := filter (\<lambda>e. \<not> dv_createdAt e < now - events_retention retention) (sv_authEvents d)\<rparr>"

section \<open>What is listed\<close>

text \<open>A listing names the caller's sessions, each once, and marks the one that calls.\<close>

definition own_ids :: "db_user \<Rightarrow> server_db \<Rightarrow> string set" where
  "own_ids u d = ses_id ` {x \<in> set (sv_sessions d). ses_userId x = usr_id u}"

lemma listed_sessions:
  assumes "listSessionsRpc en (user_ctx u cookie) d = Inr ss" "u \<in> set (sv_users d)"
  shows "se_sessionId ` set ss = own_ids u d"
    and "list_all (\<lambda>x. se_isCurrent x \<longleftrightarrow> se_sessionId x = parseSessionCookie cookie) ss"
  using assms by (auto simp: listSessionsRpc_def user_ctx_def own_ids_def listSessionsByUser_def session_message_def image_image
      list_all_iff split: if_splits)

lemma listed_distinct:
  assumes "listSessionsRpc en cx d = Inr ss" "db_keys d"
  shows "distinct (map se_sessionId ss)"
proof -
  obtain cur uid where ss: "ss = map (session_message (en_timestamppb en) cur) (listSessionsByUser uid d)"
    using assms(1) by (auto simp: listSessionsRpc_def Let_def split: option.splits if_splits)
  have "distinct (map ses_id (listSessionsByUser uid d))"
    using assms(2) by (simp add: listSessionsByUser_def db_keys_def distinct_map inj_on_def distinct_sort)
  then show ?thesis by (simp add: ss comp_def session_message_def)
qed

lemma listSessions_answers:
  "\<not> en_fails en QListSessions \<Longrightarrow> \<exists>ss. listSessionsRpc en (user_ctx u cookie) d = Inr ss"
  by (simp add: listSessionsRpc_def user_ctx_def)

text \<open>No answer about events is longer than a hundred, and others than administrators see only their own.\<close>

lemma events_answer:
  assumes "listAuthEventsRpc en (user_ctx u cookie) q d = Inr r"
  shows "length (lar_events r) \<le> 100" and "int (length (lar_events r)) \<le> lar_totalCount r"
    and "usr_role u \<noteq> adminRole \<Longrightarrow> list_all (\<lambda>e. ev_userId e = Some (usr_id u)) (lar_events r)"
proof -
  have r: "lar_events r = map (event_message (en_timestamppb en)) (take (events_limit q) (drop (events_offset q) (recent_first (visible_events u d))))"
      "lar_totalCount r = int (length (visible_events u d))"
    using assms by (auto simp: listAuthEventsRpc_def user_ctx_def Let_def split: if_splits)
  show "length (lar_events r) \<le> 100" by (auto simp: r events_limit_def)
  show "int (length (lar_events r)) \<le> lar_totalCount r" by (simp add: r recent_first_def)
  show "list_all (\<lambda>e. ev_userId e = Some (usr_id u)) (lar_events r)" if "usr_role u \<noteq> adminRole"
    using that by (auto simp: r list_all_iff event_message_def visible_events_def recent_first_def
        dest!: in_set_takeD in_set_dropD)
qed

text \<open>Consecutive pages of one length continue each other.\<close>

lemma events_pages_continue:
  assumes "listAuthEventsRpc en cx \<lparr>laq_limit = n, laq_offset = m, laq_eventType = e1\<rparr> d = Inr r1"
    and "listAuthEventsRpc en cx \<lparr>laq_limit = n, laq_offset = m + n, laq_eventType = e2\<rparr> d = Inr r2"
    and "0 < n" "2 * n \<le> 100" "0 \<le> m"
  shows "listAuthEventsRpc en cx \<lparr>laq_limit = 2 * n, laq_offset = m, laq_eventType = e3\<rparr> d =
    Inr \<lparr>lar_events = lar_events r1 @ lar_events r2, lar_totalCount = lar_totalCount r1\<rparr>"
proof -
  obtain u where u: "cx_user cx = Some u" using assms(1) by (auto simp: listAuthEventsRpc_def split: option.splits)
  let ?xs = "recent_first (visible_events u d)"
  have "take (nat (2 * n)) (drop (nat m) ?xs) = take (nat n) (drop (nat m) ?xs) @ take (nat n) (drop (nat (m + n)) ?xs)"
  proof -
    have "nat (2 * n) = nat n + nat n" "nat (m + n) = nat n + nat m" using assms(3,5) by arith+
    then show ?thesis by (simp only: take_add drop_drop)
  qed
  then show ?thesis
    using assms u by (auto simp: listAuthEventsRpc_def Let_def events_limit_def events_offset_def split: if_splits)
qed

text \<open>The filter by type that a request can carry is not looked at.\<close>

lemma event_type_ignored:
  "listAuthEventsRpc en cx q d = listAuthEventsRpc en cx (q\<lparr>laq_eventType := t\<rparr>) d"
  by (cases "cx_user cx") (simp_all add: listAuthEventsRpc_def events_limit_def events_offset_def)

lemma sort_key_least_last:
  "(\<And>e. e \<in> set xs \<Longrightarrow> f x < f e) \<Longrightarrow> sort_key f (xs @ [x]) = x # sort_key f xs"
  by (induction xs) (simp_all add: not_le [symmetric])

text \<open>What was recorded last is listed first, as long as ids and times of new rows do not decrease.\<close>

lemma latest_event_first:
  assumes "\<not> en_fails en QCreateAuthEvent"
    and "\<And>e. e \<in> set (sv_authEvents d) \<Longrightarrow> dv_createdAt e \<le> en_timestamp en \<and> dv_id e < en_eventId en"
  shows "recent_first (sv_authEvents (recordAuthEvent en uid n ty x d)) =
    last (sv_authEvents (recordAuthEvent en uid n ty x d)) # recent_first (sv_authEvents d)"
proof -
  let ?k = "\<lambda>e. (- dv_createdAt e, - dv_id e)" and ?new = "last (sv_authEvents (recordAuthEvent en uid n ty x d))"
  have new: "sv_authEvents (recordAuthEvent en uid n ty x d) = sv_authEvents d @ [?new]"
      "dv_id ?new = en_eventId en" "dv_createdAt ?new = en_timestamp en"
    using assms(1) by (simp_all add: recordAuthEvent_def)
  have "?k ?new < ?k e" if "e \<in> set (sv_authEvents d)" for e
    using assms(2) [OF that] new(2,3) by (auto simp: less_prod_def less_eq_prod_def)
  then show ?thesis by (subst new(1)) (simp only: recent_first_def sort_key_least_last)
qed

end
