(* ===== verification/Client_Sessions.thy ===== *)
theory Client_Sessions
  imports Client_Server Server_Account
begin

text \<open>
  The sessions of a user, on the settings page and on the server: what a revocation that is confirmed
  on the page leaves on both sides.
\<close>

section \<open>A revocation from end to end\<close>

text \<open>
  A confirmed revocation on the page, the call it sends answered by the server, and for the
  revocation of all others the sessions fetched again.
\<close>

definition revoke_round ::
  "(connect_error \<Rightarrow> js_error) \<Rightarrow> auth_env \<Rightarrow> ctx \<Rightarrow> settings \<Rightarrow> server_db \<Rightarrow> settings \<times> server_db" where
  "revoke_round deliver en cx s d =
     (let s1 = confirmDestructive_begin s s in
      case map_option destructive_call (pending s) of
        Some (AuthCall (RevokeSession q)) \<Rightarrow>
          (case revokeSessionRpc en cx q d of
             (res, d') \<Rightarrow> (fst (confirmDestructive_end s (SessionRevoked (client_settings deliver res)) s1), d'))
      | Some (AuthCall RevokeAllOtherSessions) \<Rightarrow>
          (case revokeAllOtherSessionsRpc en cx d of
             (Inl e, d') \<Rightarrow> (fst (confirmDestructive_end s (RevokeAllFailed (deliver e)) s1), d')
           | (Inr n, d') \<Rightarrow>
               (fst (confirmDestructive_end s (SessionsRefetched (client_settings deliver (listSessionsRpc en cx d')))
                  (fst (handleRevokeAll_called (Inr (int n)) s1))), d'))
      | _ \<Rightarrow> (s, d))"

text \<open>What a control of the list of sessions arms: one that is listed and not the current one, or all others.\<close>

definition session_armed :: "settings \<Rightarrow> bool" where
  "session_armed s \<longleftrightarrow>
     (case pending s of
        Some (SessionTarget se) \<Rightarrow> se \<in> set (sessions s) \<and> \<not> se_isCurrent se
      | Some AllSessions \<Rightarrow> True
      | _ \<Rightarrow> False)"

lemma armed_by_control:
  "m \<in> set (offered (sessionsCard fmt s)) \<Longrightarrow> m = ArmSession se \<Longrightarrow> se \<in> set (sessions s) \<and> \<not> se_isCurrent se"
  by (auto simp: sessionsCard_def offered_map sessionRow_def split: if_splits)

text \<open>What a revocation takes away.\<close>

definition revoked_ids :: "string \<Rightarrow> settings \<Rightarrow> string set" where
  "revoked_ids cookie s =
     (case pending s of
        Some (SessionTarget se) \<Rightarrow> {se_sessionId se}
      | _ \<Rightarrow> - {parseSessionCookie cookie})"

lemma session_user_kept:
  assumes "session_user fails now cookie d = Some u" "db_keys d"
    and "sv_users d' = sv_users d" "sv_sessions d' = filter P (sv_sessions d)"
    and "\<And>x. x \<in> set (sv_sessions d) \<Longrightarrow> ses_id x = parseSessionCookie cookie \<Longrightarrow> P x"
  shows "session_user fails now cookie d' = Some u"
proof -
  obtain x where x: "List.find (\<lambda>s. ses_id s = parseSessionCookie cookie) (sv_sessions d) = Some x"
    using assms(1) by (auto simp: session_user_def Let_def split: if_splits option.splits)
  then have "x \<in> set (sv_sessions d')" "ses_id x = parseSessionCookie cookie"
    using assms(4,5) by (auto simp: find_Some_iff in_set_conv_nth)
  moreover have "distinct (map ses_id (sv_sessions d'))"
    using assms(2,4) by (auto simp: db_keys_def distinct_map inj_on_def)
  ultimately have "List.find (\<lambda>s. ses_id s = parseSessionCookie cookie) (sv_sessions d') = Some x"
    using find_key [where f = ses_id and xs = "sv_sessions d'" and x = x] by simp
  then show ?thesis using assms(1,3) x by (simp add: session_user_def Let_def split: if_splits)
qed

lemma own_ids_filter:
  "sv_sessions d' = filter P (sv_sessions d) \<Longrightarrow> own_ids v d' = ses_id ` {x \<in> set (sv_sessions d). ses_userId x = usr_id v \<and> P x}"
  by (auto simp: own_ids_def)

text \<open>The server's part, for both kinds of revocation.\<close>

lemma round_server:
  assumes "revoke_round deliver en (user_ctx u cookie) s d = (s', d')"
    and "session_user fails now cookie d = Some u" "db_keys d" "session_armed s"
    and "list_all (\<lambda>x. (se_isCurrent x \<longleftrightarrow> se_sessionId x = parseSessionCookie cookie) \<and> se_sessionId x \<in> own_ids u d) (sessions s)"
    and "[] \<notin> own_ids u d"
  shows "sv_users d' = sv_users d"
    and "sv_sessions d' = (if en_fails en QRevokeSessions then sv_sessions d
      else filter (\<lambda>x. \<not> (ses_userId x = usr_id u \<and> ses_id x \<in> revoked_ids cookie s)) (sv_sessions d))"
proof -
  consider (one) se where "pending s = Some (SessionTarget se)" "se \<in> set (sessions s)" "\<not> se_isCurrent se"
    | (all) "pending s = Some AllSessions"
    using assms(4) by (auto simp: session_armed_def split: option.splits pendingDestructive.splits)
  then have "sv_users d' = sv_users d \<and> sv_sessions d' = (if en_fails en QRevokeSessions then sv_sessions d
      else filter (\<lambda>x. \<not> (ses_userId x = usr_id u \<and> ses_id x \<in> revoked_ids cookie s)) (sv_sessions d))"
  proof cases
    case one
    have mem: "se_sessionId se \<in> own_ids u d" using assms(5) one(2) unfolding list_all_iff by blast
    then have "se_sessionId se \<noteq> []" using assms(6) by metis
    from mem have "filter (\<lambda>x. ses_id x = se_sessionId se \<and> ses_userId x = usr_id u) (sv_sessions d) \<noteq> []"
      by (auto simp: own_ids_def filter_empty_conv)
    then show ?thesis
      using assms(1) one \<open>se_sessionId se \<noteq> []\<close>
      by (auto simp: revoke_round_def Let_def revokeSessionRpc_def user_ctx_def revoked_ids_def conj_commute split: if_splits)
  next
    case all
    then show ?thesis
      using assms(1)
      by (auto simp: revoke_round_def Let_def revokeAllOtherSessionsRpc_def user_ctx_def revoked_ids_def split: if_splits)
  qed
  then show "sv_users d' = sv_users d" and "sv_sessions d' = (if en_fails en QRevokeSessions then sv_sessions d
      else filter (\<lambda>x. \<not> (ses_userId x = usr_id u \<and> ses_id x \<in> revoked_ids cookie s)) (sv_sessions d))" by auto
qed

lemma revoked_spares_current:
  assumes "session_armed s" "list_all (\<lambda>x. se_isCurrent x \<longleftrightarrow> se_sessionId x = parseSessionCookie cookie) (sessions s)"
  shows "parseSessionCookie cookie \<notin> revoked_ids cookie s"
proof (cases "pending s")
  case (Some p)
  then show ?thesis
  proof (cases p)
    case (SessionTarget se)
    then have "se \<in> set (sessions s)" "\<not> se_isCurrent se" using assms(1) Some by (simp_all add: session_armed_def)
    then have "se_sessionId se \<noteq> parseSessionCookie cookie" using assms(2) unfolding list_all_iff by blast
    then show ?thesis using Some SessionTarget by (simp add: revoked_ids_def)
  qed (simp_all add: revoked_ids_def Some)
qed (simp add: revoked_ids_def)

text \<open>The page's part: the list it is left with.\<close>

lemma round_page:
  assumes "revoke_round deliver en (user_ctx u cookie) s d = (s', d')" "session_armed s"
    and "se_sessionId ` set (sessions s) = own_ids u d" "[] \<notin> own_ids u d" "\<not> en_fails en QListSessions" "u \<in> set (sv_users d')"
  shows "pending s' = None" and "se_sessionId ` set (sessions s') =
    (if en_fails en QRevokeSessions then own_ids u d else case pending s of Some AllSessions \<Rightarrow> own_ids u d' | _ \<Rightarrow> own_ids u d - revoked_ids cookie s)"
proof -
  consider (one) se where "pending s = Some (SessionTarget se)" "se \<in> set (sessions s)"
    | (all) "pending s = Some AllSessions"
    using assms(2) by (auto simp: session_armed_def split: option.splits pendingDestructive.splits)
  then have "pending s' = None \<and> se_sessionId ` set (sessions s') =
    (if en_fails en QRevokeSessions then own_ids u d else case pending s of Some AllSessions \<Rightarrow> own_ids u d' | _ \<Rightarrow> own_ids u d - revoked_ids cookie s)"
  proof cases
    case one
    have "se_sessionId se \<in> own_ids u d" using assms(3) imageI [OF one(2), of se_sessionId] by simp
    moreover from this have "se_sessionId se \<noteq> []" using assms(4) by auto
    moreover from calculation have "filter (\<lambda>x. ses_id x = se_sessionId se \<and> ses_userId x = usr_id u) (sv_sessions d) \<noteq> []"
      by (auto simp: own_ids_def filter_empty_conv)
    moreover have "se_sessionId ` {x \<in> set (sessions s). se_sessionId x \<noteq> se_sessionId se} = own_ids u d - {se_sessionId se}"
      using assms(3) by auto
    ultimately show ?thesis
      using assms(1,3) one
      by (auto simp: revoke_round_def Let_def revokeSessionRpc_def user_ctx_def revoked_ids_def client_settings_def destroy_defs
          split: if_splits)
  next
    case all
    obtain ss where ss: "listSessionsRpc en (user_ctx u cookie) d' = Inr ss" using listSessions_answers [OF assms(5)] by blast
    then show ?thesis
      using assms(1,3) all listed_sessions(1) [OF ss assms(6)]
      by (auto simp: revoke_round_def Let_def client_settings_def destroy_defs revokeAllOtherSessionsRpc_def
          user_ctx_def split: if_splits sum.splits prod.splits)
  qed
  then show "pending s' = None" and "se_sessionId ` set (sessions s') =
    (if en_fails en QRevokeSessions then own_ids u d else case pending s of Some AllSessions \<Rightarrow> own_ids u d' | _ \<Rightarrow> own_ids u d - revoked_ids cookie s)"
    by auto
qed

section \<open>Properties\<close>


text \<open>An administrator with two sessions revokes the one that does not call.\<close>

definition second_session :: db_session where
  "second_session =
     \<lparr>ses_id = ''b'', ses_userId = 1, ses_userAgent = ''curl/8'', ses_expiresAt = 100, ses_absoluteExpiresAt = 200, ses_lastSeenAt = 0,
      ses_createdAt = 0\<rparr>"

definition two_sessions :: server_db where
  "two_sessions = sample_db\<lparr>sv_sessions := second_session # sv_sessions sample_db\<rparr>"

definition armed_page :: "session list \<Rightarrow> settings" where
  "armed_page ss = (settings_mount None None)\<lparr>sessions := ss, pending := Some (SessionTarget (session_message (en_timestamppb sample_env) ''a'' second_session))\<rparr>"


end
