(* ===== verification/Server_Containers.thy ===== *)
theory Server_Containers
  imports Server_Settings "HOL-Library.List_Lexorder" "HOL-Library.Char_ord"
begin

text \<open>
  The containers on the server: the table they are cached in (\<open>internal/db/containers.sql.go\<close>), the
  broker of the change stream (\<open>internal/container/broker.go\<close>, \<open>stream.go\<close>), the monitor of the
  engine's events (\<open>internal/docker/monitor.go\<close>, with its callback of \<open>cmd/serve.go\<close>), the
  synchronisation at start-up (\<open>sync.go\<close>) and the handlers of the container service (\<open>service.go\<close>,
  \<open>actions.go\<close>); upgrades have their own theory.

  The Docker engine is an argument: a record of the calls the code makes, on a host state of any
  type. A query fails when \<open>fails\<close> says so, with the text \<open>qtext\<close>; \<open>rfc\<close> prints a time, \<open>encode\<close> the
  credentials of a registry. The columns \<open>created_at\<close> and \<open>updated_at\<close> are read by nothing and left
  out.
\<close>

section \<open>The table\<close>

text \<open>A nullable column as the driver returns it.\<close>

datatype db_value = DbNull | DbText string | DbTime int

record db_container =
  cr_id :: string
  cr_name :: string
  cr_image :: string
  cr_imageId :: string
  cr_state :: string
  cr_autoUpdate :: int
  cr_updateAvailable :: int
  cr_latestImageDigest :: db_value
  cr_lastCheckedAt :: db_value
  cr_lastUpdatedAt :: db_value

text \<open>\<open>QReread\<close> is the second query of a row, the one whose result is broadcast.\<close>

datatype cquery =
    QGetContainer
  | QReread
  | QListContainers
  | QSaveContainer
  | QUpsertContainer
  | QDeleteContainer
  | QDeleteOrphans
  | QSetAutoUpdate
  | QUpdateState
  | QUpdateForUpgrade

definition getContainer :: "string \<Rightarrow> db_container list \<Rightarrow> db_container option" where
  "getContainer i rows = List.find (\<lambda>r. cr_id r = i) rows"

definition listContainers :: "db_container list \<Rightarrow> db_container list" where
  "listContainers rows = sort_key cr_name rows"

definition set_row :: "string \<Rightarrow> (db_container \<Rightarrow> db_container) \<Rightarrow> db_container list \<Rightarrow> db_container list" where
  "set_row i f rows = map (\<lambda>r. if cr_id r = i then f r else r) rows"

definition saveContainer :: "db_container \<Rightarrow> db_container list \<Rightarrow> db_container list" where
  "saveContainer c rows = (if cr_id c \<in> cr_id ` set rows then set_row (cr_id c) (\<lambda>_. c) rows else rows @ [c])"

record upsertParams =
  up_id :: string
  up_name :: string
  up_image :: string
  up_imageId :: string
  up_state :: string

definition upsertContainerFromEvent :: "upsertParams \<Rightarrow> db_container list \<Rightarrow> db_container list" where
  "upsertContainerFromEvent p rows =
     (if up_id p \<in> cr_id ` set rows
      then set_row (up_id p)
             (\<lambda>r. r\<lparr>cr_name := up_name p, cr_image := up_image p, cr_imageId := up_imageId p, cr_state := up_state p\<rparr>) rows
      else rows @ [\<lparr>cr_id = up_id p, cr_name = up_name p, cr_image = up_image p, cr_imageId = up_imageId p,
                    cr_state = up_state p, cr_autoUpdate = 0, cr_updateAvailable = 0, cr_latestImageDigest = DbNull,
                    cr_lastCheckedAt = DbNull, cr_lastUpdatedAt = DbNull\<rparr>])"

definition deleteContainer :: "string \<Rightarrow> db_container list \<Rightarrow> db_container list" where
  "deleteContainer i rows = filter (\<lambda>r. cr_id r \<noteq> i) rows"

text \<open>Without ids the query says \<open>NOT IN (NULL)\<close>, which is true of no row.\<close>

definition deleteOrphanContainers :: "string list \<Rightarrow> db_container list \<Rightarrow> db_container list" where
  "deleteOrphanContainers activeIds rows =
     (if activeIds = [] then rows else filter (\<lambda>r. cr_id r \<in> set activeIds) rows)"

definition setAutoUpdate_row :: "string \<Rightarrow> int \<Rightarrow> db_container list \<Rightarrow> db_container list" where
  "setAutoUpdate_row i v rows = set_row i (\<lambda>r. r\<lparr>cr_autoUpdate := v\<rparr>) rows"

definition updateState_row :: "string \<Rightarrow> int \<Rightarrow> string \<Rightarrow> int \<Rightarrow> db_container list \<Rightarrow> db_container list" where
  "updateState_row i avail digest now rows =
     set_row i (\<lambda>r. r\<lparr>cr_updateAvailable := avail, cr_latestImageDigest := DbText digest, cr_lastCheckedAt := DbTime now\<rparr>) rows"

section \<open>Messages and the broker\<close>

definition digest_text :: "db_value \<Rightarrow> string" where
  "digest_text v = (case v of DbText s \<Rightarrow> s | _ \<Rightarrow> [])"

definition time_text :: "(int \<Rightarrow> string) \<Rightarrow> db_value \<Rightarrow> string" where
  "time_text rfc v = (case v of DbTime t \<Rightarrow> rfc t | DbText s \<Rightarrow> s | DbNull \<Rightarrow> [])"

definition mapContainerRecord :: "(int \<Rightarrow> string) \<Rightarrow> db_container \<Rightarrow> wireContainer" where
  "mapContainerRecord rfc r =
     \<lparr>wc_id = cr_id r, wc_name = cr_name r, wc_image = cr_image r, wc_imageId = cr_imageId r, wc_state = cr_state r,
      wc_autoUpdate = (cr_autoUpdate r \<noteq> 0), wc_updateAvailable = (cr_updateAvailable r \<noteq> 0),
      wc_latestImageDigest = digest_text (cr_latestImageDigest r), wc_lastCheckedAt = time_text rfc (cr_lastCheckedAt r),
      wc_lastUpdatedAt = time_text rfc (cr_lastUpdatedAt r)\<rparr>"

definition save_event :: "(int \<Rightarrow> string) \<Rightarrow> db_container \<Rightarrow> streamContainersResponse" where
  "save_event rfc r = \<lparr>sc_action = ''save'', sc_container = Some (mapContainerRecord rfc r), sc_containerId = cr_id r\<rparr>"

definition delete_event :: "string \<Rightarrow> streamContainersResponse" where
  "delete_event i = \<lparr>sc_action = ''delete'', sc_container = None, sc_containerId = i\<rparr>"

text \<open>The channels of the subscribers, numbered, with what each has buffered.\<close>

record broker =
  br_subscribers :: "(nat \<times> streamContainersResponse list) list"
  br_next :: nat

definition newBroker :: broker where
  "newBroker = \<lparr>br_subscribers = [], br_next = 0\<rparr>"

definition channel_capacity :: nat where "channel_capacity = 100"

definition subscribe :: "broker \<Rightarrow> nat \<times> broker" where
  "subscribe b = (br_next b, b\<lparr>br_subscribers := br_subscribers b @ [(br_next b, [])], br_next := Suc (br_next b)\<rparr>)"

definition unsubscribe :: "nat \<Rightarrow> broker \<Rightarrow> broker" where
  "unsubscribe ch b = b\<lparr>br_subscribers := filter (\<lambda>(c, _). c \<noteq> ch) (br_subscribers b)\<rparr>"

definition publish :: "streamContainersResponse \<Rightarrow> broker \<Rightarrow> broker" where
  "publish ev b =
     b\<lparr>br_subscribers := map (\<lambda>(ch, buf). (ch, if length buf < channel_capacity then buf @ [ev] else buf)) (br_subscribers b)\<rparr>"

text \<open>
  The loop of the stream handler: what it does next when the context is still open, a send fails
  or not. \<open>None\<close> is waiting; \<open>Inl\<close> the end of the call, which unsubscribes; \<open>Inr\<close> a message sent.
\<close>

definition queue :: "nat \<Rightarrow> broker \<Rightarrow> streamContainersResponse list" where
  "queue ch b = (case map_of (br_subscribers b) ch of None \<Rightarrow> [] | Some buf \<Rightarrow> buf)"

definition dequeue :: "nat \<Rightarrow> broker \<Rightarrow> broker" where
  "dequeue ch b = b\<lparr>br_subscribers := map (\<lambda>(c, buf). (c, if c = ch then tl buf else buf)) (br_subscribers b)\<rparr>"

definition streamContainers_next ::
  "bool \<Rightarrow> (streamContainersResponse \<Rightarrow> string option) \<Rightarrow> nat \<Rightarrow> broker \<Rightarrow> (string + streamContainersResponse) option \<times> broker" where
  "streamContainers_next cancelled send ch b =
     (if cancelled then (Some (Inl ''context canceled''), unsubscribe ch b)
      else case queue ch b of
        [] \<Rightarrow> (None, b)
      | ev # _ \<Rightarrow>
          (case send ev of
             Some err \<Rightarrow> (Some (Inl err), unsubscribe ch (dequeue ch b))
           | None \<Rightarrow> (Some (Inr ev), dequeue ch b)))"

section \<open>The engine\<close>

text \<open>What is not looked at of a configuration is opaque text.\<close>

record config =
  cf_image :: string
  cf_rest :: string

record inspect =
  in_name :: string
  in_imageId :: string
  in_config :: "config option"
  in_hostConfig :: string
  in_state :: "(string \<times> bool) option"
  in_networks :: "(string \<times> string) list"

record docker_error =
  de_notFound :: bool
  de_text :: string

record listed =
  li_id :: string
  li_names :: "string list"
  li_image :: string
  li_imageId :: string
  li_state :: string

record createOptions =
  co_config :: "config option"
  co_hostConfig :: string
  co_networks :: "(string \<times> string) list"
  co_name :: string

record 'h engine =
  eg_list :: "'h \<Rightarrow> string + listed list"
  eg_inspect :: "string \<Rightarrow> 'h \<Rightarrow> docker_error + inspect"
  eg_start :: "string \<Rightarrow> 'h \<Rightarrow> string option \<times> 'h"
  eg_stop :: "string \<Rightarrow> 'h \<Rightarrow> string option \<times> 'h"
  eg_remove :: "string \<Rightarrow> 'h \<Rightarrow> string option \<times> 'h"
  eg_create :: "createOptions \<Rightarrow> 'h \<Rightarrow> (string + string) \<times> 'h"
  eg_connect :: "string \<Rightarrow> string \<Rightarrow> string \<Rightarrow> 'h \<Rightarrow> string option \<times> 'h"
  eg_pull :: "string \<Rightarrow> string \<Rightarrow> 'h \<Rightarrow> string option \<times> 'h"
  eg_imageInspect :: "string \<Rightarrow> 'h \<Rightarrow> string + (string \<times> string list)"
  eg_distribution :: "string \<Rightarrow> string \<Rightarrow> 'h \<Rightarrow> string + string"

record 'h csrv =
  cs_host :: 'h
  cs_rows :: "db_container list"
  cs_broker :: broker

text \<open>What ends a call without an answer: an error of the protocol, or a nil pointer that is followed.\<close>

datatype call_failure = Refused connect_error | Panicked

definition broadcast :: "(cquery \<Rightarrow> bool) \<Rightarrow> (int \<Rightarrow> string) \<Rightarrow> string \<Rightarrow> 'h csrv \<Rightarrow> 'h csrv" where
  "broadcast fails rfc i s =
     (if fails QReread then s
      else case getContainer i (cs_rows s) of
        None \<Rightarrow> s
      | Some r \<Rightarrow> s\<lparr>cs_broker := publish (save_event rfc r) (cs_broker s)\<rparr>)"

section \<open>The monitor\<close>

definition trimSlash :: "string \<Rightarrow> string" where
  "trimSlash s = (case s of c # cs \<Rightarrow> if c = CHR ''/'' then cs else s | [] \<Rightarrow> [])"

definition inspected :: "string \<Rightarrow> inspect \<Rightarrow> upsertParams" where
  "inspected i ins =
     \<lparr>up_id = i, up_name = trimSlash (in_name ins),
      up_image = (case in_config ins of None \<Rightarrow> [] | Some c \<Rightarrow> cf_image c), up_imageId = in_imageId ins,
      up_state = (case in_state ins of None \<Rightarrow> [] | Some (st, _) \<Rightarrow> st)\<rparr>"

definition inspected_actions :: "string list" where
  "inspected_actions = [''create'', ''start'', ''stop'', ''die'', ''update'']"

definition handleEvent ::
  "(cquery \<Rightarrow> bool) \<Rightarrow> (int \<Rightarrow> string) \<Rightarrow> 'h engine \<Rightarrow> string \<Rightarrow> string \<Rightarrow> 'h csrv \<Rightarrow> 'h csrv" where
  "handleEvent fails rfc E action i s =
     (if i = [] then s
      else if action = ''destroy'' \<or> action = ''delete''
      then (if fails QDeleteContainer then s
            else s\<lparr>cs_rows := deleteContainer i (cs_rows s), cs_broker := publish (delete_event i) (cs_broker s)\<rparr>)
      else if action \<in> set inspected_actions
      then (case eg_inspect E i (cs_host s) of
              Inl _ \<Rightarrow> s
            | Inr ins \<Rightarrow>
                if fails QUpsertContainer then s
                else broadcast fails rfc i (s\<lparr>cs_rows := upsertContainerFromEvent (inspected i ins) (cs_rows s)\<rparr>))
      else s)"

text \<open>The loop around it: it listens, waits a second after an error of the event stream, or has ended.\<close>

datatype monitor_phase = Listening | Backoff | MonitorEnded

datatype monitor_input = DockerEvent string string | EventsFailed bool | BackoffOver | ContextDone

fun monitor_step ::
  "(cquery \<Rightarrow> bool) \<Rightarrow> (int \<Rightarrow> string) \<Rightarrow> 'h engine \<Rightarrow> monitor_input \<Rightarrow> monitor_phase \<times> 'h csrv \<Rightarrow> monitor_phase \<times> 'h csrv" where
  "monitor_step fails rfc E (DockerEvent action i) (p, s) =
     (if p = Listening then (p, handleEvent fails rfc E action i s) else (p, s))"
| "monitor_step fails rfc E (EventsFailed cancelled) (p, s) =
     (if p = Listening then (if cancelled then MonitorEnded else Backoff, s) else (p, s))"
| "monitor_step fails rfc E BackoffOver (p, s) = (if p = Backoff then Listening else p, s)"
| "monitor_step fails rfc E ContextDone (p, s) = (MonitorEnded, s)"

section \<open>Start-up\<close>

definition listed_params :: "listed \<Rightarrow> upsertParams" where
  "listed_params c =
     \<lparr>up_id = li_id c, up_name = (case li_names c of [] \<Rightarrow> [] | n # _ \<Rightarrow> trimSlash n), up_image = li_image c,
      up_imageId = li_imageId c, up_state = li_state c\<rparr>"

definition syncContainers ::
  "(cquery \<Rightarrow> bool) \<Rightarrow> (cquery \<Rightarrow> string) \<Rightarrow> 'h engine \<Rightarrow> 'h \<Rightarrow> db_container list \<Rightarrow> string option \<times> db_container list" where
  "syncContainers fails qtext E h rows =
     (case eg_list E h of
        Inl err \<Rightarrow> (Some err, rows)
      | Inr [] \<Rightarrow> if fails QDeleteOrphans then (Some (qtext QDeleteOrphans), rows) else (None, deleteOrphanContainers [] rows)
      | Inr cs \<Rightarrow>
          if fails QUpsertContainer then (Some (qtext QUpsertContainer), rows)
          else (let rows1 = fold (\<lambda>c. upsertContainerFromEvent (listed_params c)) cs rows
                in if fails QDeleteOrphans then (Some (qtext QDeleteOrphans), rows1)
                   else (None, deleteOrphanContainers (map li_id cs) rows1)))"

section \<open>The handlers\<close>

definition listContainersRpc ::
  "(cquery \<Rightarrow> bool) \<Rightarrow> (cquery \<Rightarrow> string) \<Rightarrow> (int \<Rightarrow> string) \<Rightarrow> 'h csrv \<Rightarrow> connect_error + wireContainer list" where
  "listContainersRpc fails qtext rfc s =
     (if fails QListContainers then Inl (NewError codeInternal (qtext QListContainers))
      else Inr (map (mapContainerRecord rfc) (listContainers (cs_rows s))))"

text \<open>What every handler checks first.\<close>

definition action_guard :: "ctx \<Rightarrow> string \<Rightarrow> connect_error option" where
  "action_guard cx i =
     (case cx_user cx of
        None \<Rightarrow> Some (NewError codeUnauthenticated ''unauthenticated'')
      | Some u \<Rightarrow>
          if usr_role u \<noteq> adminRole then Some (NewError codePermissionDenied ''admin privilege required'')
          else if i = [] then Some (NewError codeInvalidArgument ''container ID is required'') else None)"

definition find_existing :: "(cquery \<Rightarrow> bool) \<Rightarrow> (cquery \<Rightarrow> string) \<Rightarrow> string \<Rightarrow> db_container list \<Rightarrow> connect_error + db_container" where
  "find_existing fails qtext i rows =
     (if fails QGetContainer then Inl (NewError codeInternal (''failed to query container from DB: '' @ qtext QGetContainer))
      else case getContainer i rows of
        None \<Rightarrow> Inl (NewError codeNotFound ''container not found'')
      | Some r \<Rightarrow> Inr r)"

definition inspect_existing :: "'h engine \<Rightarrow> string \<Rightarrow> 'h \<Rightarrow> connect_error + inspect" where
  "inspect_existing E i h =
     (case eg_inspect E i h of
        Inl e \<Rightarrow> Inl (if de_notFound e then NewError codeNotFound ''container not found on Docker host''
                     else NewError codeInternal (''failed to inspect container: '' @ de_text e))
      | Inr ins \<Rightarrow> Inr ins)"

text \<open>
  The body that starting and stopping share: \<open>act\<close> is the call of the engine, \<open>failed\<close> and \<open>after\<close> the
  texts of the two errors that differ. The answer is the state before and after.
\<close>

definition save_state ::
  "(cquery \<Rightarrow> bool) \<Rightarrow> (cquery \<Rightarrow> string) \<Rightarrow> (int \<Rightarrow> string) \<Rightarrow> db_container \<Rightarrow> string \<Rightarrow> 'h csrv \<Rightarrow> call_failure option \<times> 'h csrv" where
  "save_state fails qtext rfc existing st s =
     (if fails QSaveContainer
      then (Some (Refused (NewError codeInternal (''failed to update container state in DB: '' @ qtext QSaveContainer))), s)
      else (None, broadcast fails rfc (cr_id existing) (s\<lparr>cs_rows := saveContainer (existing\<lparr>cr_state := st\<rparr>) (cs_rows s)\<rparr>)))"

definition act_on_host ::
  "(string \<Rightarrow> 'h \<Rightarrow> string option \<times> 'h) \<Rightarrow> string \<Rightarrow> string \<Rightarrow> 'h engine \<Rightarrow> string \<Rightarrow> 'h \<Rightarrow> (call_failure + string \<times> string) \<times> 'h" where
  "act_on_host act failed after E i h =
     (case inspect_existing E i h of
        Inl e \<Rightarrow> (Inl (Refused e), h)
      | Inr ins \<Rightarrow>
          (case in_state ins of
             None \<Rightarrow> (Inl Panicked, h)
           | Some (previous, _) \<Rightarrow>
               (case act i h of
                  (Some err, h1) \<Rightarrow> (Inl (Refused (NewError codeInternal (failed @ err))), h1)
                | (None, h1) \<Rightarrow>
                    (case eg_inspect E i h1 of
                       Inl e \<Rightarrow> (Inl (Refused (NewError codeInternal (after @ de_text e))), h1)
                     | Inr ins1 \<Rightarrow>
                         (case in_state ins1 of
                            None \<Rightarrow> (Inl Panicked, h1)
                          | Some (current, _) \<Rightarrow> (Inr (previous, current), h1))))))"

definition change_state ::
  "('h engine \<Rightarrow> string \<Rightarrow> 'h \<Rightarrow> string option \<times> 'h) \<Rightarrow> string \<Rightarrow> string \<Rightarrow> (cquery \<Rightarrow> bool) \<Rightarrow> (cquery \<Rightarrow> string) \<Rightarrow>
     (int \<Rightarrow> string) \<Rightarrow> 'h engine option \<Rightarrow> ctx \<Rightarrow> string \<Rightarrow> 'h csrv \<Rightarrow> (call_failure + string \<times> string) \<times> 'h csrv" where
  "change_state act failed after fails qtext rfc docker cx i s =
     (case action_guard cx i of
        Some e \<Rightarrow> (Inl (Refused e), s)
      | None \<Rightarrow>
          (case find_existing fails qtext i (cs_rows s) of
             Inl e \<Rightarrow> (Inl (Refused e), s)
           | Inr existing \<Rightarrow>
               (case docker of
                  None \<Rightarrow> (Inl (Refused (NewError codeInternal ''docker client not initialized'')), s)
                | Some E \<Rightarrow>
                    (case act_on_host (act E) failed after E i (cs_host s) of
                       (Inl e, h1) \<Rightarrow> (Inl e, s\<lparr>cs_host := h1\<rparr>)
                     | (Inr (previous, current), h1) \<Rightarrow>
                         (case save_state fails qtext rfc existing current (s\<lparr>cs_host := h1\<rparr>) of
                            (Some e, s1) \<Rightarrow> (Inl e, s1)
                          | (None, s1) \<Rightarrow> (Inr (previous, current), s1))))))"

definition startContainerRpc ::
  "(cquery \<Rightarrow> bool) \<Rightarrow> (cquery \<Rightarrow> string) \<Rightarrow> (int \<Rightarrow> string) \<Rightarrow> 'h engine option \<Rightarrow> ctx \<Rightarrow> startContainerRequest \<Rightarrow> 'h csrv \<Rightarrow>
     (call_failure + startContainerResponse) \<times> 'h csrv" where
  "startContainerRpc fails qtext rfc docker cx q s =
     (case change_state eg_start ''failed to start container: '' ''failed to inspect container after start: ''
             fails qtext rfc docker cx (stc_id q) s of
        (Inl e, s1) \<Rightarrow> (Inl e, s1)
      | (Inr (previous, current), s1) \<Rightarrow>
          (Inr \<lparr>str_id = stc_id q, str_previousState = previous, str_currentState = current\<rparr>, s1))"

definition stopContainerRpc ::
  "(cquery \<Rightarrow> bool) \<Rightarrow> (cquery \<Rightarrow> string) \<Rightarrow> (int \<Rightarrow> string) \<Rightarrow> 'h engine option \<Rightarrow> ctx \<Rightarrow> stopContainerRequest \<Rightarrow> 'h csrv \<Rightarrow>
     (call_failure + stopContainerResponse) \<times> 'h csrv" where
  "stopContainerRpc fails qtext rfc docker cx q s =
     (case change_state eg_stop ''failed to stop container: '' ''failed to inspect container after stop: ''
             fails qtext rfc docker cx (spc_id q) s of
        (Inl e, s1) \<Rightarrow> (Inl e, s1)
      | (Inr (previous, current), s1) \<Rightarrow>
          (Inr \<lparr>spr_id = spc_id q, spr_previousState = previous, spr_currentState = current\<rparr>, s1))"

record setContainerAutoUpdateResponse =
  saur_id :: string
  saur_autoUpdate :: bool

definition setContainerAutoUpdateRpc ::
  "(cquery \<Rightarrow> bool) \<Rightarrow> (cquery \<Rightarrow> string) \<Rightarrow> (int \<Rightarrow> string) \<Rightarrow> ctx \<Rightarrow> setContainerAutoUpdateRequest \<Rightarrow> 'h csrv \<Rightarrow>
     (call_failure + setContainerAutoUpdateResponse) \<times> 'h csrv" where
  "setContainerAutoUpdateRpc fails qtext rfc cx q s =
     (case action_guard cx (sau_id q) of
        Some e \<Rightarrow> (Inl (Refused e), s)
      | None \<Rightarrow>
          (case find_existing fails qtext (sau_id q) (cs_rows s) of
             Inl e \<Rightarrow> (Inl (Refused e), s)
           | Inr existing \<Rightarrow>
               if fails QSetAutoUpdate
               then (Inl (Refused (NewError codeInternal (''failed to update auto-update setting: '' @ qtext QSetAutoUpdate))), s)
               else (Inr \<lparr>saur_id = sau_id q, saur_autoUpdate = sau_autoUpdate q\<rparr>,
                     broadcast fails rfc (sau_id q)
                       (s\<lparr>cs_rows := setAutoUpdate_row (sau_id q) (if sau_autoUpdate q then 1 else 0) (cs_rows s)\<rparr>))))"

section \<open>Checking for updates\<close>

definition dockerIO :: string where "dockerIO = ''docker.io''"

definition getRegistryHost :: "string \<Rightarrow> string" where
  "getRegistryHost imageRef =
     (case split_on (CHR ''/'') imageRef of
        firstPart # _ # _ \<Rightarrow>
          if CHR ''.'' \<in> set firstPart \<or> CHR '':'' \<in> set firstPart \<or> firstPart = ''localhost'' then firstPart else dockerIO
      | _ \<Rightarrow> dockerIO)"

definition normalizeHost :: "string \<Rightarrow> string" where
  "normalizeHost h =
     (let l = toLowerCase h in
      if l = ''index.docker.io'' \<or> l = ''registry-1.docker.io'' \<or> l = dockerIO then dockerIO else l)"

definition hostMatches :: "string \<Rightarrow> string \<Rightarrow> bool" where
  "hostMatches imageHost regHost \<longleftrightarrow> normalizeHost imageHost = normalizeHost regHost"

text \<open>The credentials sent; an encoding that fails is logged and none are sent.\<close>

definition getRegistryAuth :: "(registry \<Rightarrow> string option) \<Rightarrow> registry list \<Rightarrow> string \<Rightarrow> string" where
  "getRegistryAuth encode registries imageRef =
     (case List.find (\<lambda>reg. rg_host reg \<noteq> [] \<and> hostMatches (getRegistryHost imageRef) (rg_host reg)) registries of
        None \<Rightarrow> []
      | Some reg \<Rightarrow> (case encode reg of None \<Rightarrow> [] | Some header \<Rightarrow> header))"

fun isUpdateAvailable :: "string list \<Rightarrow> string \<Rightarrow> bool" where
  "isUpdateAvailable [] remoteDigest \<longleftrightarrow> remoteDigest \<noteq> []"
| "isUpdateAvailable (rd # rds) remoteDigest \<longleftrightarrow>
     (if remoteDigest = [] then False
      else case split_on (CHR ''@'') rd of
        [_, digest] \<Rightarrow> if digest = remoteDigest then False else isUpdateAvailable rds remoteDigest
      | _ \<Rightarrow> isUpdateAvailable rds remoteDigest)"

datatype check_error = ErrNoRows | CheckError string

text \<open>The image to ask the registry for, and the local one to compare it with.\<close>

definition image_of :: "'h engine \<Rightarrow> db_container \<Rightarrow> 'h \<Rightarrow> string \<times> string" where
  "image_of E existing h =
     (case eg_inspect E (cr_id existing) h of
        Inl _ \<Rightarrow> (cr_image existing, cr_imageId existing)
      | Inr ins \<Rightarrow>
          (case in_config ins of
             None \<Rightarrow> cr_image existing
           | Some c \<Rightarrow> if cf_image c \<noteq> [] then cf_image c else cr_image existing,
           if in_imageId ins \<noteq> [] then in_imageId ins else cr_imageId existing))"

definition checkContainerUpdatesInternal ::
  "(cquery \<Rightarrow> bool) \<Rightarrow> (cquery \<Rightarrow> string) \<Rightarrow> (int \<Rightarrow> string) \<Rightarrow> (string \<Rightarrow> string) \<Rightarrow> int \<Rightarrow> 'h engine option \<Rightarrow> string \<Rightarrow>
     'h csrv \<Rightarrow> (check_error + bool \<times> string) \<times> 'h csrv" where
  "checkContainerUpdatesInternal fails qtext rfc auth now docker i s =
     (if fails QGetContainer then (Inl (CheckError (qtext QGetContainer)), s)
      else case getContainer i (cs_rows s) of
        None \<Rightarrow> (Inl ErrNoRows, s)
      | Some existing \<Rightarrow>
          (case docker of
             None \<Rightarrow> (Inl (CheckError ''docker client not initialized''), s)
           | Some E \<Rightarrow>
               (let (imageRef, localImageID) = image_of E existing (cs_host s) in
                case eg_distribution E imageRef (auth imageRef) (cs_host s) of
                  Inl err \<Rightarrow> (Inl (CheckError (''failed to query registry for image '' @ imageRef @ '': '' @ err)), s)
                | Inr remoteDigest \<Rightarrow>
                    if remoteDigest = [] then (Inl (CheckError (''registry returned empty digest for image '' @ imageRef)), s)
                    else (let repoDigests = (case eg_imageInspect E localImageID (cs_host s) of Inl _ \<Rightarrow> [] | Inr (_, ds) \<Rightarrow> ds);
                              updateAvailable = isUpdateAvailable repoDigests remoteDigest
                          in if fails QUpdateState
                             then (Inl (CheckError (''failed to update container state in DB: '' @ qtext QUpdateState)), s)
                             else (Inr (updateAvailable, remoteDigest),
                                   broadcast fails rfc i
                                     (s\<lparr>cs_rows := updateState_row i (if updateAvailable then 1 else 0) remoteDigest now (cs_rows s)\<rparr>))))))"

definition checkContainerUpdatesRpc ::
  "(cquery \<Rightarrow> bool) \<Rightarrow> (cquery \<Rightarrow> string) \<Rightarrow> (int \<Rightarrow> string) \<Rightarrow> (string \<Rightarrow> string) \<Rightarrow> int \<Rightarrow> 'h engine option \<Rightarrow> ctx \<Rightarrow>
     checkContainerUpdatesRequest \<Rightarrow> 'h csrv \<Rightarrow> (call_failure + checkContainerUpdatesResponse) \<times> 'h csrv" where
  "checkContainerUpdatesRpc fails qtext rfc auth now docker cx q s =
     (case action_guard cx (ccu_id q) of
        Some e \<Rightarrow> (Inl (Refused e), s)
      | None \<Rightarrow>
          (case checkContainerUpdatesInternal fails qtext rfc auth now docker (ccu_id q) s of
             (Inl ErrNoRows, s1) \<Rightarrow> (Inl (Refused (NewError codeNotFound ''container not found'')), s1)
           | (Inl (CheckError err), s1) \<Rightarrow> (Inl (Refused (NewError codeInternal err)), s1)
           | (Inr (avail, digest), s1) \<Rightarrow>
               (Inr \<lparr>cu_id = ccu_id q, cu_updateAvailable = avail, cu_latestImageDigest = digest\<rparr>, s1)))"

section \<open>Lookups\<close>

definition row_ids :: "db_container list \<Rightarrow> string list" where
  "row_ids rows = map cr_id rows"

lemma getContainer_map: "getContainer i rows = map_of (map (\<lambda>r. (cr_id r, r)) rows) i"
  by (induction rows) (auto simp: getContainer_def)

lemma getContainer_None: "getContainer i rows = None \<longleftrightarrow> i \<notin> set (row_ids rows)"
  by (auto simp: getContainer_def find_None_iff row_ids_def)

lemma getContainer_SomeD: "getContainer i rows = Some r \<Longrightarrow> r \<in> set rows \<and> cr_id r = i"
  by (auto simp: getContainer_def find_Some_iff)

lemma getContainer_append:
  "getContainer i (rows @ [c]) = (case getContainer i rows of Some r \<Rightarrow> Some r | None \<Rightarrow> if cr_id c = i then Some c else None)"
  by (induction rows) (auto simp: getContainer_def)

lemma getContainer_set_row:
  assumes "\<And>r. cr_id r = i \<Longrightarrow> cr_id (f r) = i"
  shows "getContainer j (set_row i f rows) = (if j = i then map_option f (getContainer i rows) else getContainer j rows)"
  using assms by (induction rows) (auto simp: getContainer_def set_row_def)

lemma row_ids_set_row: "(\<And>r. cr_id r = i \<Longrightarrow> cr_id (f r) = i) \<Longrightarrow> row_ids (set_row i f rows) = row_ids rows"
  by (induction rows) (auto simp: row_ids_def set_row_def)

lemma getContainer_save [simp]:
  "getContainer j (saveContainer c rows) = (if j = cr_id c then Some c else getContainer j rows)"
proof (cases "cr_id c \<in> set (row_ids rows)")
  case True
  moreover then obtain r where "getContainer (cr_id c) rows = Some r" by (metis getContainer_None not_None_eq)
  ultimately show ?thesis by (auto simp: saveContainer_def getContainer_set_row row_ids_def)
next
  case False
  then have "getContainer (cr_id c) rows = None" by (simp add: getContainer_None)
  with False show ?thesis by (auto simp: saveContainer_def getContainer_append row_ids_def split: option.splits)
qed

lemma row_ids_save [simp]:
  "row_ids (saveContainer c rows) = (if cr_id c \<in> set (row_ids rows) then row_ids rows else row_ids rows @ [cr_id c])"
  by (simp add: saveContainer_def row_ids_set_row) (simp add: row_ids_def)

definition upserted :: "upsertParams \<Rightarrow> db_container option \<Rightarrow> db_container" where
  "upserted p old =
     (case old of
        Some r \<Rightarrow> r\<lparr>cr_name := up_name p, cr_image := up_image p, cr_imageId := up_imageId p, cr_state := up_state p\<rparr>
      | None \<Rightarrow> \<lparr>cr_id = up_id p, cr_name = up_name p, cr_image = up_image p, cr_imageId = up_imageId p,
                 cr_state = up_state p, cr_autoUpdate = 0, cr_updateAvailable = 0, cr_latestImageDigest = DbNull,
                 cr_lastCheckedAt = DbNull, cr_lastUpdatedAt = DbNull\<rparr>)"

lemma getContainer_upsert [simp]:
  "getContainer j (upsertContainerFromEvent p rows) =
     (if j = up_id p then Some (upserted p (getContainer j rows)) else getContainer j rows)"
proof (cases "up_id p \<in> set (row_ids rows)")
  case True
  moreover then obtain r where "getContainer (up_id p) rows = Some r" by (metis getContainer_None not_None_eq)
  ultimately show ?thesis
    by (auto simp: upsertContainerFromEvent_def getContainer_set_row row_ids_def upserted_def)
next
  case False
  then have "getContainer (up_id p) rows = None" by (simp add: getContainer_None)
  with False show ?thesis
    by (auto simp: upsertContainerFromEvent_def getContainer_append row_ids_def upserted_def split: option.splits)
qed

lemma row_ids_upsert [simp]:
  "row_ids (upsertContainerFromEvent p rows) = (if up_id p \<in> set (row_ids rows) then row_ids rows else row_ids rows @ [up_id p])"
  by (simp add: upsertContainerFromEvent_def row_ids_set_row) (simp add: row_ids_def)

lemma getContainer_delete [simp]:
  "getContainer j (deleteContainer i rows) = (if j = i then None else getContainer j rows)"
  by (induction rows) (auto simp: getContainer_def deleteContainer_def)

lemma row_ids_delete [simp]: "row_ids (deleteContainer i rows) = filter (\<lambda>j. j \<noteq> i) (row_ids rows)"
  by (induction rows) (auto simp: deleteContainer_def row_ids_def)

lemma getContainer_setAutoUpdate [simp]:
  "getContainer j (setAutoUpdate_row i v rows) =
     (if j = i then map_option (\<lambda>r. r\<lparr>cr_autoUpdate := v\<rparr>) (getContainer i rows) else getContainer j rows)"
  by (simp add: setAutoUpdate_row_def getContainer_set_row)

lemma getContainer_updateState [simp]:
  "getContainer j (updateState_row i a g now rows) =
     (if j = i then map_option (\<lambda>r. r\<lparr>cr_updateAvailable := a, cr_latestImageDigest := DbText g, cr_lastCheckedAt := DbTime now\<rparr>)
                      (getContainer i rows)
      else getContainer j rows)"
  by (simp add: updateState_row_def getContainer_set_row)

lemma row_ids_rows [simp]:
  "row_ids (setAutoUpdate_row i v rows) = row_ids rows" "row_ids (updateState_row i a g now rows) = row_ids rows"
  by (simp_all add: setAutoUpdate_row_def updateState_row_def row_ids_set_row)

lemma broadcast_rows [simp]: "cs_rows (broadcast fails rfc i s) = cs_rows s" "cs_host (broadcast fails rfc i s) = cs_host s"
  by (simp_all add: broadcast_def split: option.splits)

section \<open>Synchronisation\<close>

lemma sync_fold_ids: "set (row_ids (fold (\<lambda>c. upsertContainerFromEvent (listed_params c)) cs rows)) = set (row_ids rows) \<union> li_id ` set cs"
  by (induction cs arbitrary: rows) (auto simp: listed_params_def)

lemma upsert_auto:
  "map_option cr_autoUpdate (getContainer i rows) = Some a \<Longrightarrow>
     map_option cr_autoUpdate (getContainer i (upsertContainerFromEvent p rows)) = Some a"
  by (auto simp: upserted_def)

lemma sync_fold_auto:
  "map_option cr_autoUpdate (getContainer i rows) = Some a \<Longrightarrow>
     map_option cr_autoUpdate (getContainer i (fold (\<lambda>c. upsertContainerFromEvent (listed_params c)) cs rows)) = Some a"
proof (induction cs arbitrary: rows)
  case (Cons c cs)
  then show ?case using upsert_auto [of i rows a "listed_params c"] by simp
qed simp

text \<open>
  After the synchronisation the table has exactly the containers of the host, if there are any, and
  those it had before keep their setting; on a host without containers the rows of those that are
  gone stay.
\<close>

lemma getContainer_orphans:
  "ids \<noteq> [] \<Longrightarrow> getContainer i (deleteOrphanContainers ids rows) = (if i \<in> set ids then getContainer i rows else None)"
  by (induction rows) (auto simp: getContainer_def deleteOrphanContainers_def)

lemma row_ids_orphans: "ids \<noteq> [] \<Longrightarrow> row_ids (deleteOrphanContainers ids rows) = filter (\<lambda>i. i \<in> set ids) (row_ids rows)"
  by (induction rows) (auto simp: deleteOrphanContainers_def row_ids_def)

lemma sync_exact:
  assumes "eg_list E h = Inr cs" "cs \<noteq> []" "\<And>q. \<not> fails q"
  obtains rows' where "syncContainers fails qtext E h rows = (None, rows')" "set (row_ids rows') = li_id ` set cs"
    "\<And>i r. getContainer i rows = Some r \<Longrightarrow> i \<in> li_id ` set cs \<Longrightarrow> map_option cr_autoUpdate (getContainer i rows') = Some (cr_autoUpdate r)"
proof -
  let ?rows = "fold (\<lambda>c. upsertContainerFromEvent (listed_params c)) cs rows"
  let ?rows' = "deleteOrphanContainers (map li_id cs) ?rows"
  have "syncContainers fails qtext E h rows = (None, ?rows')"
    using assms by (cases cs) (simp_all add: syncContainers_def Let_def)
  moreover have "set (row_ids ?rows') = li_id ` set cs"
    using sync_fold_ids [of cs rows] assms(2) by (auto simp: row_ids_orphans)
  moreover have "map_option cr_autoUpdate (getContainer i ?rows') = Some (cr_autoUpdate r)"
    if "getContainer i rows = Some r" "i \<in> li_id ` set cs" for i r
    using sync_fold_auto [of i rows] that assms(2) by (simp add: getContainer_orphans)
  ultimately show thesis by (rule that)
qed

lemma sync_empty_keeps_orphans:
  assumes "eg_list E h = Inr []" "\<And>q. \<not> fails q"
  shows "syncContainers fails qtext E h rows = (None, rows)"
  using assms by (simp add: syncContainers_def deleteOrphanContainers_def)

section \<open>What is missed\<close>

text \<open>A container that is renamed keeps its old name, until another event of it is handled.\<close>

lemma rename_ignored: "handleEvent fails rfc E ''rename'' i s = s"
  by (simp add: handleEvent_def inspected_actions_def)

text \<open>
  Events of the second without a subscription are not made up for: the loop subscribes again and
  does not compare the table with the host.
\<close>

lemma gap_unseen:
  "fold (monitor_step fails rfc E) [EventsFailed False, DockerEvent ''destroy'' i, BackoffOver] (Listening, s) = (Listening, s)"
  by simp

text \<open>
  Starting a container writes the whole row it read before: a setting changed meanwhile is undone,
  and the row of a container that was deleted meanwhile comes back.
\<close>

lemma start_overwrites:
  assumes "\<And>q. \<not> fails q" "s' = snd (save_state fails qtext rfc existing st s)"
  shows "getContainer (cr_id existing) (cs_rows s') = Some (existing\<lparr>cr_state := st\<rparr>)"
  using assms by (simp add: save_state_def)

section \<open>Updates\<close>

text \<open>An update is available exactly when the local image has no digest like the registry's.\<close>

lemma isUpdateAvailable_iff:
  "isUpdateAvailable rds g \<longleftrightarrow> g \<noteq> [] \<and> (\<forall>rd \<in> set rds. \<forall>repo. split_on (CHR ''@'') rd \<noteq> [repo, g])"
  by (induction rds) (auto split: list.splits)

end
