(* ===== verification/Server_Upgrade.thy ===== *)
theory Server_Upgrade
  imports Server_Containers
begin

text \<open>
  Upgrading a container on the server (\<open>internal/container/upgrade.go\<close>), by a user or by the
  scheduler (\<open>scheduler.go\<close>), which checks all containers and upgrades those that ask for it.

  An upgrade is cut where the code's own steps are: preparing (up to the inspection of the new
  image), removing the old container, creating and starting the new one, and storing the result.
  Networks are listed in the order in which the code happens to iterate over them.
\<close>

section \<open>The upgrade\<close>

record upgradeContainerResponse =
  ugr_id :: string
  ugr_previousImageId :: string
  ugr_currentImageId :: string

definition internal_error :: "string \<Rightarrow> call_failure" where
  "internal_error text = Refused (NewError codeInternal text)"

text \<open>The row found, the inspection of the container, its image, and the id of the pulled image.\<close>

definition prepareUpgrade ::
  "(string \<Rightarrow> string) \<Rightarrow> 'h engine \<Rightarrow> string \<Rightarrow> 'h \<Rightarrow> (call_failure + inspect \<times> string \<times> string) \<times> 'h" where
  "prepareUpgrade auth E i h =
     (case inspect_existing E i h of
        Inl e \<Rightarrow> (Inl (Refused e), h)
      | Inr ins \<Rightarrow>
          (case in_config ins of
             None \<Rightarrow> (Inl Panicked, h)
           | Some c \<Rightarrow>
               if cf_image c = [] then (Inl (internal_error ''container does not have an associated image''), h)
               else (case eg_pull E (cf_image c) (auth (cf_image c)) h of
                       (Some err, h1) \<Rightarrow> (Inl (internal_error (''failed to pull image '' @ cf_image c @ '': '' @ err)), h1)
                     | (None, h1) \<Rightarrow>
                         (case eg_imageInspect E (cf_image c) h1 of
                            Inl err \<Rightarrow> (Inl (internal_error (''failed to inspect pulled image: '' @ err)), h1)
                          | Inr (newImageID, _) \<Rightarrow> (Inr (ins, cf_image c, newImageID), h1)))))"

definition removeOld :: "'h engine \<Rightarrow> string \<Rightarrow> inspect \<Rightarrow> 'h \<Rightarrow> call_failure option \<times> 'h" where
  "removeOld E i ins h =
     (let running = (case in_state ins of None \<Rightarrow> False | Some (_, r) \<Rightarrow> r) in
      case (if running then eg_stop E i h else (None, h)) of
        (Some err, h1) \<Rightarrow> (Some (internal_error (''failed to stop container before upgrade: '' @ err)), h1)
      | (None, h1) \<Rightarrow>
          (case eg_remove E i h1 of
             (Some err, h2) \<Rightarrow> (Some (internal_error (''failed to remove old container: '' @ err)), h2)
           | (None, h2) \<Rightarrow> (None, h2)))"

text \<open>The first network is given at the creation, the others are connected afterwards.\<close>

definition named_networks :: "inspect \<Rightarrow> (string \<times> string) list" where
  "named_networks ins = dropWhile (\<lambda>(n, _). n = []) (in_networks ins)"

definition create_options :: "inspect \<Rightarrow> createOptions" where
  "create_options ins =
     \<lparr>co_config = in_config ins, co_hostConfig = in_hostConfig ins, co_networks = take 1 (named_networks ins),
      co_name = trimSlash (in_name ins)\<rparr>"

fun connectNetworks :: "'h engine \<Rightarrow> string \<Rightarrow> (string \<times> string) list \<Rightarrow> 'h \<Rightarrow> call_failure option \<times> 'h" where
  "connectNetworks E new [] h = (None, h)"
| "connectNetworks E new ((n, ep) # ns) h =
     (case eg_connect E n new ep h of
        (Some err, h1) \<Rightarrow>
          (Some (internal_error (''failed to connect container to network '' @ n @ '': '' @ err)), snd (eg_remove E new h1))
      | (None, h1) \<Rightarrow> connectNetworks E new ns h1)"

text \<open>The id and the state of the new container.\<close>

definition recreate :: "'h engine \<Rightarrow> inspect \<Rightarrow> 'h \<Rightarrow> (call_failure + string \<times> string) \<times> 'h" where
  "recreate E ins h =
     (case eg_create E (create_options ins) h of
        (Inl err, h1) \<Rightarrow> (Inl (internal_error (''failed to re-create container: '' @ err)), h1)
      | (Inr new, h1) \<Rightarrow>
          (case connectNetworks E new (drop 1 (named_networks ins)) h1 of
             (Some e, h2) \<Rightarrow> (Inl e, h2)
           | (None, h2) \<Rightarrow>
               (case eg_start E new h2 of
                  (Some err, h3) \<Rightarrow> (Inl (internal_error (''failed to start upgraded container: '' @ err)), h3)
                | (None, h3) \<Rightarrow>
                    (Inr (new, case eg_inspect E new h3 of
                                 Inl _ \<Rightarrow> ''running''
                               | Inr new_ins \<Rightarrow> (case in_state new_ins of None \<Rightarrow> ''running'' | Some (st, _) \<Rightarrow> st)), h3))))"

text \<open>
  The update in place: the number of rows it changed, or \<open>None\<close> when the new id is already taken,
  which the primary key forbids.
\<close>

definition updateContainerForUpgrade ::
  "upsertParams \<Rightarrow> int \<Rightarrow> string \<Rightarrow> db_container list \<Rightarrow> (nat \<times> db_container list) option" where
  "updateContainerForUpgrade p now old rows =
     (if old \<notin> cr_id ` set rows then Some (0, rows)
      else if up_id p \<noteq> old \<and> up_id p \<in> cr_id ` set rows then None
      else Some (1, set_row old
             (\<lambda>r. r\<lparr>cr_id := up_id p, cr_name := up_name p, cr_image := up_image p, cr_imageId := up_imageId p,
                   cr_state := up_state p, cr_updateAvailable := 0, cr_lastUpdatedAt := DbTime now\<rparr>) rows))"

definition upgraded_row :: "upsertParams \<Rightarrow> int \<Rightarrow> db_container \<Rightarrow> db_container" where
  "upgraded_row p now existing =
     \<lparr>cr_id = up_id p, cr_name = up_name p, cr_image = up_image p, cr_imageId = up_imageId p, cr_state = up_state p,
      cr_autoUpdate = cr_autoUpdate existing, cr_updateAvailable = 0,
      cr_latestImageDigest = cr_latestImageDigest existing, cr_lastCheckedAt = cr_lastCheckedAt existing,
      cr_lastUpdatedAt = DbTime now\<rparr>"

definition announceUpgrade :: "(cquery \<Rightarrow> bool) \<Rightarrow> (int \<Rightarrow> string) \<Rightarrow> string \<Rightarrow> string \<Rightarrow> 'h csrv \<Rightarrow> 'h csrv" where
  "announceUpgrade fails rfc old new s =
     broadcast fails rfc new (if new \<noteq> old then s\<lparr>cs_broker := publish (delete_event old) (cs_broker s)\<rparr> else s)"

text \<open>
  Storing the result: the update in place, with the number of rows it changed, and what follows it,
  which saves the row when there was none to update.
\<close>

definition swapRow ::
  "(cquery \<Rightarrow> bool) \<Rightarrow> (cquery \<Rightarrow> string) \<Rightarrow> (string \<Rightarrow> string) \<Rightarrow> int \<Rightarrow> db_container \<Rightarrow> upsertParams \<Rightarrow> 'h csrv \<Rightarrow>
     (call_failure + nat) \<times> 'h csrv" where
  "swapRow fails qtext keytext now existing p s =
     (if fails QUpdateForUpgrade
      then (Inl (internal_error (''failed to update container record in DB: '' @ qtext QUpdateForUpgrade)), s)
      else case updateContainerForUpgrade p now (cr_id existing) (cs_rows s) of
        None \<Rightarrow> (Inl (internal_error (''failed to update container record in DB: '' @ keytext (up_id p))), s)
      | Some (rowsAffected, rows) \<Rightarrow> (Inr rowsAffected, s\<lparr>cs_rows := rows\<rparr>))"

definition finishStore ::
  "(cquery \<Rightarrow> bool) \<Rightarrow> (cquery \<Rightarrow> string) \<Rightarrow> (int \<Rightarrow> string) \<Rightarrow> int \<Rightarrow> db_container \<Rightarrow> upsertParams \<Rightarrow> nat \<Rightarrow> 'h csrv \<Rightarrow>
     call_failure option \<times> 'h csrv" where
  "finishStore fails qtext rfc now existing p rowsAffected s =
     (if rowsAffected = 0
      then (if fails QSaveContainer
            then (Some (internal_error (''failed to save upgraded container to DB: '' @ qtext QSaveContainer)), s)
            else (None, announceUpgrade fails rfc (cr_id existing) (up_id p)
                          (s\<lparr>cs_rows := saveContainer (upgraded_row p now existing) (cs_rows s)\<rparr>)))
      else (None, announceUpgrade fails rfc (cr_id existing) (up_id p) s))"

definition storeUpgrade ::
  "(cquery \<Rightarrow> bool) \<Rightarrow> (cquery \<Rightarrow> string) \<Rightarrow> (string \<Rightarrow> string) \<Rightarrow> (int \<Rightarrow> string) \<Rightarrow> int \<Rightarrow> db_container \<Rightarrow> upsertParams \<Rightarrow> 'h csrv \<Rightarrow>
     call_failure option \<times> 'h csrv" where
  "storeUpgrade fails qtext keytext rfc now existing p s =
     (case swapRow fails qtext keytext now existing p s of
        (Inl e, s1) \<Rightarrow> (Some e, s1)
      | (Inr n, s1) \<Rightarrow> finishStore fails qtext rfc now existing p n s1)"

text \<open>The part on the host: the inspection of the old container, and what is known of the new one.\<close>

definition upgradeOnHost ::
  "(string \<Rightarrow> string) \<Rightarrow> 'h engine \<Rightarrow> string \<Rightarrow> 'h \<Rightarrow> (call_failure + inspect \<times> upsertParams) \<times> 'h" where
  "upgradeOnHost auth E i h =
     (case prepareUpgrade auth E i h of
        (Inl e, h1) \<Rightarrow> (Inl e, h1)
      | (Inr (ins, imageRef, newImageID), h1) \<Rightarrow>
          (case removeOld E i ins h1 of
             (Some e, h2) \<Rightarrow> (Inl e, h2)
           | (None, h2) \<Rightarrow>
               (case recreate E ins h2 of
                  (Inl e, h3) \<Rightarrow> (Inl e, h3)
                | (Inr (new, st), h3) \<Rightarrow>
                    (Inr (ins, \<lparr>up_id = new, up_name = trimSlash (in_name ins), up_image = imageRef,
                               up_imageId = newImageID, up_state = st\<rparr>), h3))))"

definition upgradeContainerInternal ::
  "(cquery \<Rightarrow> bool) \<Rightarrow> (cquery \<Rightarrow> string) \<Rightarrow> (string \<Rightarrow> string) \<Rightarrow> (int \<Rightarrow> string) \<Rightarrow> (string \<Rightarrow> string) \<Rightarrow> int \<Rightarrow> 'h engine option \<Rightarrow>
     string \<Rightarrow> 'h csrv \<Rightarrow> (call_failure + upgradeContainerResponse) \<times> 'h csrv" where
  "upgradeContainerInternal fails qtext keytext rfc auth now docker i s =
     (case find_existing fails qtext i (cs_rows s) of
        Inl e \<Rightarrow> (Inl (Refused e), s)
      | Inr existing \<Rightarrow>
          (case docker of
             None \<Rightarrow> (Inl (internal_error ''docker client not initialized''), s)
           | Some E \<Rightarrow>
               (case upgradeOnHost auth E i (cs_host s) of
                  (Inl e, h1) \<Rightarrow> (Inl e, s\<lparr>cs_host := h1\<rparr>)
                | (Inr (ins, p), h1) \<Rightarrow>
                    (case storeUpgrade fails qtext keytext rfc now existing p (s\<lparr>cs_host := h1\<rparr>) of
                       (Some e, s1) \<Rightarrow> (Inl e, s1)
                     | (None, s1) \<Rightarrow>
                         (Inr \<lparr>ugr_id = up_id p, ugr_previousImageId = in_imageId ins, ugr_currentImageId = up_imageId p\<rparr>, s1)))))"

section \<open>Recording\<close>

definition right_arrow :: string where
  "right_arrow = [CHR 0xE2, CHR 0x86, CHR 0x92]"

definition shortDigest :: "string \<Rightarrow> string" where
  "shortDigest i =
     (if length i > length ''sha256:'' + 12 \<and> prefix ''sha256:'' i then take (length ''sha256:'' + 12) i @ ellipsis else i)"

definition upgrade_entry :: "string \<Rightarrow> string \<Rightarrow> string \<Rightarrow> string \<Rightarrow> connect_error + upgradeContainerResponse \<Rightarrow> audit_entry" where
  "upgrade_entry source actor role i res =
     \<lparr>ae_actor = actor, ae_actorRole = role, ae_source = source, ae_action = ''container.upgrade'',
      ae_resourceType = ''container'', ae_resourceId = i,
      ae_outcome = (case res of Inl _ \<Rightarrow> outcomeFailure | Inr _ \<Rightarrow> outcomeSuccess),
      ae_detail = (case res of
                     Inl e \<Rightarrow> cn_msg e
                   | Inr r \<Rightarrow> ''upgraded '' @ shortDigest (ugr_previousImageId r) @ '' '' @ right_arrow @ '' ''
                              @ shortDigest (ugr_currentImageId r))\<rparr>"

text \<open>A panic leaves the function before the entry is made.\<close>

definition auditUpgrade ::
  "bool \<Rightarrow> failing \<Rightarrow> int \<Rightarrow> string \<Rightarrow> string \<Rightarrow> string \<Rightarrow> string \<Rightarrow> call_failure + upgradeContainerResponse \<Rightarrow> server_db \<Rightarrow> server_db" where
  "auditUpgrade auditor afails now source actor role i res d =
     (if \<not> auditor then d
      else case res of
        Inl Panicked \<Rightarrow> d
      | Inl (Refused e) \<Rightarrow> audit afails now (upgrade_entry source actor role i (Inl e)) d
      | Inr r \<Rightarrow> audit afails now (upgrade_entry source actor role i (Inr r)) d)"

definition upgradeContainerRpc ::
  "(cquery \<Rightarrow> bool) \<Rightarrow> (cquery \<Rightarrow> string) \<Rightarrow> (string \<Rightarrow> string) \<Rightarrow> (int \<Rightarrow> string) \<Rightarrow> (string \<Rightarrow> string) \<Rightarrow> int \<Rightarrow> 'h engine option \<Rightarrow>
     bool \<Rightarrow> failing \<Rightarrow> ctx \<Rightarrow> upgradeContainerRequest \<Rightarrow> 'h csrv \<times> server_db \<Rightarrow>
     (call_failure + upgradeContainerResponse) \<times> 'h csrv \<times> server_db" where
  "upgradeContainerRpc fails qtext keytext rfc auth now docker auditor afails cx q st =
     (let (s, d) = st in
      case action_guard cx (ugc_id q) of
        Some e \<Rightarrow> (Inl (Refused e), s, d)
      | None \<Rightarrow>
          (case upgradeContainerInternal fails qtext keytext rfc auth now docker (ugc_id q) s of
             (res, s1) \<Rightarrow>
               (res, s1,
                case cx_user cx of
                  None \<Rightarrow> d
                | Some u \<Rightarrow> auditUpgrade auditor afails now sourceUser (usr_username u) (usr_role u) (ugc_id q) res d)))"

section \<open>The scheduler\<close>

record notice =
  nt_title :: string
  nt_message :: string
  nt_priority :: nat

definition systemActor :: string where "systemActor = ''system''"

text \<open>
  \<open>ntext\<close> and \<open>ctext\<close> are the texts of errors as the notifications print them. A panic in the goroutine
  of the scheduler ends the process.
\<close>

record 'h sched =
  sd_srv :: "'h csrv"
  sd_db :: server_db
  sd_sent :: "notice list"
  sd_crashed :: bool

definition notify :: "string \<Rightarrow> string \<Rightarrow> nat \<Rightarrow> 'h sched \<Rightarrow> 'h sched" where
  "notify title message prio w =
     w\<lparr>sd_sent := sd_sent w @ [\<lparr>nt_title = title, nt_message = message, nt_priority = prio\<rparr>]\<rparr>"

definition redeploy ::
  "(cquery \<Rightarrow> bool) \<Rightarrow> (cquery \<Rightarrow> string) \<Rightarrow> (string \<Rightarrow> string) \<Rightarrow> (int \<Rightarrow> string) \<Rightarrow> (string \<Rightarrow> string) \<Rightarrow> int \<Rightarrow> 'h engine option \<Rightarrow>
     bool \<Rightarrow> failing \<Rightarrow> (call_failure \<Rightarrow> string) \<Rightarrow> db_container \<Rightarrow> 'h sched \<Rightarrow> 'h sched" where
  "redeploy fails qtext keytext rfc auth now docker auditor afails ntext r w =
     (case upgradeContainerInternal fails qtext keytext rfc auth now docker (cr_id r) (sd_srv w) of
        (res, s1) \<Rightarrow>
          (let w1 = w\<lparr>sd_srv := s1, sd_db := auditUpgrade auditor afails now sourceSystem systemActor [] (cr_id r) res (sd_db w)\<rparr>
           in case res of
                Inl Panicked \<Rightarrow> w1\<lparr>sd_crashed := True\<rparr>
              | Inl e \<Rightarrow> notify ''Auto-Update Failed''
                          (''Automated container re-deployment for '' @ cr_name r @ '' failed: '' @ ntext e) 8 w1
              | Inr _ \<Rightarrow> notify ''Auto-Update Succeeded''
                          (''Automated container '' @ cr_name r
                             @ '' re-deployment succeeded. The container was successfully updated and restarted.'') 5 w1))"

definition checkOne ::
  "(cquery \<Rightarrow> bool) \<Rightarrow> (cquery \<Rightarrow> string) \<Rightarrow> (string \<Rightarrow> string) \<Rightarrow> (int \<Rightarrow> string) \<Rightarrow> (string \<Rightarrow> string) \<Rightarrow> int \<Rightarrow> 'h engine option \<Rightarrow>
     bool \<Rightarrow> failing \<Rightarrow> (call_failure \<Rightarrow> string) \<Rightarrow> (check_error \<Rightarrow> string) \<Rightarrow> db_container \<Rightarrow> 'h sched \<Rightarrow> 'h sched" where
  "checkOne fails qtext keytext rfc auth now docker auditor afails ntext ctext r w =
     (if sd_crashed w then w
      else case checkContainerUpdatesInternal fails qtext rfc auth now docker (cr_id r) (sd_srv w) of
        (Inl e, s1) \<Rightarrow>
          notify ''Registry Check Error''
            (''Failed to check for image updates for container '' @ cr_name r @ '': '' @ ctext e) 3 (w\<lparr>sd_srv := s1\<rparr>)
      | (Inr (avail, _), s1) \<Rightarrow>
          if \<not> avail then w\<lparr>sd_srv := s1\<rparr>
          else (let w1 = notify ''Image Update Available''
                          (''A new image update has been detected in the registry for container '' @ cr_name r @ ''.'') 5
                          (w\<lparr>sd_srv := s1\<rparr>)
                in if cr_autoUpdate r \<noteq> 0
                   then redeploy fails qtext keytext rfc auth now docker auditor afails ntext r w1 else w1))"

definition checkAllContainers ::
  "(cquery \<Rightarrow> bool) \<Rightarrow> (cquery \<Rightarrow> string) \<Rightarrow> (string \<Rightarrow> string) \<Rightarrow> (int \<Rightarrow> string) \<Rightarrow> (string \<Rightarrow> string) \<Rightarrow> int \<Rightarrow> 'h engine option \<Rightarrow>
     bool \<Rightarrow> failing \<Rightarrow> (call_failure \<Rightarrow> string) \<Rightarrow> (check_error \<Rightarrow> string) \<Rightarrow> 'h sched \<Rightarrow> 'h sched" where
  "checkAllContainers fails qtext keytext rfc auth now docker auditor afails ntext ctext w =
     (if fails QListContainers then w
      else fold (checkOne fails qtext keytext rfc auth now docker auditor afails ntext ctext)
             (listContainers (cs_rows (sd_srv w))) w)"

text \<open>The interval of the scheduler, in minutes.\<close>

definition scheduler_interval :: "int \<Rightarrow> int" where
  "scheduler_interval intervalMinutes = (if intervalMinutes \<le> 0 then 60 else intervalMinutes)"

section \<open>What the engine promises\<close>

text \<open>
  The containers of a host by their ids, each with what an upgrade is to preserve. The laws are the
  documented effects of the calls: an inspection reports a container, pulling an image, starting and
  stopping change none of this, a removal removes, a creation adds under a new id what it is asked
  for, connecting adds a network; and a call that fails has no such effect.
\<close>

record params =
  pm_config :: "config option"
  pm_hostConfig :: string
  pm_name :: string
  pm_networks :: "(string \<times> string) set"

definition params_of :: "inspect \<Rightarrow> params" where
  "params_of ins =
     \<lparr>pm_config = in_config ins, pm_hostConfig = in_hostConfig ins, pm_name = trimSlash (in_name ins),
      pm_networks = set (in_networks ins)\<rparr>"

definition created :: "createOptions \<Rightarrow> params" where
  "created opts =
     \<lparr>pm_config = co_config opts, pm_hostConfig = co_hostConfig opts, pm_name = co_name opts, pm_networks = set (co_networks opts)\<rparr>"

definition engine_laws :: "'h engine \<Rightarrow> ('h \<Rightarrow> string \<Rightarrow> params option) \<Rightarrow> bool" where
  "engine_laws E world \<longleftrightarrow>
     (\<forall>i h ins. eg_inspect E i h = Inr ins \<longrightarrow> world h i = Some (params_of ins))
     \<and> (\<forall>img a h err h'. eg_pull E img a h = (err, h') \<longrightarrow> world h' = world h)
     \<and> (\<forall>i h err h'. eg_start E i h = (err, h') \<longrightarrow> world h' = world h)
     \<and> (\<forall>i h err h'. eg_stop E i h = (err, h') \<longrightarrow> world h' = world h)
     \<and> (\<forall>i h h'. eg_remove E i h = (None, h') \<longrightarrow> world h' = (world h)(i := None))
     \<and> (\<forall>i h err h'. eg_remove E i h = (Some err, h') \<longrightarrow> world h' = world h)
     \<and> (\<forall>opts h new h'. eg_create E opts h = (Inr new, h') \<longrightarrow>
           world h new = None \<and> world h' = (world h)(new \<mapsto> created opts))
     \<and> (\<forall>opts h err h'. eg_create E opts h = (Inl err, h') \<longrightarrow> world h' = world h)
     \<and> (\<forall>n i ep h h'. eg_connect E n i ep h = (None, h') \<longrightarrow>
           world h' = (world h)(i := map_option (\<lambda>p. p\<lparr>pm_networks := insert (n, ep) (pm_networks p)\<rparr>) (world h i)))
     \<and> (\<forall>n i ep h err h'. eg_connect E n i ep h = (Some err, h') \<longrightarrow> world h' = world h)"

lemmas engine_lawsD =
  engine_laws_def [THEN iffD1, THEN conjunct1, rule_format]
  engine_laws_def [THEN iffD1, THEN conjunct2, THEN conjunct1, rule_format]
  engine_laws_def [THEN iffD1, THEN conjunct2, THEN conjunct2, THEN conjunct1, rule_format]
  engine_laws_def [THEN iffD1, THEN conjunct2, THEN conjunct2, THEN conjunct2, THEN conjunct1, rule_format]
  engine_laws_def [THEN iffD1, THEN conjunct2, THEN conjunct2, THEN conjunct2, THEN conjunct2, THEN conjunct1, rule_format]
  engine_laws_def [THEN iffD1, THEN conjunct2, THEN conjunct2, THEN conjunct2, THEN conjunct2, THEN conjunct2, THEN conjunct1, rule_format]
  engine_laws_def [THEN iffD1, THEN conjunct2, THEN conjunct2, THEN conjunct2, THEN conjunct2, THEN conjunct2, THEN conjunct2, THEN conjunct1, rule_format]
  engine_laws_def [THEN iffD1, THEN conjunct2, THEN conjunct2, THEN conjunct2, THEN conjunct2, THEN conjunct2, THEN conjunct2, THEN conjunct2, THEN conjunct1, rule_format]
  engine_laws_def [THEN iffD1, THEN conjunct2, THEN conjunct2, THEN conjunct2, THEN conjunct2, THEN conjunct2, THEN conjunct2, THEN conjunct2, THEN conjunct2, THEN conjunct1, rule_format]
  engine_laws_def [THEN iffD1, THEN conjunct2, THEN conjunct2, THEN conjunct2, THEN conjunct2, THEN conjunct2, THEN conjunct2, THEN conjunct2, THEN conjunct2, THEN conjunct2, rule_format]

lemma remove_others:
  assumes "engine_laws E world" "eg_remove E i h = (err, h')" "j \<noteq> i"
  shows "world h' j = world h j"
  using assms engine_lawsD(5,6) by (cases err) (auto simp: engine_lawsD(5) [OF assms(1)] engine_lawsD(6) [OF assms(1)])

section \<open>The steps of an upgrade\<close>

lemma prepare_world:
  assumes "engine_laws E world" "prepareUpgrade auth E i h = (res, h')"
  shows "world h' = world h"
  using assms(2) by (auto simp: prepareUpgrade_def inspect_existing_def engine_lawsD(2) [OF assms(1)]
      split: sum.splits option.splits if_splits prod.splits)

lemma prepare_Inr:
  assumes "prepareUpgrade auth E i h = (Inr (ins, img, imgId), h')"
  shows "eg_inspect E i h = Inr ins"
  using assms by (auto simp: prepareUpgrade_def inspect_existing_def split: sum.splits option.splits if_splits prod.splits)

lemma removeOld_world:
  assumes "engine_laws E world" "removeOld E i ins h = (err, h')"
  shows "world h' = (if err = None then (world h)(i := None) else world h)"
  using assms(2) engine_lawsD(4) [OF assms(1)] engine_lawsD(5) [OF assms(1)] engine_lawsD(6) [OF assms(1)]
  by (auto simp: removeOld_def Let_def split: prod.splits option.splits if_splits)

lemma connect_world:
  assumes laws: "engine_laws E world"
  shows "connectNetworks E new ns h = (err, h') \<Longrightarrow> world h new = Some p \<Longrightarrow>
    (err = None \<longrightarrow> world h' = (world h)(new \<mapsto> p\<lparr>pm_networks := pm_networks p \<union> set ns\<rparr>))
    \<and> (\<forall>j. j \<noteq> new \<longrightarrow> world h' j = world h j)"
proof (induction ns arbitrary: h p)
  case (Cons nep ns)
  obtain n ep where nep: "nep = (n, ep)" by (cases nep)
  obtain e h1 where c: "eg_connect E n new ep h = (e, h1)" by (cases "eg_connect E n new ep h")
  show ?case
  proof (cases e)
    case None
    have w: "world h1 = (world h)(new \<mapsto> p\<lparr>pm_networks := insert (n, ep) (pm_networks p)\<rparr>)"
      using engine_lawsD(9) [OF laws c [unfolded None]] Cons.prems(2) by simp
    have "connectNetworks E new ns h1 = (err, h')" using Cons.prems(1) nep c None by simp
    from Cons.IH [OF this] w show ?thesis using nep by auto
  next
    case (Some t)
    obtain f h2 where r: "eg_remove E new h1 = (f, h2)" by (cases "eg_remove E new h1")
    have "world h1 = world h" using engine_lawsD(10) [OF laws c [unfolded Some]] .
    with Cons.prems(1) nep c Some r show ?thesis using remove_others [OF laws r] by auto
  qed
qed auto

lemma named_networks_all: "[] \<notin> fst ` set (in_networks ins) \<Longrightarrow> named_networks ins = in_networks ins"
  by (cases "in_networks ins") (auto simp: named_networks_def)

lemma recreate_world:
  assumes laws: "engine_laws E world" and r: "recreate E ins h = (res, h')"
    and names: "[] \<notin> fst ` set (in_networks ins)"
  shows "(\<forall>new st. res = Inr (new, st) \<longrightarrow> world h new = None \<and> world h' = (world h)(new \<mapsto> params_of ins))
    \<and> (\<forall>j. world h j \<noteq> None \<longrightarrow> world h' j = world h j)"
proof -
  obtain c h1 where c: "eg_create E (create_options ins) h = (c, h1)" by (cases "eg_create E (create_options ins) h")
  show ?thesis
  proof (cases c)
    case (Inl err)
    then show ?thesis using r c engine_lawsD(8) [OF laws] by (auto simp: recreate_def)
  next
    case (Inr new)
    have w1: "world h new = None" "world h1 = (world h)(new \<mapsto> created (create_options ins))"
      using engine_lawsD(7) [OF laws] c Inr by blast+
    obtain e h2 where n: "connectNetworks E new (drop 1 (named_networks ins)) h1 = (e, h2)"
      by (cases "connectNetworks E new (drop 1 (named_networks ins)) h1")
    obtain f h3 where s: "eg_start E new h2 = (f, h3)" by (cases "eg_start E new h2")
    have w3: "world h3 = world h2" using engine_lawsD(3) [OF laws s] .
    have nets: "set (take 1 (in_networks ins)) \<union> set (drop 1 (in_networks ins)) = set (in_networks ins)"
      by (simp only: set_append [symmetric] append_take_drop_id)
    have w2: "e = None \<Longrightarrow> world h2 = (world h)(new \<mapsto> params_of ins)" "j \<noteq> new \<Longrightarrow> world h2 j = world h j" for j
      using connect_world [OF laws n, of "created (create_options ins)"] w1 nets names
      by (auto simp: created_def create_options_def params_of_def named_networks_all [of ins])
    have "world h3 j = world h j \<and> world h2 j = world h j" if "world h j \<noteq> None" for j
      using that w1(1) w2(2) [of j] w3 by (cases "j = new") auto
    then show ?thesis using r c Inr n s w1(1) w2(1) w3
      by (auto simp: recreate_def split: option.splits)
  qed
qed

definition networks_named :: "'h engine \<Rightarrow> string \<Rightarrow> 'h \<Rightarrow> bool" where
  "networks_named E i h \<longleftrightarrow> (\<forall>ins. eg_inspect E i h = Inr ins \<longrightarrow> [] \<notin> fst ` set (in_networks ins))"

lemma upgradeOnHost_world:
  assumes laws: "engine_laws E world" and run: "upgradeOnHost auth E i h = (res, h')"
    and names: "networks_named E i h"
  shows "(\<forall>ins p. res = Inr (ins, p) \<longrightarrow> world h i = Some (params_of ins) \<and> up_name p = trimSlash (in_name ins)
        \<and> world h' = (world h)(i := None, up_id p \<mapsto> params_of ins))
    \<and> (\<forall>j. j \<noteq> i \<longrightarrow> world h j \<noteq> None \<longrightarrow> world h' j = world h j)"
proof -
  obtain pr h1 where pr: "prepareUpgrade auth E i h = (pr, h1)" by (cases "prepareUpgrade auth E i h")
  have w1: "world h1 = world h" by (rule prepare_world [OF laws pr])
  show ?thesis
  proof (cases pr)
    case (Inl e)
    then show ?thesis using run pr w1 by (auto simp: upgradeOnHost_def)
  next
    case prep: (Inr t)
    obtain ins img imgId where t: "t = (ins, img, imgId)" by (cases t)
    have ins: "eg_inspect E i h = Inr ins" by (rule prepare_Inr [OF pr [unfolded prep t]])
    then have p: "world h i = Some (params_of ins)" by (rule engine_lawsD(1) [OF laws])
    obtain e2 h2 where rm: "removeOld E i ins h1 = (e2, h2)" by (cases "removeOld E i ins h1")
    note w2 = removeOld_world [OF laws rm]
    obtain rc h3 where rc: "recreate E ins h2 = (rc, h3)" by (cases "recreate E ins h2")
    have "[] \<notin> fst ` set (in_networks ins)" using names ins unfolding networks_named_def by blast
    note w3 = recreate_world [OF laws rc this]
    have others: "world h2 j = world h j" if "j \<noteq> i" for j using that w1 w2 by auto
    show ?thesis using run pr prep t rm rc p w1 w2 w3 others
      by (cases e2; cases rc) (auto simp: upgradeOnHost_def)
  qed
qed

lemma getContainer_swap:
  assumes "distinct (row_ids rows)" "new = old \<or> new \<notin> set (row_ids rows)" "\<And>r. cr_id (f r) = new"
  shows "getContainer j (set_row old f rows) =
    (if j = new then map_option f (getContainer old rows) else if j = old then None else getContainer j rows)"
  using assms(1,2)
proof (induction rows)
  case (Cons r rows)
  then show ?case using assms(3) by (auto simp: getContainer_def set_row_def row_ids_def find_None_iff)
qed (simp add: getContainer_def set_row_def)

lemma announce_rows [simp]:
  "cs_rows (announceUpgrade fails rfc old new s) = cs_rows s" "cs_host (announceUpgrade fails rfc old new s) = cs_host s"
  by (simp_all add: announceUpgrade_def)

lemma find_existing_Inr: "find_existing fails qtext i rows = Inr r \<Longrightarrow> getContainer i rows = Some r \<and> cr_id r = i"
  by (auto simp: find_existing_def dest: getContainer_SomeD split: if_splits option.splits)

text \<open>Storing over a table that still has the old row.\<close>

lemma storeUpgrade_fails:
  "storeUpgrade fails qtext keytext rfc now existing p s = (Some e, s') \<Longrightarrow> s' = s"
  by (auto simp: storeUpgrade_def swapRow_def finishStore_def updateContainerForUpgrade_def
      split: if_splits option.splits prod.splits sum.splits)

lemma storeUpgrade_rows:
  assumes "storeUpgrade fails qtext keytext rfc now existing p s = (None, s')" "distinct (row_ids (cs_rows s))"
    and "getContainer (cr_id existing) (cs_rows s) = Some existing"
  shows "cs_host s' = cs_host s \<and> getContainer j (cs_rows s') =
    (if j = up_id p then Some (upgraded_row p now existing) else if j = cr_id existing then None else getContainer j (cs_rows s))"
proof -
  have there: "cr_id existing \<in> cr_id ` set (cs_rows s)" using getContainer_SomeD [OF assms(3)] by auto
  then have new: "up_id p = cr_id existing \<or> up_id p \<notin> set (row_ids (cs_rows s))"
    and s': "cs_host s' = cs_host s" "cs_rows s' = set_row (cr_id existing)
      (\<lambda>r. r\<lparr>cr_id := up_id p, cr_name := up_name p, cr_image := up_image p, cr_imageId := up_imageId p,
            cr_state := up_state p, cr_updateAvailable := 0, cr_lastUpdatedAt := DbTime now\<rparr>) (cs_rows s)"
    using assms(1) by (auto simp: storeUpgrade_def swapRow_def finishStore_def updateContainerForUpgrade_def row_ids_def
        split: if_splits)
  show ?thesis unfolding s' using assms(2,3) new
    by (subst getContainer_swap [OF assms(2) new]) (auto simp: upgraded_row_def)
qed

section \<open>The monitor meanwhile\<close>

definition monitor :: "(cquery \<Rightarrow> bool) \<Rightarrow> (int \<Rightarrow> string) \<Rightarrow> 'h engine \<Rightarrow> (string \<times> string) list \<Rightarrow> 'h csrv \<Rightarrow> 'h csrv" where
  "monitor fails rfc E es s = fold (\<lambda>(a, i). handleEvent fails rfc E a i) es s"

lemma monitor_simps [simp]:
  "monitor fails rfc E [] s = s"
  "monitor fails rfc E (e # es) s = monitor fails rfc E es (handleEvent fails rfc E (fst e) (snd e) s)"
  by (simp_all add: monitor_def case_prod_unfold)

text \<open>The old row is gone, and the new one has the setting.\<close>

definition taken_over :: "int \<Rightarrow> string \<Rightarrow> string \<Rightarrow> db_container list \<Rightarrow> bool" where
  "taken_over a old new rows \<longleftrightarrow>
     getContainer old rows = None \<and> map_option cr_autoUpdate (getContainer new rows) = Some a"

lemma handle_destroy:
  assumes "i \<noteq> []"
  shows "cs_rows (handleEvent (\<lambda>_. False) rfc E ''destroy'' i s) = deleteContainer i (cs_rows s)"
  using assms by (simp add: handleEvent_def)

lemma handle_other:
  assumes "a \<noteq> ''destroy''" "a \<noteq> ''delete''"
  obtains "cs_rows (handleEvent fails rfc E a i s) = cs_rows s"
    | q where "up_id q = i" "cs_rows (handleEvent fails rfc E a i s) = upsertContainerFromEvent q (cs_rows s)"
proof (cases "i \<noteq> [] \<and> a \<in> set inspected_actions \<and> \<not> fails QUpsertContainer
    \<and> (\<exists>ins. eg_inspect E i (cs_host s) = Inr ins)")
  case True
  then obtain ins where ins: "eg_inspect E i (cs_host s) = Inr ins" by blast
  have "cs_rows (handleEvent fails rfc E a i s) = upsertContainerFromEvent (inspected i ins) (cs_rows s)"
    using True ins assms unfolding handleEvent_def by simp
  then show thesis by (intro that(2) [of "inspected i ins"]) (simp_all add: inspected_def)
next
  case False
  then have "handleEvent fails rfc E a i s = s"
    using assms unfolding handleEvent_def by (auto split: sum.split)
  then show thesis by (intro that(1)) simp
qed

definition news_of :: "string \<Rightarrow> string \<times> string \<Rightarrow> bool" where
  "news_of new e \<longleftrightarrow> snd e = new \<and> fst e \<notin> {''destroy'', ''delete''}"

lemma news_step:
  assumes "news_of new e" "new \<noteq> old"
  shows "getContainer old (cs_rows (handleEvent fails rfc E (fst e) (snd e) s)) = getContainer old (cs_rows s)"
    "taken_over a old new (cs_rows s) \<Longrightarrow> taken_over a old new (cs_rows (handleEvent fails rfc E (fst e) (snd e) s))"
proof -
  have ne: "fst e \<noteq> ''destroy''" "fst e \<noteq> ''delete''" "snd e = new" using assms(1) by (auto simp: news_of_def)
  show "getContainer old (cs_rows (handleEvent fails rfc E (fst e) (snd e) s)) = getContainer old (cs_rows s)"
    by (rule handle_other [OF ne(1,2), where fails = fails and rfc = rfc and E = E and i = "snd e" and s = s])
      (use ne(3) assms(2) in auto)
  show "taken_over a old new (cs_rows (handleEvent fails rfc E (fst e) (snd e) s))" if "taken_over a old new (cs_rows s)"
    by (rule handle_other [OF ne(1,2), where fails = fails and rfc = rfc and E = E and i = "snd e" and s = s])
      (use ne(3) assms(2) that upsert_auto in \<open>auto simp: taken_over_def upserted_def\<close>)
qed

lemma news_run:
  assumes "list_all (news_of new) es" "new \<noteq> old"
  shows "getContainer old (cs_rows (monitor fails rfc E es s)) = getContainer old (cs_rows s)
    \<and> (taken_over a old new (cs_rows s) \<longrightarrow> taken_over a old new (cs_rows (monitor fails rfc E es s)))"
  using assms(1)
proof (induction es arbitrary: s)
  case (Cons e es)
  then show ?case
    using news_step [where new = new and e = e and old = old and s = s and fails = fails and rfc = rfc and E = E] assms(2)
    by auto
qed simp

lemma destroy_keeps_taken_over:
  assumes "old \<noteq> []" "new \<noteq> old" "taken_over a old new (cs_rows s)"
  shows "taken_over a old new (cs_rows (handleEvent (\<lambda>_. False) rfc E ''destroy'' old s))"
  using assms by (simp add: handle_destroy taken_over_def)

text \<open>Any part of the events of an upgrade keeps what is taken over.\<close>

lemma taken_over_run:
  assumes "old \<noteq> []" "new \<noteq> old" "list_all (\<lambda>e. e = (''destroy'', old) \<or> news_of new e) es"
    and "taken_over a old new (cs_rows s)"
  shows "taken_over a old new (cs_rows (monitor (\<lambda>_. False) rfc E es s))"
  using assms(3,4)
proof (induction es arbitrary: s)
  case (Cons e es)
  then consider "e = (''destroy'', old)" | "news_of new e" by auto
  then have "taken_over a old new (cs_rows (handleEvent (\<lambda>_. False) rfc E (fst e) (snd e) s))"
  proof cases
    case 1
    then show ?thesis using destroy_keeps_taken_over [OF assms(1,2) Cons.prems(2)] by simp
  next
    case 2
    then show ?thesis using news_step(2) [OF 2 assms(2) Cons.prems(2)] by simp
  qed
  with Cons show ?case by simp
qed simp

lemma swap_in_place:
  assumes "getContainer old (cs_rows s) = Some existing" "distinct (row_ids (cs_rows s))" "up_id p \<notin> set (row_ids (cs_rows s))"
  obtains s' where "swapRow (\<lambda>_. False) qtext keytext now existing p s = (Inr 1, s')"
    "taken_over (cr_autoUpdate existing) old (up_id p) (cs_rows s')"
proof -
  let ?f = "\<lambda>r. r\<lparr>cr_id := up_id p, cr_name := up_name p, cr_image := up_image p, cr_imageId := up_imageId p,
    cr_state := up_state p, cr_updateAvailable := 0, cr_lastUpdatedAt := DbTime now\<rparr>"
  have ex: "cr_id existing = old" "old \<in> cr_id ` set (cs_rows s)" using getContainer_SomeD [OF assms(1)] by auto
  have ne: "up_id p \<noteq> old" using assms(3) ex(2) by (auto simp: row_ids_def)
  have "swapRow (\<lambda>_. False) qtext keytext now existing p s = (Inr 1, s\<lparr>cs_rows := set_row old ?f (cs_rows s)\<rparr>)"
    using ex assms(3) by (simp add: swapRow_def updateContainerForUpgrade_def row_ids_def)
  moreover have "taken_over (cr_autoUpdate existing) old (up_id p) (set_row old ?f (cs_rows s))"
    using getContainer_swap [where f = ?f, OF assms(2) disjI2 [OF assms(3)]] assms(1) ne by (simp add: taken_over_def)
  then have "taken_over (cr_autoUpdate existing) old (up_id p) (cs_rows (s\<lparr>cs_rows := set_row old ?f (cs_rows s)\<rparr>))"
    by simp
  ultimately show thesis by (rule that)
qed

lemma swap_when_gone:
  assumes "getContainer old (cs_rows s) = None" "cr_id existing = old"
  shows "swapRow (\<lambda>_. False) qtext keytext now existing p s = (Inr 0, s)"
  using assms by (auto simp: swapRow_def updateContainerForUpgrade_def getContainer_None row_ids_def)

lemma save_when_gone:
  assumes "getContainer old (cs_rows s) = None" "cr_id existing = old" "up_id p \<noteq> old"
  obtains s' where "finishStore (\<lambda>_. False) qtext rfc now existing p 0 s = (None, s')"
    "taken_over (cr_autoUpdate existing) old (up_id p) (cs_rows s')"
  using assms that by (simp add: finishStore_def taken_over_def upgraded_row_def)

section \<open>What the scheduler does\<close>

lemma check_host: "cs_host (snd (checkContainerUpdatesInternal fails qtext rfc auth now docker i s)) = cs_host s"
  by (simp add: checkContainerUpdatesInternal_def Let_def split: option.splits sum.splits prod.splits)

text \<open>
  The notices of one container: none, an error of the check, an available update, and after that the
  outcome of the upgrade if the container asks for it. Only then does anything else change.
\<close>

lemma checkOne_notices:
  assumes "\<not> sd_crashed w" "w' = checkOne fails qtext keytext rfc auth now docker auditor afails ntext ctext r w"
  obtains ts where "map nt_title (sd_sent w') = map nt_title (sd_sent w) @ ts"
    "ts \<in> {[], [''Registry Check Error''], [''Image Update Available'']}
     \<or> cr_autoUpdate r \<noteq> 0 \<and> ts \<in> {[''Image Update Available'', ''Auto-Update Failed''], [''Image Update Available'', ''Auto-Update Succeeded'']}"
    "cr_autoUpdate r = 0 \<Longrightarrow> cs_host (sd_srv w') = cs_host (sd_srv w) \<and> sd_db w' = sd_db w \<and> \<not> sd_crashed w'"
proof -
  obtain res s1 where c: "checkContainerUpdatesInternal fails qtext rfc auth now docker (cr_id r) (sd_srv w) = (res, s1)"
    by (cases "checkContainerUpdatesInternal fails qtext rfc auth now docker (cr_id r) (sd_srv w)")
  have h: "cs_host s1 = cs_host (sd_srv w)" using check_host [of fails qtext rfc auth now docker "cr_id r" "sd_srv w"] c by simp
  obtain up s2 where u: "upgradeContainerInternal fails qtext keytext rfc auth now docker (cr_id r) s1 = (up, s2)"
    by (cases "upgradeContainerInternal fails qtext keytext rfc auth now docker (cr_id r) s1")
  show thesis
    by (rule that [of "drop (length (sd_sent w)) (map nt_title (sd_sent w'))"])
      (use assms c h u in \<open>auto simp: checkOne_def notify_def redeploy_def Let_def split: sum.splits call_failure.splits\<close>)
qed

text \<open>Containers that do not ask for it are never upgraded.\<close>

lemma scheduler_spares:
  assumes "\<not> sd_crashed w" "list_all (\<lambda>r. cr_autoUpdate r = 0) (cs_rows (sd_srv w))"
    and "w' = checkAllContainers fails qtext keytext rfc auth now docker auditor afails ntext ctext w"
  shows "cs_host (sd_srv w') = cs_host (sd_srv w) \<and> sd_db w' = sd_db w \<and> \<not> sd_crashed w'"
proof -
  have "cs_host (sd_srv (fold (checkOne fails qtext keytext rfc auth now docker auditor afails ntext ctext) rs v)) = cs_host (sd_srv v)
      \<and> sd_db (fold (checkOne fails qtext keytext rfc auth now docker auditor afails ntext ctext) rs v) = sd_db v
      \<and> \<not> sd_crashed (fold (checkOne fails qtext keytext rfc auth now docker auditor afails ntext ctext) rs v)"
    if "\<not> sd_crashed v" "list_all (\<lambda>r. cr_autoUpdate r = 0) rs" for rs v
    using that
  proof (induction rs arbitrary: v)
    case (Cons r rs)
    from Cons.prems have "cr_autoUpdate r = 0" by simp
    then have "cs_host (sd_srv (checkOne fails qtext keytext rfc auth now docker auditor afails ntext ctext r v)) = cs_host (sd_srv v)
        \<and> sd_db (checkOne fails qtext keytext rfc auth now docker auditor afails ntext ctext r v) = sd_db v
        \<and> \<not> sd_crashed (checkOne fails qtext keytext rfc auth now docker auditor afails ntext ctext r v)"
      using checkOne_notices [OF Cons.prems(1) refl] by metis
    with Cons show ?case by simp
  qed simp
  moreover have "list_all (\<lambda>r. cr_autoUpdate r = 0) (listContainers (cs_rows (sd_srv w)))"
    using assms(2) by (simp add: listContainers_def list_all_iff)
  ultimately show ?thesis using assms(1,3) by (simp add: checkAllContainers_def)
qed

section \<open>A host as a list\<close>

definition fresh_id :: "(string \<times> inspect) list \<Rightarrow> string" where
  "fresh_id h = CHR ''n'' # concat (map fst h)"

definition host_engine :: "(string \<times> inspect) list engine" where
  "host_engine =
     \<lparr>eg_list = (\<lambda>h. Inr (map (\<lambda>(i, ins). \<lparr>li_id = i, li_names = [in_name ins], li_image = [], li_imageId = in_imageId ins,
                                           li_state = ''running''\<rparr>) h)),
      eg_inspect = (\<lambda>i h. case map_of h i of None \<Rightarrow> Inl \<lparr>de_notFound = True, de_text = ''no such container''\<rparr> | Some ins \<Rightarrow> Inr ins),
      eg_start = (\<lambda>i h. (None, h)), eg_stop = (\<lambda>i h. (None, h)), eg_remove = (\<lambda>i h. (None, AList.delete i h)),
      eg_create = (\<lambda>opts h. (Inr (fresh_id h),
        (fresh_id h, \<lparr>in_name = CHR ''/'' # co_name opts, in_imageId = [], in_config = co_config opts,
                      in_hostConfig = co_hostConfig opts, in_state = Some (''running'', True),
                      in_networks = co_networks opts\<rparr>) # h)),
      eg_connect = (\<lambda>n i ep h. (None, map (\<lambda>(j, ins). (j, if j = i then ins\<lparr>in_networks := (n, ep) # in_networks ins\<rparr> else ins)) h)),
      eg_pull = (\<lambda>img a h. (None, h)), eg_imageInspect = (\<lambda>img h. Inr (''sha256:new'', [])),
      eg_distribution = (\<lambda>img a h. Inr ''sha256:bb'')\<rparr>"

definition host_world :: "(string \<times> inspect) list \<Rightarrow> string \<Rightarrow> params option" where
  "host_world h i = map_option params_of (map_of h i)"

lemma fresh_id_new: "map_of h (fresh_id h) = None"
proof -
  have "length x \<le> length (concat xs)" if "x \<in> set xs" for x :: string and xs
    using that by (induction xs) auto
  then have "fresh_id h \<notin> set (map fst h)" by (fastforce simp: fresh_id_def)
  then show ?thesis by (simp add: map_of_eq_None_iff)
qed

lemma map_of_connect:
  "map_of (map (\<lambda>(j, ins). (j, if j = i then f ins else ins)) h) j = (if j = i then map_option f (map_of h i) else map_of h j)"
  by (induction h) auto

lemma host_engine_laws: "engine_laws host_engine host_world"
  by (auto simp: engine_laws_def host_engine_def host_world_def fun_eq_iff delete_conv' map_of_connect fresh_id_new
      params_of_def created_def trimSlash_def option.map_comp comp_def split: option.splits)

definition web_container :: inspect where
  "web_container =
     \<lparr>in_name = ''/web'', in_imageId = ''sha256:old'', in_config = Some \<lparr>cf_image = ''nginx'', cf_rest = ''env''\<rparr>,
      in_hostConfig = ''binds'', in_state = Some (''running'', True), in_networks = [(''bridge'', ''x''), (''back'', ''y'')]\<rparr>"

definition web_row :: db_container where
  "web_row =
     \<lparr>cr_id = ''c1'', cr_name = ''web'', cr_image = ''nginx'', cr_imageId = ''sha256:old'', cr_state = ''running'',
      cr_autoUpdate = 1, cr_updateAvailable = 1, cr_latestImageDigest = DbText ''sha256:bb'', cr_lastCheckedAt = DbNull,
      cr_lastUpdatedAt = DbNull\<rparr>"

definition web_server :: "(string \<times> inspect) list csrv" where
  "web_server = \<lparr>cs_host = [(''c1'', web_container)], cs_rows = [web_row], cs_broker = newBroker\<rparr>"

text \<open>
  An upgrade whose creation fails has removed the container: it is neither there nor re-created,
  while the table still has its row.
\<close>

lemma upgrade_loses_container:
  "case upgradeContainerInternal (\<lambda>_. False) (\<lambda>_. []) (\<lambda>_. []) (\<lambda>_. []) (\<lambda>_. []) 0
      (Some (host_engine\<lparr>eg_create := \<lambda>opts h. (Inl ''no space left on device'', h)\<rparr>)) ''c1'' web_server of
     (res, s) \<Rightarrow> (\<exists>e. res = Inl e) \<and> cs_host s = [] \<and> cs_rows s = [web_row]"
proof -
  have "case upgradeContainerInternal (\<lambda>_. False) (\<lambda>_. []) (\<lambda>_. []) (\<lambda>_. []) (\<lambda>_. []) 0
      (Some (host_engine\<lparr>eg_create := \<lambda>opts h. (Inl ''no space left on device'', h)\<rparr>)) ''c1'' web_server of
     (res, s) \<Rightarrow> (case res of Inl _ \<Rightarrow> True | Inr _ \<Rightarrow> False) \<and> cs_host s = [] \<and> cs_rows s = [web_row]" by code_simp
  then show ?thesis by (auto split: sum.splits)
qed

section \<open>Properties\<close>

text \<open>
  C31: An upgrade replaces a container by one with the same parameters, and the database follows.
  When it succeeds, the host has, in place of the old container, one under the new id with the same
  configuration, host configuration, name and networks; the table has its row, with the auto-update
  setting of the old one, the id of the new image and no pending update, and no row of the old id;
  all other containers and rows are as before. When it fails, whatever the reason, the table is as
  before, nothing is announced, and no other container of the host is affected.
\<close>

theorem upgrade_outcome:
  assumes laws: "engine_laws E world" and ids: "distinct (row_ids (cs_rows s))"
    and names: "networks_named E i (cs_host s)"
  shows "case upgradeContainerInternal fails qtext keytext rfc auth now (Some E) i s of
      (Inr r, s') \<Rightarrow>
        (\<exists>p existing row. world (cs_host s) i = Some p \<and> world (cs_host s') = (world (cs_host s))(i := None, ugr_id r \<mapsto> p)
          \<and> getContainer i (cs_rows s) = Some existing \<and> getContainer (ugr_id r) (cs_rows s') = Some row
          \<and> cr_autoUpdate row = cr_autoUpdate existing \<and> cr_updateAvailable row = 0
          \<and> cr_imageId row = ugr_currentImageId r \<and> cr_name row = pm_name p
          \<and> (\<forall>j. j \<noteq> ugr_id r \<longrightarrow> getContainer j (cs_rows s') = (if j = i then None else getContainer j (cs_rows s))))
    | (Inl e, s') \<Rightarrow>
        cs_rows s' = cs_rows s \<and> cs_broker s' = cs_broker s
        \<and> (\<forall>j. j \<noteq> i \<longrightarrow> world (cs_host s) j \<noteq> None \<longrightarrow> world (cs_host s') j = world (cs_host s) j)"
proof (cases "find_existing fails qtext i (cs_rows s)")
  case (Inl e)
  then show ?thesis by (simp add: upgradeContainerInternal_def)
next
  case (Inr existing)
  note ex = find_existing_Inr [OF Inr]
  obtain res h1 where host: "upgradeOnHost auth E i (cs_host s) = (res, h1)" by (cases "upgradeOnHost auth E i (cs_host s)")
  note w = upgradeOnHost_world [OF laws host names]
  show ?thesis
  proof (cases res)
    case (Inl e)
    then show ?thesis using Inr host w by (auto simp: upgradeContainerInternal_def)
  next
    case up: (Inr t)
    obtain ins p where t: "t = (ins, p)" by (cases t)
    obtain e s4 where so: "storeUpgrade fails qtext keytext rfc now existing p (s\<lparr>cs_host := h1\<rparr>) = (e, s4)"
      by (cases "storeUpgrade fails qtext keytext rfc now existing p (s\<lparr>cs_host := h1\<rparr>)")
    show ?thesis
    proof (cases e)
      case (Some f)
      have "s4 = s\<lparr>cs_host := h1\<rparr>" using storeUpgrade_fails so Some by blast
      then show ?thesis using Inr host up t so Some w by (auto simp: upgradeContainerInternal_def)
    next
      case None
      have "getContainer (cr_id existing) (cs_rows (s\<lparr>cs_host := h1\<rparr>)) = Some existing" using ex by simp
      with storeUpgrade_rows [OF so [unfolded None]] ids have "cs_host s4 = h1"
        and get: "getContainer j (cs_rows s4) = (if j = up_id p then Some (upgraded_row p now existing)
          else if j = i then None else getContainer j (cs_rows s))" for j
        using ex by auto
      then show ?thesis using Inr host up t so None w ex
        by (auto simp: upgradeContainerInternal_def upgraded_row_def params_of_def)
    qed
  qed
qed

theorem upgrade_outcome_witness:
  "\<exists>r s'. upgradeContainerInternal (\<lambda>_. False) (\<lambda>_. []) (\<lambda>_. []) (\<lambda>_. []) (\<lambda>_. []) 0 (Some host_engine) ''c1'' web_server = (Inr r, s')
     \<and> host_world (cs_host s') (ugr_id r) = host_world (cs_host web_server) ''c1''"
proof -
  have ids: "distinct (row_ids (cs_rows web_server))" by code_simp
  have named: "networks_named host_engine ''c1'' (cs_host web_server)"
    by (simp add: networks_named_def host_engine_def web_server_def web_container_def)
  have "isl (fst (upgradeContainerInternal (\<lambda>_. False) (\<lambda>_. []) (\<lambda>_. []) (\<lambda>_. []) (\<lambda>_. []) 0 (Some host_engine) ''c1'' web_server)) = False"
    by code_simp
  then obtain r s' where run: "upgradeContainerInternal (\<lambda>_. False) (\<lambda>_. []) (\<lambda>_. []) (\<lambda>_. []) (\<lambda>_. []) 0 (Some host_engine) ''c1'' web_server
      = (Inr r, s')" by (metis prod.collapse sum.collapse(2))
  from upgrade_outcome [OF host_engine_laws ids named, of "\<lambda>_. False" "\<lambda>_. []" "\<lambda>_. []" "\<lambda>_. []" "\<lambda>_. []" 0]
  show ?thesis unfolding run by auto
qed



end
