(* ===== verification/Container_Sync.thy ===== *)
theory Container_Sync
  imports Containers Server_Upgrade
begin

text \<open>
  The containers of the dashboard and those of the server together: what the server changes in its
  table it announces on the stream, and the hook of the dashboard that applies the messages has the
  server's containers. The locale \<open>change_feed\<close> is what the hook needs of a server; the operations of
  the server, one after the other, provide it.
\<close>

section \<open>A feed of changes\<close>

text \<open>Messages and rows in which a name belongs to its id for good.\<close>

definition named_msg :: "(string \<Rightarrow> string) \<Rightarrow> streamContainersResponse \<Rightarrow> bool" where
  "named_msg nm ev \<longleftrightarrow> (case sc_container ev of None \<Rightarrow> True | Some w \<Rightarrow> wc_name w = nm (wc_id w))"

definition names_by :: "(string \<Rightarrow> string) \<Rightarrow> cont_hook \<Rightarrow> bool" where
  "names_by nm h \<longleftrightarrow>
     (\<forall>c \<in> set (containers h). c_name c = nm (c_id c)) \<and> (\<forall>(t, n, i) \<in> set (timers h). n = nm i)"

definition apply_msgs :: "streamContainersResponse list \<Rightarrow> (string \<Rightarrow> container option) \<Rightarrow> string \<Rightarrow> container option" where
  "apply_msgs evs m = fold (\<lambda>ev. spec_feed (Msg ev)) evs m"

lemma apply_msgs_simps [simp]:
  "apply_msgs [] m = m" "apply_msgs (ev # evs) m = apply_msgs evs (spec_feed (Msg ev) m)"
  "apply_msgs (evs @ fs) m = apply_msgs fs (apply_msgs evs m)"
  by (simp_all add: apply_msgs_def)

lemma client_ids [simp]:
  "c_id (mapProtoContainer (proto_of_wire w)) = wc_id w" "c_name (mapProtoContainer (proto_of_wire w)) = wc_name w"
  by (simp_all add: mapProtoContainer_def proto_of_wire_def or_empty_def str_or_def)

lemma set_placeContainer: "set (placeContainer m prev) \<subseteq> insert m (set prev)"
  by (auto simp: placeContainer_def Let_def split: option.splits dest: set_update_subset_insert [THEN subsetD])

lemma named_ok:
  assumes "cont_inv h" "names_by nm h" "named_msg nm ev"
  shows "ok_feed [Msg ev] h"
proof (cases "change_of ev")
  case (Some c)
  show ?thesis
  proof (cases c)
    case (Save m)
    obtain w where w: "sc_container ev = Some w" "m = mapProtoContainer (proto_of_wire w)"
      using Some Save by (auto simp: change_of_def split: if_splits)
    then have m: "c_name m = nm (c_id m)" using assms(3) by (simp add: named_msg_def)
    have "c_id d = c_id m" if listed: "c_id m \<in> c_id ` set (containers h)" and d: "d \<in> set (containers h)" "c_name d = c_name m" for d
    proof -
      obtain e where e: "e \<in> set (containers h)" "c_id e = c_id m" using listed by (metis imageE)
      then have "c_name e = c_name d" using assms(2) m d(2) by (auto simp: names_by_def)
      then have "e = d" using cont_invD(2) [OF assms(1)] e(1) d(1) by (auto simp: distinct_map dest: inj_onD)
      with e(2) show ?thesis by simp
    qed
    moreover have "i \<noteq> c_id m" if "(t, n, i) \<in> set (timers h)" "n \<noteq> c_name m" for t n i
      using that assms(2) m by (auto simp: names_by_def)
    ultimately have "ok_change (Save m) h" unfolding ok_change.simps by blast
    then show ?thesis by (simp only: Some Save ok_feed.simps feed.case option.case simp_thms)
  qed (use Some in simp)
qed simp

lemma names_by_save:
  assumes "names_by nm h" "c_name m = nm (c_id m)"
  shows "names_by nm (onSave m h)"
proof -
  have "set (timers (onSave m h)) \<subseteq> set (timers h)" "set (containers (onSave m h)) \<subseteq> insert m (set (containers h))"
    using set_placeContainer [of m "containers h"]
    by (auto simp: onSave_def forgetPending_def clearPending_def Let_def split: option.splits)
  with assms show ?thesis by (auto simp: names_by_def)
qed

lemma names_by_delete:
  assumes "names_by nm h"
  shows "names_by nm (onDelete i h)"
proof (cases "List.find (\<lambda>c. c_id c = i) (containers h)")
  case None
  then show ?thesis using assms by (auto simp: onDelete_def names_by_def)
next
  case (Some c)
  then have "c \<in> set (containers h)" "c_id c = i" by (auto simp: find_Some_iff)
  then show ?thesis using assms Some
    by (auto simp: onDelete_def names_by_def armDelete_def clearPending_def split: option.splits)
qed

lemma names_by_msg:
  assumes "names_by nm h" "isMounted h" "named_msg nm ev"
  shows "names_by nm (onStream ev h)"
  using assms names_by_save [OF assms(1)] names_by_delete [OF assms(1)]
  by (auto simp: onStream_def named_msg_def split: option.splits)

lemma names_by_timer: "names_by nm h \<Longrightarrow> names_by nm (fireTimer t h)"
  by (auto simp: names_by_def fireTimer_def split: option.splits prod.splits)

text \<open>
  The interface: \<open>post s evs s'\<close> is a step of the server that announces \<open>evs\<close>, and \<open>store\<close> what it has
  stored. A step has exactly the effect its messages have.
\<close>

locale change_feed =
  fixes store :: "'s \<Rightarrow> string \<Rightarrow> container option"
    and post :: "'s \<Rightarrow> streamContainersResponse list \<Rightarrow> 's \<Rightarrow> bool"
    and nm :: "string \<Rightarrow> string"
  assumes post_store: "post s evs s' \<Longrightarrow> store s' = apply_msgs evs (store s)"
    and post_named: "post s evs s' \<Longrightarrow> list_all (named_msg nm) evs"
begin

text \<open>The hook has what the server has stored, up to the messages on their way.\<close>

definition in_step :: "'s \<Rightarrow> streamContainersResponse list \<Rightarrow> cont_hook \<Rightarrow> bool" where
  "in_step s q h \<longleftrightarrow>
     cont_inv h \<and> isMounted h \<and> names_by nm h \<and> list_all (named_msg nm) q \<and> apply_msgs q (abs_cont h) = store s"

lemma in_step_post: "in_step s q h \<Longrightarrow> post s evs s' \<Longrightarrow> in_step s' (q @ evs) h"
  using post_store post_named by (simp add: in_step_def)

lemma in_step_deliver:
  assumes "in_step s (ev # q) h"
  shows "in_step s q (onStream ev h)"
proof -
  have h: "cont_inv h" "isMounted h" "names_by nm h" "named_msg nm ev" "list_all (named_msg nm) q"
      "apply_msgs q (spec_feed (Msg ev) (abs_cont h)) = store s"
    using assms unfolding in_step_def by auto
  have "cont_inv (onStream ev h) \<and> abs_cont (onStream ev h) = spec_feed (Msg ev) (abs_cont h)"
    using feed_step_refines [OF h(1,2) named_ok [OF h(1,3,4)]] by simp
  moreover have "isMounted (onStream ev h)" using mounted_feed [of "Msg ev" h] h(2) by simp
  ultimately show ?thesis using h(5,6) names_by_msg [OF h(3,2,4)] by (simp add: in_step_def)
qed

lemma in_step_timer:
  assumes "in_step s q h"
  shows "in_step s q (fireTimer t h)"
  using assms names_by_timer mounted_feed [of "Fire t" h] by (simp add: in_step_def cont_inv_fireTimer abs_fireTimer)

lemma arrived:
  assumes "in_step s [] h"
  shows "map_of (map (\<lambda>c. (c_id c, c)) (containers (settle_all h))) = store s"
proof -
  have "abs_cont (settle_all h) = store s" using settle_all_refines [of h] assms by (simp add: in_step_def)
  then show ?thesis using settle_all_timers [of h] by (simp add: abs_cont_def doomed_def fun_eq_iff)
qed

end

section \<open>What the server announces\<close>

definition client_row :: "(int \<Rightarrow> string) \<Rightarrow> db_container \<Rightarrow> container" where
  "client_row rfc r = mapProtoContainer (proto_of_wire (mapContainerRecord rfc r))"

text \<open>The table as the client is to see it.\<close>

definition view :: "(int \<Rightarrow> string) \<Rightarrow> db_container list \<Rightarrow> string \<Rightarrow> container option" where
  "view rfc rows i = map_option (client_row rfc) (getContainer i rows)"

definition well_named :: "(string \<Rightarrow> string) \<Rightarrow> db_container list \<Rightarrow> bool" where
  "well_named nm rows \<longleftrightarrow>
     distinct (row_ids rows) \<and> distinct (map cr_name rows) \<and> list_all (\<lambda>r. cr_name r = nm (cr_id r)) rows"

definition announces ::
  "(int \<Rightarrow> string) \<Rightarrow> (string \<Rightarrow> string) \<Rightarrow> 'h csrv \<Rightarrow> streamContainersResponse list \<Rightarrow> 'h csrv \<Rightarrow> bool" where
  "announces rfc nm s evs s' \<longleftrightarrow>
     cs_broker s' = fold publish evs (cs_broker s) \<and> view rfc (cs_rows s') = apply_msgs evs (view rfc (cs_rows s))
     \<and> list_all (named_msg nm) evs"

interpretation server_feed: change_feed "\<lambda>s. view rfc (cs_rows s)" "announces rfc nm" nm
  by unfold_locales (simp_all add: announces_def)

lemma client_row_ids [simp]: "c_id (client_row rfc r) = cr_id r" "c_name (client_row rfc r) = cr_name r"
  by (simp_all add: client_row_def mapContainerRecord_def)

lemma change_of_events [simp]:
  "change_of (save_event rfc r) = Some (Save (client_row rfc r))" "change_of (delete_event i) = Some (Delete i)"
  by (simp_all add: change_of_def save_event_def delete_event_def client_row_def)

lemma named_delete [simp]: "named_msg nm (delete_event i)"
  by (simp add: named_msg_def delete_event_def)

lemma well_named_save:
  assumes "well_named nm rows" "getContainer i rows = Some r"
  shows "named_msg nm (save_event rfc r)"
  using assms getContainer_SomeD by (auto simp: well_named_def list_all_iff named_msg_def save_event_def mapContainerRecord_def)

text \<open>A change of one row, announced as a save.\<close>

lemma save_view:
  assumes named: "well_named nm rows'" and new: "getContainer i rows' = Some r"
    and other: "\<And>j. j \<noteq> i \<Longrightarrow> getContainer j rows' = getContainer j rows"
  shows "view rfc rows' = apply_msgs [save_event rfc r] (view rfc rows)"
proof
  fix j
  have r: "r \<in> set rows'" "cr_id r = i" using getContainer_SomeD [OF new] by auto
  have "cr_name d \<noteq> cr_name r" if "getContainer j rows' = Some d" "j \<noteq> i" for d
    using getContainer_SomeD [OF that(1)] that(2) r named by (auto simp: well_named_def distinct_map dest: inj_onD)
  then show "view rfc rows' j = apply_msgs [save_event rfc r] (view rfc rows) j"
    using new r other [of j] by (auto simp: view_def split: option.splits)
qed

lemma delete_view: "view rfc (deleteContainer i rows) = apply_msgs [delete_event i] (view rfc rows)"
  by (simp add: view_def fun_eq_iff)

lemma broadcast_announces:
  assumes "\<not> fails QReread" "well_named nm rows'" "getContainer i rows' = Some r"
    and "\<And>j. j \<noteq> i \<Longrightarrow> getContainer j rows' = getContainer j (cs_rows s)"
  shows "announces rfc nm s [save_event rfc r] (broadcast fails rfc i (s\<lparr>cs_host := h, cs_rows := rows'\<rparr>))"
  using assms save_view [OF assms(2-4)] well_named_save [OF assms(2,3)]
  by (simp add: announces_def broadcast_def)

section \<open>The operations of the server\<close>

text \<open>What surrounds an operation: failing queries and texts, the clock, credentials, and the engine.\<close>

record 'h cont_env =
  ce_fails :: "cquery \<Rightarrow> bool"
  ce_qtext :: "cquery \<Rightarrow> string"
  ce_keytext :: "string \<Rightarrow> string"
  ce_rfc :: "int \<Rightarrow> string"
  ce_auth :: "string \<Rightarrow> string"
  ce_now :: int
  ce_engine :: "'h engine"

text \<open>
  The operations that touch the containers, of users, of the scheduler and of the monitor; and the
  host, which also changes by itself.
\<close>

datatype 'h cont_op =
    EngineEvent string string
  | CallStart ctx startContainerRequest
  | CallStop ctx stopContainerRequest
  | CallSetAutoUpdate ctx setContainerAutoUpdateRequest
  | CallCheck ctx checkContainerUpdatesRequest
  | CallUpgrade ctx upgradeContainerRequest
  | ScheduledCheck string
  | ScheduledUpgrade string
  | HostChanges 'h

fun cont_step :: "'h cont_env \<Rightarrow> 'h cont_op \<Rightarrow> 'h csrv \<Rightarrow> 'h csrv" where
  "cont_step v (EngineEvent a i) s = handleEvent (ce_fails v) (ce_rfc v) (ce_engine v) a i s"
| "cont_step v (CallStart cx q) s = snd (startContainerRpc (ce_fails v) (ce_qtext v) (ce_rfc v) (Some (ce_engine v)) cx q s)"
| "cont_step v (CallStop cx q) s = snd (stopContainerRpc (ce_fails v) (ce_qtext v) (ce_rfc v) (Some (ce_engine v)) cx q s)"
| "cont_step v (CallSetAutoUpdate cx q) s = snd (setContainerAutoUpdateRpc (ce_fails v) (ce_qtext v) (ce_rfc v) cx q s)"
| "cont_step v (CallCheck cx q) s =
     snd (checkContainerUpdatesRpc (ce_fails v) (ce_qtext v) (ce_rfc v) (ce_auth v) (ce_now v) (Some (ce_engine v)) cx q s)"
| "cont_step v (CallUpgrade cx q) s =
     (if action_guard cx (ugc_id q) \<noteq> None then s
      else snd (upgradeContainerInternal (ce_fails v) (ce_qtext v) (ce_keytext v) (ce_rfc v) (ce_auth v) (ce_now v)
                 (Some (ce_engine v)) (ugc_id q) s))"
| "cont_step v (ScheduledCheck i) s =
     snd (checkContainerUpdatesInternal (ce_fails v) (ce_qtext v) (ce_rfc v) (ce_auth v) (ce_now v) (Some (ce_engine v)) i s)"
| "cont_step v (ScheduledUpgrade i) s =
     snd (upgradeContainerInternal (ce_fails v) (ce_qtext v) (ce_keytext v) (ce_rfc v) (ce_auth v) (ce_now v)
           (Some (ce_engine v)) i s)"
| "cont_step v (HostChanges h) s = s\<lparr>cs_host := h\<rparr>"

text \<open>The call of an upgrade, as the interceptor's handler makes it, moves the containers like that.\<close>

lemma upgradeContainerRpc_step:
  "fst (snd (upgradeContainerRpc (ce_fails v) (ce_qtext v) (ce_keytext v) (ce_rfc v) (ce_auth v) (ce_now v) (Some (ce_engine v))
      auditor afails cx q (s, d))) = cont_step v (CallUpgrade cx q) s"
  by (simp add: upgradeContainerRpc_def split: option.splits prod.splits)

lemma nothing_announced: "cs_rows s' = cs_rows s \<Longrightarrow> cs_broker s' = cs_broker s \<Longrightarrow> announces rfc nm s [] s'"
  by (simp add: announces_def)

text \<open>Each of them announces what it changes, if it can read the row again.\<close>

definition announced :: "(int \<Rightarrow> string) \<Rightarrow> (string \<Rightarrow> string) \<Rightarrow> 'h csrv \<Rightarrow> 'h csrv \<Rightarrow> bool" where
  "announced rfc nm s s' \<longleftrightarrow> (well_named nm (cs_rows s') \<longrightarrow> (\<exists>evs. announces rfc nm s evs s'))"

lemma announced_same: "cs_rows s' = cs_rows s \<Longrightarrow> cs_broker s' = cs_broker s \<Longrightarrow> announced rfc nm s s'"
  unfolding announced_def by (blast intro: nothing_announced)

lemma announced_broadcast:
  assumes "\<not> fails QReread" "getContainer i rows' = Some r"
    and "\<And>j. j \<noteq> i \<Longrightarrow> getContainer j rows' = getContainer j (cs_rows s)"
  shows "announced rfc nm s (broadcast fails rfc i (s\<lparr>cs_host := h, cs_rows := rows'\<rparr>))"
  unfolding announced_def
proof
  assume "well_named nm (cs_rows (broadcast fails rfc i (s\<lparr>cs_host := h, cs_rows := rows'\<rparr>)))"
  then have "well_named nm rows'" by simp
  from broadcast_announces [where fails = fails and rfc = rfc and h = h and s = s, OF assms(1) this assms(2,3)]
  show "\<exists>evs. announces rfc nm s evs (broadcast fails rfc i (s\<lparr>cs_host := h, cs_rows := rows'\<rparr>))" by blast
qed

lemma announced_event:
  assumes "\<not> fails QReread"
  shows "announced rfc nm s (handleEvent fails rfc E a i s)"
proof -
  have "announced rfc nm s (s\<lparr>cs_rows := deleteContainer i (cs_rows s), cs_broker := publish (delete_event i) (cs_broker s)\<rparr>)"
    unfolding announced_def announces_def by (intro impI exI [of _ "[delete_event i]"]) (simp add: delete_view)
  moreover have "announced rfc nm s (broadcast fails rfc i (s\<lparr>cs_rows := upsertContainerFromEvent (inspected i ins) (cs_rows s)\<rparr>))"
    for ins
    using announced_broadcast [where fails = fails and i = i and rows' = "upsertContainerFromEvent (inspected i ins) (cs_rows s)" and
        h = "cs_host s" and s = s, OF assms]
    by (simp add: inspected_def)
  ultimately show ?thesis by (auto simp: handleEvent_def announced_same split: sum.splits)
qed

lemma announced_change:
  assumes "\<not> fails QReread"
  shows "announced rfc nm s (snd (change_state act failed after fails qtext rfc docker cx i s))"
proof -
  have "announced rfc nm s (snd (save_state fails qtext rfc existing st (s\<lparr>cs_host := h\<rparr>)))" for existing st h
    using announced_broadcast [where fails = fails and i = "cr_id existing" and
        rows' = "saveContainer (existing\<lparr>cr_state := st\<rparr>) (cs_rows s)" and h = h and s = s, OF assms]
    by (auto simp: save_state_def announced_same)
  then have saved: "announced rfc nm s s1" if "save_state fails qtext rfc existing st (s\<lparr>cs_host := h\<rparr>) = (e, s1)" for existing st h e s1
    using that by (metis snd_conv)
  have host: "announced rfc nm s (s\<lparr>cs_host := h\<rparr>)" for h by (rule announced_same) simp_all
  show ?thesis using saved
    by (auto simp: change_state_def host announced_same split: option.split sum.split prod.split)
qed

lemma announced_auto:
  assumes "\<not> fails QReread"
  shows "announced rfc nm s (snd (setContainerAutoUpdateRpc fails qtext rfc cx q s))"
proof -
  have "announced rfc nm s (broadcast fails rfc (sau_id q) (s\<lparr>cs_rows := setAutoUpdate_row (sau_id q) v (cs_rows s)\<rparr>))"
    if "find_existing fails qtext (sau_id q) (cs_rows s) = Inr existing" for existing v
    using announced_broadcast [where fails = fails and i = "sau_id q" and rows' = "setAutoUpdate_row (sau_id q) v (cs_rows s)" and
        h = "cs_host s" and s = s, OF assms] find_existing_Inr [OF that] by simp
  then show ?thesis
    by (auto simp: setContainerAutoUpdateRpc_def announced_same split: option.split sum.split)
qed

lemma announced_check:
  assumes "\<not> fails QReread"
  shows "announced rfc nm s (snd (checkContainerUpdatesInternal fails qtext rfc auth now docker i s))"
proof -
  have "announced rfc nm s (broadcast fails rfc i (s\<lparr>cs_rows := updateState_row i a g now (cs_rows s)\<rparr>))"
    if "getContainer i (cs_rows s) = Some existing" for existing a g
    using announced_broadcast [where fails = fails and i = i and rows' = "updateState_row i a g now (cs_rows s)" and
        h = "cs_host s" and s = s, OF assms] that by simp
  then show ?thesis
    by (auto simp: checkContainerUpdatesInternal_def announced_same Let_def split: option.split sum.split prod.split)
qed

lemma announced_checkRpc:
  assumes "\<not> fails QReread"
  shows "announced rfc nm s (snd (checkContainerUpdatesRpc fails qtext rfc auth now docker cx q s))"
  using announced_check [where fails = fails, OF assms, of rfc nm s qtext auth now docker "ccu_id q"]
  by (auto simp: checkContainerUpdatesRpc_def announced_same split: option.split sum.split prod.split check_error.split)

lemma announces_trans: "announces rfc nm s evs s1 \<Longrightarrow> announces rfc nm s1 fs s2 \<Longrightarrow> announces rfc nm s (evs @ fs) s2"
  by (simp add: announces_def)

lemma storeUpgrade_None:
  "storeUpgrade fails qtext keytext rfc now existing p s = (None, s') \<Longrightarrow>
     \<exists>rows. s' = announceUpgrade fails rfc (cr_id existing) (up_id p) (s\<lparr>cs_rows := rows\<rparr>)"
  by (auto simp: storeUpgrade_def swapRow_def finishStore_def split: if_splits option.splits prod.splits sum.splits)

lemma announced_store:
  assumes reread: "\<not> fails QReread" and ids: "distinct (row_ids (cs_rows s))"
    and ex: "getContainer (cr_id existing) (cs_rows s) = Some existing"
    and run: "storeUpgrade fails qtext keytext rfc now existing p (s\<lparr>cs_host := h\<rparr>) = (None, s')"
  shows "announced rfc nm s s'"
proof -
  let ?old = "cr_id existing" and ?new = "up_id p"
  obtain rows where s': "s' = announceUpgrade fails rfc ?old ?new (s\<lparr>cs_host := h, cs_rows := rows\<rparr>)"
    using storeUpgrade_None [OF run] by auto
  have get: "getContainer j rows = (if j = ?new then Some (upgraded_row p now existing) else if j = ?old then None else getContainer j (cs_rows s))" for j
    using storeUpgrade_rows [OF run, of j] ids ex s' by simp
  let ?s1 = "if ?new \<noteq> ?old then s\<lparr>cs_rows := deleteContainer ?old (cs_rows s), cs_broker := publish (delete_event ?old) (cs_broker s)\<rparr> else s"
  have one: "announces rfc nm s (if ?new \<noteq> ?old then [delete_event ?old] else []) ?s1"
    by (simp add: announces_def delete_view)
  have s1: "s' = broadcast fails rfc ?new (?s1\<lparr>cs_host := h, cs_rows := rows\<rparr>)"
    by (cases s) (simp add: s' announceUpgrade_def)
  show ?thesis unfolding announced_def
  proof
    assume "well_named nm (cs_rows s')"
    then have "well_named nm rows" by (simp add: s1)
    moreover have "getContainer ?new rows = Some (upgraded_row p now existing)" by (simp add: get)
    moreover have "getContainer j rows = getContainer j (cs_rows ?s1)" if "j \<noteq> ?new" for j using that by (auto simp: get)
    ultimately have "announces rfc nm ?s1 [save_event rfc (upgraded_row p now existing)] s'"
      unfolding s1 by (rule broadcast_announces [where fails = fails, OF reread])
    then show "\<exists>evs. announces rfc nm s evs s'" using announces_trans [OF one] by blast
  qed
qed

lemma announced_upgrade:
  assumes "\<not> fails QReread" "distinct (row_ids (cs_rows s))"
  shows "announced rfc nm s (snd (upgradeContainerInternal fails qtext keytext rfc auth now docker i s))"
proof (cases "find_existing fails qtext i (cs_rows s)")
  case (Inl e)
  then show ?thesis by (simp add: upgradeContainerInternal_def announced_same)
next
  case (Inr existing)
  then have ex: "getContainer (cr_id existing) (cs_rows s) = Some existing" using find_existing_Inr by metis
  have host: "announced rfc nm s (s\<lparr>cs_host := h\<rparr>)" for h by (rule announced_same) simp_all
  have "announced rfc nm s s1" if run: "storeUpgrade fails qtext keytext rfc now existing p (s\<lparr>cs_host := h\<rparr>) = (e, s1)" for p h e s1
  proof (cases e)
    case None
    show ?thesis by (rule announced_store [where fails = fails, OF assms ex run [unfolded None]])
  next
    case (Some f)
    then have "s1 = s\<lparr>cs_host := h\<rparr>" using storeUpgrade_fails run by blast
    then show ?thesis by (simp add: host)
  qed
  then show ?thesis using Inr host
    by (auto simp: upgradeContainerInternal_def announced_same split: option.split sum.split prod.split)
qed

lemma cont_step_announced:
  assumes "\<not> ce_fails v QReread" "distinct (row_ids (cs_rows s))"
  shows "announced (ce_rfc v) nm s (cont_step v op s)"
proof -
  have tail: "snd (case r of (Inl e, s1) \<Rightarrow> (Inl e, s1) | (Inr (a, b), s1) \<Rightarrow> (Inr (f a b), s1)) = snd r"
    for r :: "(call_failure + string \<times> string) \<times> 'h csrv" and f :: "string \<Rightarrow> string \<Rightarrow> 'r"
    by (auto split: prod.split sum.split)
  note reread = assms(1)
  show ?thesis
  proof (cases op)
    case (CallStart cx q)
    then show ?thesis using announced_change [where fails = "ce_fails v", OF reread] by (simp add: startContainerRpc_def tail)
  next
    case (CallStop cx q)
    then show ?thesis using announced_change [where fails = "ce_fails v", OF reread] by (simp add: stopContainerRpc_def tail)
  qed (use announced_event [where fails = "ce_fails v", OF reread] announced_auto [where fails = "ce_fails v", OF reread]
      announced_check [where fails = "ce_fails v", OF reread] announced_checkRpc [where fails = "ce_fails v", OF reread]
      announced_upgrade [where fails = "ce_fails v", OF assms] in \<open>simp_all add: announced_same\<close>)
qed

section \<open>The channel\<close>

definition subscribed :: "nat \<Rightarrow> broker \<Rightarrow> bool" where
  "subscribed ch b \<longleftrightarrow> map_of (br_subscribers b) ch \<noteq> None"

lemma map_of_buffers: "map_of (map (\<lambda>(c, buf). (c, f c buf)) xs) ch = map_option (f ch) (map_of xs ch)"
  by (induction xs) auto

lemma queue_publish:
  assumes "subscribed ch b"
  shows "subscribed ch (publish ev b)"
    "queue ch (publish ev b) = (if length (queue ch b) < channel_capacity then queue ch b @ [ev] else queue ch b)"
  using assms map_of_buffers [of "\<lambda>_ buf. if length buf < channel_capacity then buf @ [ev] else buf" "br_subscribers b" ch]
  by (auto simp: subscribed_def queue_def publish_def)

lemma queue_fold_publish:
  "subscribed ch b \<Longrightarrow> subscribed ch (fold publish evs b)
     \<and> length (queue ch b) \<le> length (queue ch (fold publish evs b))
     \<and> (length (queue ch (fold publish evs b)) < channel_capacity \<longrightarrow> queue ch (fold publish evs b) = queue ch b @ evs)"
proof (induction evs arbitrary: b)
  case (Cons ev evs)
  from Cons.IH [OF queue_publish(1) [OF Cons.prems], of ev] show ?case
    using queue_publish(2) [OF Cons.prems, of ev] by (auto split: if_splits)
qed simp

lemma queue_dequeue: "subscribed ch b \<Longrightarrow> subscribed ch (dequeue c b) \<and> queue ch (dequeue c b) = (if c = ch then tl (queue ch b) else queue ch b)"
  using map_of_buffers [of "\<lambda>d buf. if d = c then tl buf else buf" "br_subscribers b" ch]
  by (auto simp: subscribed_def queue_def dequeue_def)

lemma queue_subscribe: "subscribed ch b \<Longrightarrow> subscribed ch (snd (subscribe b)) \<and> queue ch (snd (subscribe b)) = queue ch b"
  by (auto simp: subscribed_def queue_def subscribe_def split: option.splits)

lemma queue_unsubscribe:
  assumes "c \<noteq> ch" "subscribed ch b"
  shows "subscribed ch (unsubscribe c b) \<and> queue ch (unsubscribe c b) = queue ch b"
proof -
  have "map_of (filter (\<lambda>(d, _). d \<noteq> c) xs) ch = map_of xs ch" for xs :: "(nat \<times> streamContainersResponse list) list"
    using assms(1) by (induction xs) auto
  with assms show ?thesis by (simp add: subscribed_def queue_def unsubscribe_def)
qed

text \<open>A subscriber with a hundred messages to read misses the next one, and is not told.\<close>

lemma slow_subscriber_misses:
  "subscribed ch b \<Longrightarrow> channel_capacity \<le> length (queue ch b) \<Longrightarrow> queue ch (publish ev b) = queue ch b"
  by (simp add: queue_publish)

section \<open>The dashboard and the server\<close>

text \<open>
  The server and a hook that is subscribed to channel \<open>ch\<close>: operations of the server, messages that
  arrive, timeouts of the hook, and other subscribers who come, read and go. The rows keep their
  names, and the subscriber never falls a hundred messages behind.
\<close>

inductive link ::
  "'h cont_env \<Rightarrow> (string \<Rightarrow> string) \<Rightarrow> nat \<Rightarrow> 'h csrv \<times> cont_hook \<Rightarrow> 'h csrv \<times> cont_hook \<Rightarrow> bool" for v nm ch where
  operation: "s' = cont_step v op s \<Longrightarrow> well_named nm (cs_rows s') \<Longrightarrow> length (queue ch (cs_broker s')) < channel_capacity \<Longrightarrow>
    link v nm ch (s, h) (s', h)"
| deliver: "streamContainers_next False (\<lambda>_. None) ch (cs_broker s) = (Some (Inr ev), b) \<Longrightarrow>
    link v nm ch (s, h) (s\<lparr>cs_broker := b\<rparr>, onStream ev h)"
| timeout: "link v nm ch (s, h) (s, fireTimer t h)"
| joins: "link v nm ch (s, h) (s\<lparr>cs_broker := snd (subscribe (cs_broker s))\<rparr>, h)"
| reads: "c \<noteq> ch \<Longrightarrow> link v nm ch (s, h) (s\<lparr>cs_broker := dequeue c (cs_broker s)\<rparr>, h)"
| leaves: "c \<noteq> ch \<Longrightarrow> link v nm ch (s, h) (s\<lparr>cs_broker := unsubscribe c (cs_broker s)\<rparr>, h)"

definition link_inv :: "'h cont_env \<Rightarrow> (string \<Rightarrow> string) \<Rightarrow> nat \<Rightarrow> 'h csrv \<times> cont_hook \<Rightarrow> bool" where
  "link_inv v nm ch sh \<longleftrightarrow>
     (let (s, h) = sh in
      subscribed ch (cs_broker s) \<and> well_named nm (cs_rows s) \<and> server_feed.in_step (ce_rfc v) nm s (queue ch (cs_broker s)) h)"

lemma in_step_rows:
  "cs_rows s' = cs_rows s \<Longrightarrow> server_feed.in_step rfc nm s' q h = server_feed.in_step rfc nm s q h"
  by (simp add: server_feed.in_step_def)

lemma link_preserves:
  assumes reread: "\<not> ce_fails v QReread"
  shows "link v nm ch sh sh' \<Longrightarrow> link_inv v nm ch sh \<Longrightarrow> link_inv v nm ch sh'"
proof (induction rule: link.induct)
  case (operation s' op s h)
  then have inv: "subscribed ch (cs_broker s)" "distinct (row_ids (cs_rows s))"
      "server_feed.in_step (ce_rfc v) nm s (queue ch (cs_broker s)) h"
    by (auto simp: link_inv_def well_named_def)
  obtain evs where evs: "announces (ce_rfc v) nm s evs s'"
    using cont_step_announced [OF reread inv(2)] operation(1,2) unfolding announced_def by blast
  then have b: "cs_broker s' = fold publish evs (cs_broker s)" by (simp add: announces_def)
  then have "subscribed ch (cs_broker s')" "queue ch (cs_broker s') = queue ch (cs_broker s) @ evs"
    using queue_fold_publish [OF inv(1), of evs] operation(3) by auto
  then show ?case using server_feed.in_step_post [OF inv(3) evs] operation(2) by (simp add: link_inv_def)
next
  case (deliver s ev b h)
  then obtain q where q: "queue ch (cs_broker s) = ev # q" "b = dequeue ch (cs_broker s)"
    by (auto simp: streamContainers_next_def split: list.splits)
  have inv: "subscribed ch (cs_broker s)" "well_named nm (cs_rows s)" "server_feed.in_step (ce_rfc v) nm s (ev # q) h"
    using deliver.prems q(1) by (auto simp: link_inv_def)
  show ?case using queue_dequeue [OF inv(1), of ch] q inv(2) server_feed.in_step_deliver [OF inv(3)]
    by (simp add: link_inv_def in_step_rows [of "s\<lparr>cs_broker := c\<rparr>" s for c])
next
  case (timeout s h t)
  then show ?case by (simp add: link_inv_def server_feed.in_step_timer)
next
  case (joins s h)
  then show ?case using queue_subscribe [of ch "cs_broker s"]
    by (simp add: link_inv_def in_step_rows [of "s\<lparr>cs_broker := b\<rparr>" s for b])
next
  case (reads c s h)
  then show ?case using queue_dequeue [of ch "cs_broker s" c]
    by (simp add: link_inv_def in_step_rows [of "s\<lparr>cs_broker := b\<rparr>" s for b])
next
  case (leaves c s h)
  then show ?case using queue_unsubscribe [of c ch "cs_broker s"]
    by (simp add: link_inv_def in_step_rows [of "s\<lparr>cs_broker := b\<rparr>" s for b])
qed

lemma map_of_rows: "map_of (map (\<lambda>r. (cr_id r, f r)) rs) i = map_option f (map_of (map (\<lambda>r. (cr_id r, r)) rs) i)"
  by (induction rs) auto

lemma fetched_in_step:
  assumes "well_named nm (cs_rows s)" "listContainersRpc fails qtext rfc s = Inr ws"
  shows "server_feed.in_step rfc nm s [] (fetchContainers_end (Inr ws) cont_init)"
proof -
  let ?rows = "listContainers (cs_rows s)"
  have ws: "ws = map (mapContainerRecord rfc) ?rows" using assms(2) by (simp add: listContainersRpc_def split: if_splits)
  have set_rows: "set ?rows = set (cs_rows s)" by (simp add: listContainers_def)
  have ids: "distinct (map cr_id ?rows)" "distinct (map cr_name ?rows)" "distinct (map cr_id (cs_rows s))"
    using assms(1) by (simp_all add: well_named_def row_ids_def listContainers_def distinct_map)
  then have inv: "cont_inv (fetchContainers_end (Inr ws) cont_init)"
    by (intro cont_inv_fetched) (simp_all add: ws comp_def mapContainerRecord_def)
  have h: "containers (fetchContainers_end (Inr ws) cont_init) = map (client_row rfc) ?rows" "timers (fetchContainers_end (Inr ws) cont_init) = []"
      "isMounted (fetchContainers_end (Inr ws) cont_init)"
    by (simp_all add: fetchContainers_end_def cont_init_def ws client_row_def)
  have "map_of (map (\<lambda>r. (cr_id r, r)) rs) (cr_id r) = Some r" if "distinct (map cr_id rs)" "r \<in> set rs" for r :: db_container and rs
    using that by (simp add: map_of_eq_Some_iff comp_def)
  then have "map_of (map (\<lambda>r. (cr_id r, r)) ?rows) = map_of (map (\<lambda>r. (cr_id r, r)) (cs_rows s))"
    using ids set_rows by (intro map_of_eqI) auto
  then have "map_of (map (\<lambda>c. (c_id c, c)) (map (client_row rfc) ?rows)) i = view rfc (cs_rows s) i" for i
    by (simp add: view_def getContainer_map comp_def map_of_rows [of "client_row rfc"])
  then have "abs_cont (fetchContainers_end (Inr ws) cont_init) = view rfc (cs_rows s)"
    by (simp add: abs_cont_def doomed_def h fun_eq_iff)
  moreover have "names_by nm (fetchContainers_end (Inr ws) cont_init)"
    using assms(1) set_rows by (auto simp: names_by_def h well_named_def list_all_iff)
  ultimately show ?thesis using inv h(3) by (simp add: server_feed.in_step_def)
qed

section \<open>Properties\<close>

text \<open>
  C14: The dashboard shows the containers of the server. Let a page be subscribed to the stream and
  have fetched the list at that moment, from a table with unique ids and names. Then let operations
  run on the server one after the other (events of the engine, calls of users to start, stop, check
  and upgrade containers and to change their setting, the scheduler, changes of the host, whether
  they succeed or fail), in any interleaving with the delivery of messages, the timeouts of the page,
  and other subscribers. As long as the rows keep their names, the page is never a hundred messages
  behind and the rows that are announced can be read, the page has, whenever it has received what was
  sent and its timeouts have run out, exactly the containers of the server's table.
\<close>

theorem dashboard_mirrors_server:
  assumes "\<not> ce_fails v QReread" and "well_named nm (cs_rows s)" and "map_of (br_subscribers (cs_broker s)) ch = Some []"
    and "listContainersRpc (ce_fails v) qtext (ce_rfc v) s = Inr ws"
    and "rtranclp (link v nm ch) (s, fetchContainers_end (Inr ws) cont_init) (s', h)"
    and "queue ch (cs_broker s') = []"
  shows "map_of (map (\<lambda>c. (c_id c, c)) (containers (settle_all h))) = view (ce_rfc v) (cs_rows s')"
proof -
  have "link_inv v nm ch (s, fetchContainers_end (Inr ws) cont_init)"
    using fetched_in_step [OF assms(2,4)] assms(2,3) by (simp add: link_inv_def subscribed_def queue_def)
  with assms(5) have "link_inv v nm ch (s', h)"
    by (induction rule: rtranclp_induct) (use link_preserves [OF assms(1)] in auto)
  then have "server_feed.in_step (ce_rfc v) nm s' [] h" using assms(6) by (simp add: link_inv_def)
  then show ?thesis by (rule server_feed.arrived)
qed

definition web_env :: "(string \<times> inspect) list cont_env" where
  "web_env = \<lparr>ce_fails = (\<lambda>_. False), ce_qtext = (\<lambda>_. []), ce_keytext = (\<lambda>_. []), ce_rfc = (\<lambda>_. []), ce_auth = (\<lambda>_. []),
              ce_now = 0, ce_engine = host_engine\<rparr>"

definition web_joined :: "(string \<times> inspect) list csrv" where
  "web_joined = web_server\<lparr>cs_broker := snd (subscribe newBroker)\<rparr>"

theorem dashboard_mirrors_server_witness:
  "containers (settle_all (onStream (delete_event ''c1'')
     (fetchContainers_end (Inr (map (mapContainerRecord (\<lambda>_. [])) [web_row])) cont_init))) = []"
proof -
  let ?v = "web_env" and ?s = "web_joined"
  let ?s1 = "cont_step ?v (EngineEvent ''destroy'' ''c1'') ?s"
  let ?ws = "map (mapContainerRecord (\<lambda>_. [])) [web_row]"
  let ?h = "fetchContainers_end (Inr ?ws) cont_init"
  let ?b = "dequeue 0 (cs_broker ?s1)"
  have start: "\<not> ce_fails ?v QReread" "well_named (\<lambda>_. ''web'') (cs_rows ?s)" "map_of (br_subscribers (cs_broker ?s)) 0 = Some []"
      "listContainersRpc (ce_fails ?v) (\<lambda>_. []) (ce_rfc ?v) ?s = Inr ?ws"
    by code_simp+
  have "link ?v (\<lambda>_. ''web'') 0 (?s, ?h) (?s1, ?h)" by (rule link.operation [OF refl]) code_simp+
  moreover have "link ?v (\<lambda>_. ''web'') 0 (?s1, ?h) (?s1\<lparr>cs_broker := ?b\<rparr>, onStream (delete_event ''c1'') ?h)"
    by (rule link.deliver) code_simp
  ultimately have "rtranclp (link ?v (\<lambda>_. ''web'') 0) (?s, ?h) (?s1\<lparr>cs_broker := ?b\<rparr>, onStream (delete_event ''c1'') ?h)"
    by (meson converse_rtranclp_into_rtranclp r_into_rtranclp)
  note mirrored = dashboard_mirrors_server [OF start this]
  have "queue 0 (cs_broker (?s1\<lparr>cs_broker := ?b\<rparr>)) = []" by code_simp
  from mirrored [OF this] have "map_of (map (\<lambda>c. (c_id c, c)) (containers (settle_all (onStream (delete_event ''c1'') ?h)))) = Map.empty"
    by (simp add: view_def web_joined_def web_server_def web_row_def web_env_def handleEvent_def getContainer_def fun_eq_iff
        deleteContainer_def)
  then show ?thesis by (simp add: map_of_eq_empty_iff)
qed

text \<open>
  The list that is fetched replaces what the stream has told meanwhile: an answer that was read
  before a message and arrives after it puts the old rows back.
\<close>

lemma late_fetch_undoes_stream:
  "isMounted h \<Longrightarrow> containers (fetchContainers_end (Inr ws) (onStream ev h)) = map (mapProtoContainer \<circ> proto_of_wire) ws"
  using mounted_feed [of "Msg ev" h] by (simp add: fetchContainers_end_def Let_def)

text \<open>
  Reading a row and announcing it are two steps: of two operations on a container, the one that
  reads first may announce last, and the page is left with the older row.
\<close>

lemma overtaken_announcement:
  assumes "cr_id r = cr_id r'" "client_row rfc r \<noteq> client_row rfc r'"
  shows "apply_msgs [save_event rfc r', save_event rfc r] m (cr_id r') \<noteq> Some (client_row rfc r')"
  using assms by simp

end
