(* ===== verification/Spec2Isabelle.thy ===== *)
theory Spec2Isabelle
  imports Toasts Admin_Format Container_Views Status_Poll Routes Admin_Views Client_Logs Audit_Logs Log_Views Settings_View
    Outcome_Reports Client_Sessions Container_Sync
begin

text \<open>
  dmanager, a web application that watches and administers the containers, images, volumes and
  networks of one Docker host. The development covers the TypeScript frontend under
  \<open>src/frontend/src\<close>, and of the Go server the parts every call of the frontend passes: access
  control, the audit trail, sign-in and sessions, the settings, logging, and the containers with
  their upgrades. File names below are relative to \<open>src/frontend/src\<close>, those of the server
  (\<open>internal/...\<close>, \<open>cmd/...\<close>) to \<open>src\<close>.

  \<^bold>\<open>The program.\<close> \<open>main.tsx\<close> starts the client-side logger and its syncer and renders \<open>App.tsx\<close>:
  the toast provider, the authentication provider, and a router that is unmounted while the
  authentication state is loading. Behind the login and setup forms lie the container dashboard,
  the system logs, the audit logs, the administration page and the settings page, in a layout with
  a sidebar and the pill of the engine status. The pages call the server through generated RPC
  clients, keep their state in React hooks, and report outcomes as toasts. A component talks to
  another through the values a hook returns (the role of the user, the toast functions), through
  the location and the redirects of the route guards, and through local storage. On the server every
  call passes an interceptor, which finds the session of its cookie, compares the role of its user
  with a matrix of procedures, runs the handler, and records what an administrator changed. A table
  of the database mirrors the containers of the host: a monitor follows the events of the engine,
  a scheduler looks for newer images and redeploys, users start, stop and upgrade. What they change
  is published through a broker to the streams of the dashboards.

  \<^bold>\<open>Conventions.\<close>
  \<^item> A hook or component is a record of its state. Each handler is a function on it; one with an
    \<open>await\<close> is cut there, into \<open>f_begin\<close> (what runs up to the call) and \<open>f_end\<close> (what runs when the
    call settles), so that anything may happen in between.
  \<^item> A handler reads the state of the render it was made in and updates the current state: where
    the two may differ the definition takes both, \<open>r\<close> the rendered and \<open>s\<close> the current one.
  \<^item> The outcome of a call is \<open>js_error + 'a\<close> (\<open>rpc\<close>); a \<open>catch\<close> is the case \<open>Inl\<close>. A call of a toast
    function is a value, \<open>toast_call\<close>; \<open>emit\<close> runs such calls on the provider's list.
  \<^item> A view is a list of \<open>node\<close>s, with texts, buttons (what they dispatch, whether they are disabled,
    their title), links, fields and selects; \<open>offered\<close> reads off what an enabled control can
    dispatch. Layout, icons and style are left out.
  \<^item> Timeouts and intervals are numbered; a record keeps both the handles the component can still
    clear and those the browser still runs, so a leaked timer is visible.
  \<^item> Runs of a page are inductive step relations (\<open>dash_step\<close>, \<open>adm_step\<close>, \<open>settings_step\<close>,
    \<open>app_step\<close>), or functions folded over a list of events where every event is possible.
  \<^item> A JavaScript number is the rational a double holds, rounded to nearest even where the code
    divides (\<open>Admin_Format\<close>); bigint, and numbers that only count, are \<open>int\<close> or \<open>nat\<close>.

  \<^bold>\<open>Theories and sources.\<close>
  \<^item> \<open>Dm_Prelude\<close>: strings, errors and their texts, nodes; the collections \<open>op_defs\<close>, \<open>view_defs\<close>.
  \<^item> \<open>Wire_Messages\<close>: the messages of \<open>gen/proto/dmanager/v1/*_pb.ts\<close> that the code reads or sends.
  \<^item> \<open>Rpc_Api\<close>: the services of those files with their procedures, and \<open>client.ts\<close>.
  \<^item> \<open>Async_Contracts\<close>: the locales \<open>single_flight\<close> (operations guarded by flags of a view that may
    lag behind) and \<open>ticketed\<close> (answers dropped unless they belong to the latest request).
  \<^item> \<open>Toasts\<close>: \<open>context/ToastContext.tsx\<close>, \<open>components/ToastContainer.tsx\<close>. No toast leaks its
    timer (C1).
  \<^item> \<open>Admin_Format\<close>: \<open>components/adminFormat.ts\<close>. Accuracy of \<open>formatBytes\<close> (C2), the loop of the
    image statistics against sums and counts, splitting references, relative times.
  \<^item> \<open>Containers\<close>: \<open>hooks/useContainers.ts\<close>. The list refines a map under the stream of saves and
    deferred deletions; row ids stay distinct and timers are cleared; the subscription is live
    until the unmount (C6 to C8).
  \<^item> \<open>Container_Views\<close>: \<open>components/ContainerGrid.tsx\<close>, \<open>ContainerTable.tsx\<close>. One action per
    container, exactly the applicable controls (C9, C10), search and order, outcomes.
  \<^item> \<open>Status_Poll\<close>: \<open>hooks/useEngineStatus.ts\<close>, \<open>useTailscaleStatus.ts\<close>,
    \<open>components/TailscaleStatusCard.tsx\<close>. The latest check wins, one interval, the last known
    status, the expiry warning; the locale \<open>settling\<close> is what the wiring needs of a hook.
  \<^item> \<open>Auth\<close>: \<open>hooks/useAuth.tsx\<close>, \<open>components/Login.tsx\<close>, \<open>Setup.tsx\<close>. Session and storage agree, what
    ends a session, what the forms submit (C17 to C19).
  \<^item> \<open>Routes\<close>: \<open>routes/router.tsx\<close>, \<open>components/DashboardLayout.tsx\<close>, \<open>App.tsx\<close>. Redirects end, and
    the page shown is admissible (C21).
  \<^item> \<open>Admin_Resources\<close>: \<open>hooks/useAdminResources.ts\<close>. The latest fetch wins (C23); how mutations
    settle.
  \<^item> \<open>Dialogs\<close>: \<open>components/Dialog.tsx\<close>, \<open>ConfirmDialog.tsx\<close>. The focus trap (C25).
  \<^item> \<open>Admin_Views\<close>: \<open>components/Administration.tsx\<close>, \<open>ImageTable.tsx\<close>, \<open>NetworkTable.tsx\<close>,
    \<open>VolumeTable.tsx\<close>, \<open>Builder.tsx\<close>, \<open>BuilderRecords.tsx\<close>, \<open>PageTabs.tsx\<close>, \<open>SortButton.tsx\<close>. One
    operation of each sort; exactly the deletable rows have a control (C26, C28).
  \<^item> \<open>Client_Logs\<close>: \<open>services/logger.ts\<close>, \<open>services/syncer.ts\<close>. Delivery without loss or duplication,
    termination, what is recorded (C29, C30, C32), one loop.
  \<^item> \<open>Audit_Logs\<close>: \<open>hooks/useAuditLogs.ts\<close>, \<open>components/AuditLogsPage.tsx\<close>. The entries follow the
    filters; pagination (C33, C34).
  \<^item> \<open>Log_Views\<close>: \<open>components/SystemLogs.tsx\<close>, \<open>LogsDrawer.tsx\<close>. One refresh interval; only the
    current stream is shown (C35, C36).
  \<^item> \<open>Settings_Ops\<close>, \<open>Settings_View\<close>: \<open>components/Settings.tsx\<close>, its state and handlers, and its view
    and runs. No overlapping operations, destructive outcomes, the list of passkeys (C37 to C39),
    saving.
  \<^item> \<open>Page_Calls\<close>: which calls the hooks and pages send, and runs of the administration page labelled
    with them. Volumes are measured on request only (C16).
  \<^item> \<open>Server_Audit\<close>: \<open>internal/audit/audit.go\<close>, recording and retention.
  \<^item> \<open>Server_Access\<close>: \<open>internal/auth/interceptor.go\<close>. Every call is guarded by the matrix (C5), and an
    administrator's change, or the attempt at one, is recorded once (C12).
  \<^item> \<open>Rate_Limit\<close>: \<open>internal/auth/ratelimit.go\<close>. The limiter refines a rule on the history (C24) and
    bounds wrong guesses (C15); overlapping attempts can overflow it (\<open>overlapping_unlocks\<close>).
  \<^item> \<open>Server_Sessions\<close>: \<open>internal/auth/service.go\<close>, \<open>password.go\<close>, \<open>purge.go\<close>: setup, sign-in with a
    password, sign-out, revocation, expiry. Signing in opens a session for its user (C4).
  \<^item> \<open>Server_Account\<close>: the lists of sessions and sign-in events of \<open>internal/auth/service.go\<close>, with
    their pages, and the removal of old events.
  \<^item> \<open>Server_Logs\<close>: \<open>internal/logging\<close>. The ring buffer answers with the latest entries (C3).
  \<^item> \<open>Server_Settings\<close>: \<open>internal/settings/service.go\<close>, \<open>internal/notification/gotify.go\<close>. What is
    stored, shown and enforced, and where notifications go.
  \<^item> \<open>Server_Containers\<close>: \<open>internal/container/service.go\<close>, \<open>actions.go\<close>, \<open>sync.go\<close>, \<open>stream.go\<close>,
    \<open>broker.go\<close>, \<open>internal/docker/monitor.go\<close>, the queries on the table, and the check for newer
    images of \<open>upgrade.go\<close>. What a synchronisation leaves in the table (\<open>sync_exact\<close>).
  \<^item> \<open>Server_Upgrade\<close>: \<open>internal/container/upgrade.go\<close>, \<open>scheduler.go\<close>. An upgrade puts a
    container with the same parameters in the place of the old one, and the table follows; a failed
    one leaves the table and the other containers alone (C31). The automatic update of a container
    survives its upgrade, in whichever order the events of the engine come (C11).
  \<^item> \<open>Container_Sync\<close>: the table of the server and the list of the dashboard. The locale
    \<open>change_feed\<close> is what the hook needs of a server, interpreted on the server's operations: once the
    messages have arrived, the dashboard has the table (C14).
  \<^item> \<open>Client_Server\<close>: both ends together. The start-up check agrees with the server (C20); saved
    settings take effect (C40); the first run of an installation (\<open>first_run\<close>); the way of a log entry
    (\<open>sync_end_to_end\<close>, by the locale \<open>log_sink\<close> of what the syncer needs of a server).
  \<^item> \<open>Client_Sessions\<close>: the list of sessions of the settings page agrees with the server after a
    revocation (C13).
  \<^item> \<open>Outcome_Reports\<close>: the locale \<open>reporter\<close>, interpreted for the operations of all pages. This theory
    holds the properties that span components: every outcome is reported (C22), and the pages make
    a user without the admin role call only what the server's matrix opens to viewers (C27).

  \<^bold>\<open>Bounds and fuel.\<close> \<open>navigate\<close> follows redirects with a fuel of one hop, which \<open>navigation_total\<close>
  shows to be enough from every location. \<open>sync_all\<close> has fuel for the number of batches; C30 shows that
  \<open>n div 50 + 1\<close> is enough for \<open>n\<close> stored entries. The batch size and the audit page size are 50, as
  in the sources. Every other recursion is structural. Durations of the limiter are 64-bit integers
  whose range is written out; other times are unbounded.

  \<^bold>\<open>Arguments.\<close> What belongs to the browser or to a library is an argument of the definitions that
  use it: the Dexie table (a record of operations, with the documented laws \<open>dexie_laws\<close> as a
  hypothesis and a list-based instance in the witnesses), the locale's date texts and \<open>localeCompare\<close>, the row
  order of the table library (a permutation), the browser's own Tab order, JSON parsing and the
  authenticator in the passkey ceremonies, \<open>timestampDate\<close> of the protobuf library, and the random
  ids of toasts. The terminal of the logs drawer is seen through the commands it is given.
  On the server: the handler behind the interceptor (any function of the caller, the call and the
  database), which queries fail and with what text, the clock (one reading per step), password
  hashing, random bytes, the breach service, the ids and times the database gives to new rows, the
  protobuf form of a time, the HTTP client of the notifications, the login to a
  registry, JSON encoding, and what the conversion of an out-of-range float gives. The Docker engine
  is a record of operations on a host of any type; C31 assumes of it the documented laws
  \<open>engine_laws\<close> (which containers there are after pulling, starting, stopping, removing,
  creating and connecting), which
  \<open>host_engine\<close>, a host as an association list, satisfies. So are the encoding of registry credentials
  and the printing of times. The transport between the two is the argument \<open>deliver\<close>.

  \<^bold>\<open>Not modelled.\<close> Of the server: the Docker client library and its adapter, the administration of
  images, volumes, networks and the builder, the logs of a container, passkeys, mail, the Tailscale
  node, SQL and its migrations, configuration and start-up; where a property needs their answers these are arbitrary.
  \<open>main.tsx\<close> only calls libraries. Of the generated files, the serialised descriptors and schemas, and
  messages without a field. Layout, styles and icons; fitting the terminal to its element;
  \<open>requestIdleCallback\<close>, which only delays a run of the syncer; text beyond Latin-1 apart from three
  typographic characters.

  \<^bold>\<open>Behaviours worth knowing.\<close> Several lemmas beside the properties record where the code does less
  than it might be taken to: \<open>failed_login_shows_no_message\<close>, \<open>ghost_row\<close>, \<open>formatBytes_not_carried\<close>,
  \<open>overtaken_answer_shown\<close>, \<open>partial_ack_deletes_batch\<close>, \<open>stop_during_run\<close>,
  \<open>failed_load_then_retention_erases\<close>, \<open>denied_upgrade_unrecorded\<close>, \<open>overlapping_unlocks\<close>,
  \<open>remembered_slides_short\<close>, \<open>viewer_reads_no_settings\<close>, \<open>partial_update\<close>, \<open>disabled_dropped\<close>,
  \<open>sync_empty_keeps_orphans\<close>, \<open>rename_ignored\<close>, \<open>gap_unseen\<close>, \<open>start_overwrites\<close>,
  \<open>upgrade_loses_container\<close>, \<open>slow_subscriber_misses\<close>, \<open>late_fetch_undoes_stream\<close>,
  \<open>overtaken_announcement\<close>, \<open>event_type_ignored\<close> and others, each with a text that says what happens.
\<close>

section \<open>Properties across components\<close>



text \<open>What a user without the admin role makes the administration page call.\<close>

lemma reading_fetch: "list_all (\<lambda>c. required_role c \<le> RoleViewer) (fetch_calls kind)"
  by (cases kind) (simp_all add: fetch_calls_def)

lemma reading_click:
  "permitted False r m \<Longrightarrow> unarmed r \<Longrightarrow> list_all (\<lambda>c. required_role c \<le> RoleViewer) (click_calls m r)"
  by (cases m) (auto simp: unarmed_def)

lemma reading_run:
  "adm_run False c ms cs \<Longrightarrow> list_all (\<lambda>c. required_role c \<le> RoleViewer) cs"
proof (induction rule: adm_run.induct)
  case (click s r fl ms cs m e tab s' ks)
  have "unarmed r" using unarmed_reach adm_run_steps [OF click(1)] by blast
  then show ?case using click reading_click [OF offered_permitted [OF click(2)]] by simp
next
  case (render s r fl ms cs s' tab)
  then show ?case using reading_fetch [of tab] by (simp add: effect_calls_def)
qed (auto simp: list_all_iff)

lemma reading_page:
  "r \<noteq> AuditLogsRoute \<Longrightarrow> list_all (\<lambda>c. required_role c \<le> RoleViewer) (page_calls r)"
  using reading_fetch
  by (cases r) (auto simp: page_calls_def sys_calls_def settings_mount_calls_def security_calls_def
      authEvents_call_def list_all_iff less_eq_procedureRole_def)

lemma dash_calls_act: "(\<And>a i. m \<noteq> Act a i) \<Longrightarrow> dash_calls m = []"
  by (cases m) auto

lemma reading_dash: "(\<And>a i. Act a i \<notin> set ms) \<Longrightarrow> concat (map dash_calls ms) = []"
  using dash_calls_act by (auto simp: concat_eq_Nil_conv) metis

text \<open>
  The settings page does not look at the role: it offers saving to everyone, and the call that
  makes is one the server denies to anyone but an administrator.
\<close>

lemma settings_save_denied:
  "list_all (\<lambda>c. required_role c = RoleAdmin) (settings_calls SaveSettings r)"
  by simp



end
